(* ===== verification/Prelude.thy ===== *)
theory Prelude
  imports Main
begin

text \<open>
  Shared vocabulary of the development.

  A Go function of the gateway that calls the outside world (an inference server, Redis, the clock)
  and may panic is a state transformer over an abstract world \<open>'w\<close>: \<open>('w, 'a) prog\<close>. Its outcome is
  \<open>Ret a\<close> or \<open>Panic msg\<close>, and the world reached is kept in both cases. A Go pair
  \<open>(T, error)\<close> is a value of \<open>'a result\<close>, an error (its message) or the value.

  Two families of rules carry the proofs about such programs: \<open>safe m Q\<close> (the program never panics
  and its value satisfies \<open>Q\<close>) in the collection \<open>safe_intros\<close>, and \<open>cost f k m\<close> (the program raises
  the counter \<open>f\<close> of the world by at most \<open>k\<close>) in \<open>cost_intros\<close>.
\<close>

named_theorems safe_intros "introduction rules for programs that never panic"
named_theorems cost_intros "introduction rules for bounds on a counter of the world"
named_theorems prog_simps "how the program combinators run"

section \<open>Outcomes, errors and programs\<close>

datatype 'a go = Ret 'a | Panic string

type_synonym goerr = string
type_synonym 'a result = "goerr + 'a"
type_synonym ('w, 'a) prog = "'w \<Rightarrow> 'a go \<times> 'w"

definition gret :: "'a \<Rightarrow> ('w, 'a) prog" where
  "gret a = (\<lambda>w. (Ret a, w))"

definition gpanic :: "string \<Rightarrow> ('w, 'a) prog" where
  "gpanic msg = (\<lambda>w. (Panic msg, w))"

definition gbind :: "('w, 'a) prog \<Rightarrow> ('a \<Rightarrow> ('w, 'b) prog) \<Rightarrow> ('w, 'b) prog" where
  "gbind m f = (\<lambda>w. case m w of (Ret a, w') \<Rightarrow> f a w' | (Panic msg, w') \<Rightarrow> (Panic msg, w'))"

definition glift :: "'a go \<Rightarrow> ('w, 'a) prog" where
  "glift r = (\<lambda>w. (r, w))"

text \<open>A call of the outside world that cannot panic.\<close>

definition grun :: "('w \<Rightarrow> 'a \<times> 'w) \<Rightarrow> ('w, 'a) prog" where
  "grun m = (\<lambda>w. case m w of (a, w') \<Rightarrow> (Ret a, w'))"

lemma grun_run [simp, prog_simps]: "grun m w = (Ret (fst (m w)), snd (m w))"
  by (simp add: grun_def split: prod.splits)

lemma gret_run [simp, prog_simps]: "gret a w = (Ret a, w)"
  by (simp add: gret_def)

lemma gpanic_run [simp, prog_simps]: "gpanic msg w = (Panic msg, w)"
  by (simp add: gpanic_def)

lemma glift_run [simp, prog_simps]: "glift r w = (r, w)"
  by (simp add: glift_def)

lemma gbind_Ret [simp, prog_simps]: "m w = (Ret a, w') \<Longrightarrow> gbind m f w = f a w'"
  by (simp add: gbind_def)

lemma gbind_Panic [simp, prog_simps]: "m w = (Panic msg, w') \<Longrightarrow> gbind m f w = (Panic msg, w')"
  by (simp add: gbind_def)

lemma gbind_gret [simp]: "gbind (gret a) f = f a"
  by (simp add: gbind_def gret_def)

lemma gbind_glift_Ret [simp]: "gbind (glift (Ret a)) f = f a"
  by (simp add: gbind_def glift_def)

lemma gbind_cases:
  assumes "gbind m f w = (r, w')"
  obtains (ret) a w1 where "m w = (Ret a, w1)" and "f a w1 = (r, w')"
    | (panic) msg where "m w = (Panic msg, w')" and "r = Panic msg"
  using assms by (auto simp: gbind_def split: prod.splits go.splits)

lemma gbind_Ret_iff:
  "gbind m f w = (Ret b, w') \<longleftrightarrow> (\<exists>a w1. m w = (Ret a, w1) \<and> f a w1 = (Ret b, w'))"
  by (auto simp: gbind_def split: prod.splits go.splits)

section \<open>Programs that never panic\<close>

definition safe :: "('w, 'a) prog \<Rightarrow> ('a \<Rightarrow> bool) \<Rightarrow> bool" where
  "safe m Q \<longleftrightarrow> (\<forall>w. \<exists>a w'. m w = (Ret a, w') \<and> Q a)"

lemma safeI: "(\<And>w. \<exists>a w'. m w = (Ret a, w') \<and> Q a) \<Longrightarrow> safe m Q"
  by (simp add: safe_def)

lemma safeE:
  assumes "safe m Q"
  obtains a w' where "m w = (Ret a, w')" and "Q a"
  using assms unfolding safe_def by blast

lemma safe_gret [safe_intros]: "Q a \<Longrightarrow> safe (gret a) Q"
  by (simp add: safe_def)

lemma safe_grun [safe_intros]: "(\<And>w. Q (fst (m w))) \<Longrightarrow> safe (grun m) Q"
  by (simp add: safe_def)

lemma safe_Pair [simp]: "safe (Pair (Ret a)) Q = Q a"
  by (simp add: safe_def)

lemma safe_gbind [safe_intros]:
  "safe m P \<Longrightarrow> (\<And>a. P a \<Longrightarrow> safe (f a) Q) \<Longrightarrow> safe (gbind m f) Q"
  unfolding safe_def by (metis gbind_Ret)

lemma safe_mono: "safe m P \<Longrightarrow> (\<And>a. P a \<Longrightarrow> Q a) \<Longrightarrow> safe m Q"
  unfolding safe_def by blast

lemma safe_True: "safe m P \<Longrightarrow> safe m (\<lambda>_. True)"
  by (rule safe_mono) simp_all

lemma safe_if [safe_intros]: "(b \<Longrightarrow> safe m Q) \<Longrightarrow> (\<not> b \<Longrightarrow> safe n Q) \<Longrightarrow> safe (if b then m else n) Q"
  by simp

lemma safe_sum [safe_intros]:
  "(\<And>e. r = Inl e \<Longrightarrow> safe (f e) Q) \<Longrightarrow> (\<And>a. r = Inr a \<Longrightarrow> safe (g a) Q) \<Longrightarrow>
   safe (case r of Inl e \<Rightarrow> f e | Inr a \<Rightarrow> g a) Q"
  by (cases r) simp_all

lemma safe_option [safe_intros]:
  "(r = None \<Longrightarrow> safe m Q) \<Longrightarrow> (\<And>a. r = Some a \<Longrightarrow> safe (g a) Q) \<Longrightarrow>
   safe (case r of None \<Rightarrow> m | Some a \<Rightarrow> g a) Q"
  by (cases r) simp_all

lemma safe_prod [safe_intros]:
  "(\<And>a b. p = (a, b) \<Longrightarrow> safe (f a b) Q) \<Longrightarrow> safe (case p of (a, b) \<Rightarrow> f a b) Q"
  by (cases p) simp

section \<open>Bounds on a counter of the world\<close>

definition cost :: "('w \<Rightarrow> nat) \<Rightarrow> nat \<Rightarrow> ('w, 'a) prog \<Rightarrow> bool" where
  "cost f k m \<longleftrightarrow> (\<forall>w. f (snd (m w)) \<le> f w + k)"

lemma costD: "cost f k m \<Longrightarrow> m w = (r, w') \<Longrightarrow> f w' \<le> f w + k"
  unfolding cost_def by (metis snd_conv)

lemma cost_gret [cost_intros]: "cost f k (gret a)"
  by (simp add: cost_def)

lemma cost_Pair [simp, cost_intros]: "cost f k (Pair r)"
  by (simp add: cost_def)

lemma cost_glift [cost_intros]: "cost f k (glift r)"
  by (simp add: cost_def)

lemma cost_gpanic [cost_intros]: "cost f k (gpanic msg)"
  by (simp add: cost_def)

lemma cost_grun: "(\<And>w. f (snd (m w)) \<le> f w + k) \<Longrightarrow> cost f k (grun m)"
  by (simp add: cost_def)

lemma cost_mono: "cost f j m \<Longrightarrow> j \<le> k \<Longrightarrow> cost f k m"
  unfolding cost_def by (meson add_left_mono order_trans)

lemma cost_gbind:
  assumes "cost f j m" and "\<And>a. cost f k (g a)"
  shows "cost f (j + k) (gbind m g)"
  unfolding cost_def
proof
  fix w
  obtain r w1 where r: "m w = (r, w1)" by (cases "m w")
  with assms(1) have 1: "f w1 \<le> f w + j" by (rule costD)
  show "f (snd (gbind m g w)) \<le> f w + (j + k)"
  proof (cases r)
    case (Ret a)
    have "f (snd (g a w1)) \<le> f w1 + k"
      using assms(2) [of a] by (simp add: cost_def)
    with 1 r Ret show ?thesis by simp
  next
    case (Panic msg)
    with 1 r show ?thesis by simp
  qed
qed

lemma cost_gbind_le:
  "cost f j m \<Longrightarrow> (\<And>a. cost f k (g a)) \<Longrightarrow> j + k \<le> n \<Longrightarrow> cost f n (gbind m g)"
  by (rule cost_mono [OF cost_gbind])

lemma cost_if [cost_intros]: "cost f k m \<Longrightarrow> cost f k n \<Longrightarrow> cost f k (if b then m else n)"
  by simp

lemma cost_sum [cost_intros]:
  "(\<And>e. cost f k (g e)) \<Longrightarrow> (\<And>a. cost f k (h a)) \<Longrightarrow> cost f k (case r of Inl e \<Rightarrow> g e | Inr a \<Rightarrow> h a)"
  by (cases r) simp_all

lemma cost_option [cost_intros]:
  "cost f k m \<Longrightarrow> (\<And>a. cost f k (h a)) \<Longrightarrow> cost f k (case r of None \<Rightarrow> m | Some a \<Rightarrow> h a)"
  by (cases r) simp_all

lemma cost_prod [cost_intros]:
  "(\<And>a b. cost f k (g a b)) \<Longrightarrow> cost f k (case p of (a, b) \<Rightarrow> g a b)"
  by (cases p) simp

section \<open>Lists and maps\<close>

text \<open>An update in the middle of a fold over a list whose keys are distinct is found again.\<close>

lemma filter_False_conv': "(\<And>x. x \<in> set xs \<Longrightarrow> \<not> P x) \<Longrightarrow> filter P xs = []"
  by (induction xs) auto

lemma takeWhile_all: "(\<And>x. x \<in> set xs \<Longrightarrow> P x) \<Longrightarrow> takeWhile P xs = xs"
  by (induction xs) auto

lemma length_filter_less_mem: "x \<in> set xs \<Longrightarrow> \<not> P x \<Longrightarrow> length (filter P xs) < length xs"
  by (rule length_filter_less)

lemma distinct_map_filter_fst: "distinct (map fst xs) \<Longrightarrow> distinct (map fst (filter P xs))"
  by (rule distinct_map_filter)

lemma map_of_filter_neq [simp]:
  "map_of (filter (\<lambda>p. fst p \<noteq> k) xs) k' = (if k' = k then None else map_of xs k')"
  by (induction xs) auto

lemma filter_neq_id: "k \<notin> fst ` set xs \<Longrightarrow> filter (\<lambda>p. fst p \<noteq> k) xs = xs"
  by (induction xs) auto

lemma length_filter_neq:
  "distinct (map fst xs) \<Longrightarrow> k \<in> fst ` set xs \<Longrightarrow>
   Suc (length (filter (\<lambda>p. fst p \<noteq> k) xs)) = length xs"
  by (induction xs) (auto simp: filter_neq_id)

end
