(* ===== verification/Go_Strings.thy ===== *)
theory Go_Strings
  imports Prelude
begin

text \<open>
  The functions of Go's \<open>strings\<close>, \<open>strconv\<close> and \<open>fmt\<close> packages that the gateway uses, on strings as
  byte lists. A Go string is a byte sequence and a HOL \<open>char\<close> is a byte, so lengths, slices and
  searches agree byte for byte. Case mapping and white space are those of ASCII: a byte of 128 or
  more has no case and is not a space, which is exact on ASCII text.
  \<open>Index\<close> and \<open>LastIndex\<close> return \<open>None\<close> where Go returns -1.
\<close>

section \<open>Bytes\<close>

definition is_space :: "char \<Rightarrow> bool" where
  "is_space c \<longleftrightarrow> c = CHR '' '' \<or> (9 \<le> (of_char c :: nat) \<and> (of_char c :: nat) \<le> 13)"

definition is_upper :: "char \<Rightarrow> bool" where
  "is_upper c \<longleftrightarrow> 65 \<le> (of_char c :: nat) \<and> (of_char c :: nat) \<le> 90"

definition is_lower :: "char \<Rightarrow> bool" where
  "is_lower c \<longleftrightarrow> 97 \<le> (of_char c :: nat) \<and> (of_char c :: nat) \<le> 122"

definition is_digit :: "char \<Rightarrow> bool" where
  "is_digit c \<longleftrightarrow> 48 \<le> (of_char c :: nat) \<and> (of_char c :: nat) \<le> 57"

definition lower_char :: "char \<Rightarrow> char" where
  "lower_char c = (if is_upper c then char_of ((of_char c :: nat) + 32) else c)"

definition upper_char :: "char \<Rightarrow> char" where
  "upper_char c = (if is_lower c then char_of ((of_char c :: nat) - 32) else c)"

definition to_lower :: "string \<Rightarrow> string" where
  "to_lower s = map lower_char s"

definition to_upper :: "string \<Rightarrow> string" where
  "to_upper s = map upper_char s"

definition ascii :: "string \<Rightarrow> bool" where
  "ascii s \<longleftrightarrow> (\<forall>c \<in> set s. (of_char c :: nat) < 128)"

lemma lower_char_idem [simp]: "lower_char (lower_char c) = lower_char c"
proof (cases "is_upper c")
  case True
  then have "(of_char (lower_char c) :: nat) = of_char c + 32"
    by (simp add: lower_char_def is_upper_def of_char_of take_bit_eq_mod)
  with True have "\<not> is_upper (lower_char c)"
    by (simp add: is_upper_def)
  then show ?thesis by (simp add: lower_char_def [of "lower_char c"])
next
  case False
  then show ?thesis by (simp add: lower_char_def)
qed

lemma to_lower_idem [simp]: "to_lower (to_lower s) = to_lower s"
  by (simp add: to_lower_def)

lemma to_lower_simps [simp]:
  "to_lower [] = []" "to_lower (c # s) = lower_char c # to_lower s"
  "to_lower (s @ t) = to_lower s @ to_lower t"
  by (simp_all add: to_lower_def)

lemma length_to_lower [simp]: "length (to_lower s) = length s"
  by (simp add: to_lower_def)

lemma length_to_upper [simp]: "length (to_upper s) = length s"
  by (simp add: to_upper_def)

section \<open>Prefixes and searches\<close>

fun has_prefix :: "string \<Rightarrow> string \<Rightarrow> bool" where
  "has_prefix s [] = True"
| "has_prefix [] (p # ps) = False"
| "has_prefix (c # s) (p # ps) = (c = p \<and> has_prefix s ps)"

definition has_suffix :: "string \<Rightarrow> string \<Rightarrow> bool" where
  "has_suffix s suf = has_prefix (rev s) (rev suf)"

fun index_of :: "string \<Rightarrow> string \<Rightarrow> nat option" where
  "index_of [] sub = (if sub = [] then Some 0 else None)"
| "index_of (c # s) sub =
     (if has_prefix (c # s) sub then Some 0 else map_option Suc (index_of s sub))"

definition last_index_of :: "string \<Rightarrow> string \<Rightarrow> nat option" where
  "last_index_of s sub =
     map_option (\<lambda>i. length s - length sub - i) (index_of (rev s) (rev sub))"

fun contains :: "string \<Rightarrow> string \<Rightarrow> bool" where
  "contains [] sub = (sub = [])"
| "contains (c # s) sub = (has_prefix (c # s) sub \<or> contains s sub)"

text \<open>The number of non-overlapping occurrences of one byte, \<open>strings.Count(s, ".")\<close>.\<close>

definition count_char :: "char \<Rightarrow> string \<Rightarrow> nat" where
  "count_char c s = length (filter (\<lambda>x. x = c) s)"

lemma has_prefix_iff: "has_prefix s p \<longleftrightarrow> (\<exists>t. s = p @ t)"
  by (induction s p rule: has_prefix.induct) auto

lemma has_prefix_append [simp]: "has_prefix (p @ t) p"
  by (auto simp: has_prefix_iff)

lemma has_prefix_self [simp]: "has_prefix p p"
  by (auto simp: has_prefix_iff)

lemma has_prefix_length: "has_prefix s p \<Longrightarrow> length p \<le> length s"
  by (auto simp: has_prefix_iff)

lemma has_suffix_iff: "has_suffix s suf \<longleftrightarrow> (\<exists>t. s = t @ suf)"
  unfolding has_suffix_def has_prefix_iff
  by (metis rev_append rev_rev_ident)

lemma contains_iff: "contains s sub \<longleftrightarrow> (\<exists>a b. s = a @ sub @ b)"
proof (induction s)
  case Nil
  then show ?case by simp
next
  case (Cons c s)
  have "(\<exists>a b. c # s = a @ sub @ b) \<longleftrightarrow> (\<exists>b. c # s = sub @ b) \<or> (\<exists>a b. s = a @ sub @ b)"
    by (metis append_Cons append_Nil neq_Nil_conv list.inject)
  with Cons show ?case by (auto simp: has_prefix_iff)
qed

lemma contains_index: "contains s sub \<longleftrightarrow> index_of s sub \<noteq> None"
  by (induction s) auto

lemma contains_appendI1: "contains s sub \<Longrightarrow> contains (s @ t) sub"
  unfolding contains_iff by (metis append.assoc)

lemma contains_appendI2: "contains t sub \<Longrightarrow> contains (s @ t) sub"
  unfolding contains_iff by (metis append.assoc)

lemma contains_middle [simp]: "contains (a @ sub @ b) sub"
  by (auto simp: contains_iff)

lemma index_of_SomeD:
  "index_of s sub = Some i \<Longrightarrow> i + length sub \<le> length s \<and> s = take i s @ sub @ drop (i + length sub) s"
proof (induction s arbitrary: i)
  case Nil
  then show ?case by (simp split: if_splits)
next
  case (Cons c s)
  show ?case
  proof (cases "has_prefix (c # s) sub")
    case True
    with Cons.prems obtain t where "c # s = sub @ t" and "i = 0" by (auto simp: has_prefix_iff)
    then show ?thesis by (metis add_0 append_eq_conv_conj le_add1 length_append self_append_conv2 take0)
  next
    case False
    with Cons.prems obtain j where j: "index_of s sub = Some j" and i: "i = Suc j" by auto
    from Cons.IH [OF j] i show ?thesis by auto
  qed
qed

lemma index_of_least: "index_of s sub = Some i \<Longrightarrow> j < i \<Longrightarrow> \<not> has_prefix (drop j s) sub"
proof (induction s arbitrary: i j)
  case Nil
  then show ?case by (simp split: if_splits)
next
  case (Cons c s)
  then show ?case
    by (cases j) (auto split: if_splits)
qed

lemma last_index_of_bound: "last_index_of s sub = Some i \<Longrightarrow> i + length sub \<le> length s"
  unfolding last_index_of_def using index_of_SomeD by fastforce

section \<open>Splitting, joining, trimming\<close>

fun split_by :: "(char \<Rightarrow> bool) \<Rightarrow> string \<Rightarrow> string list" where
  "split_by p [] = [[]]"
| "split_by p (c # s) =
     (if p c then [] # split_by p s
      else case split_by p s of [] \<Rightarrow> [[c]] | w # ws \<Rightarrow> (c # w) # ws)"

definition split_on :: "char \<Rightarrow> string \<Rightarrow> string list" where
  "split_on c s = split_by (\<lambda>x. x = c) s"

text \<open>\<open>strings.SplitN(s, sep, 2)\<close> for a one-byte separator.\<close>

definition split_n2 :: "char \<Rightarrow> string \<Rightarrow> string list" where
  "split_n2 c s = (case index_of s [c] of None \<Rightarrow> [s] | Some i \<Rightarrow> [take i s, drop (Suc i) s])"

definition fields :: "string \<Rightarrow> string list" where
  "fields s = filter (\<lambda>w. w \<noteq> []) (split_by is_space s)"

fun join :: "string \<Rightarrow> string list \<Rightarrow> string" where
  "join sep [] = []"
| "join sep [x] = x"
| "join sep (x # y # ys) = x @ sep @ join sep (y # ys)"

definition trim_left :: "string \<Rightarrow> string" where
  "trim_left s = dropWhile is_space s"

definition trim_space :: "string \<Rightarrow> string" where
  "trim_space s = rev (trim_left (rev (trim_left s)))"

text \<open>\<open>strings.ReplaceAll\<close> for a non-empty \<open>old\<close>.\<close>

function replace_all :: "string \<Rightarrow> string \<Rightarrow> string \<Rightarrow> string" where
  "replace_all [] old new = []"
| "replace_all (c # s) old new =
     (if old \<noteq> [] \<and> has_prefix (c # s) old then new @ replace_all (drop (length old) (c # s)) old new
      else c # replace_all s old new)"
  by pat_completeness auto
termination
  by (relation "measure (\<lambda>(s, _, _). length s)") (auto dest: has_prefix_length)

declare replace_all.simps(2) [simp del]

lemma split_by_not_Nil [simp]: "split_by p s \<noteq> []"
  by (induction s) (auto split: list.splits)

lemma split_by_Cons: "\<exists>w ws. split_by p s = w # ws"
  by (meson neq_Nil_conv split_by_not_Nil)

lemma split_on_not_Nil [simp]: "split_on c s \<noteq> []"
  by (simp add: split_on_def)

lemma join_Cons: "join sep (x # xs) = (if xs = [] then x else x @ sep @ join sep xs)"
  by (cases xs) simp_all

lemma join_split_on: "join [c] (split_on c s) = s"
proof (induction s)
  case Nil
  then show ?case by (simp add: split_on_def)
next
  case (Cons x s)
  obtain w ws where "split_by (\<lambda>x. x = c) s = w # ws"
    using split_by_Cons by blast
  with Cons show ?case
    by (auto simp: split_on_def join_Cons)
qed

lemma split_by_parts: "w \<in> set (split_by p s) \<Longrightarrow> x \<in> set w \<Longrightarrow> \<not> p x"
proof (induction s arbitrary: w)
  case Nil
  then show ?case by simp
next
  case (Cons c s)
  obtain v vs where v: "split_by p s = v # vs"
    using split_by_Cons by blast
  from Cons.prems v have "w = [] \<or> w \<in> set (v # vs) \<or> w = c # v \<and> \<not> p c"
    by (auto split: if_splits)
  with Cons.IH v Cons.prems(2) show ?case by (metis empty_iff empty_set list.set_intros(1) set_ConsD)
qed

lemma fields_nonempty: "w \<in> set (fields s) \<Longrightarrow> w \<noteq> []"
  by (simp add: fields_def)

lemma fields_no_space: "w \<in> set (fields s) \<Longrightarrow> x \<in> set w \<Longrightarrow> \<not> is_space x"
  by (auto simp: fields_def dest: split_by_parts)

lemma split_by_append:
  "split_by p (s @ c # t) = split_by p s @ split_by p t" if "p c"
proof (induction s)
  case Nil
  then show ?case using that by simp
next
  case (Cons x s)
  obtain w ws where "split_by p s = w # ws"
    using split_by_Cons by blast
  with Cons show ?case by auto
qed

lemma split_by_none: "(\<And>x. x \<in> set s \<Longrightarrow> \<not> p x) \<Longrightarrow> split_by p s = [s]"
  by (induction s) auto

lemma is_space_blank [simp]: "is_space CHR '' ''"
  by (simp add: is_space_def)

text \<open>Splitting text that was joined from words by single blanks gives the words back.\<close>

lemma fields_join:
  "(\<And>w. w \<in> set ws \<Longrightarrow> w \<noteq> [] \<and> (\<forall>x \<in> set w. \<not> is_space x)) \<Longrightarrow> fields (join '' '' ws) = ws"
proof (induction ws rule: induct_list012)
  case 1
  show ?case by (simp add: fields_def)
next
  case (2 w)
  then have "split_by is_space w = [w]" by (intro split_by_none) auto
  with 2 show ?case by (simp add: fields_def)
next
  case (3 w v ws)
  then have "split_by is_space w = [w]" by (intro split_by_none) auto
  moreover have "fields (join '' '' (v # ws)) = v # ws"
    by (rule 3(2)) (metis 3(3) list.set_intros(2))
  moreover have "w \<noteq> []" using 3 by simp
  ultimately show ?case
    by (simp add: fields_def split_by_append)
qed

lemma trim_left_subset: "set (trim_left s) \<subseteq> set s"
  by (auto simp: trim_left_def dest: set_dropWhileD)

lemma set_trim_space: "set (trim_space s) \<subseteq> set s"
  unfolding trim_space_def by (metis set_rev subset_trans trim_left_subset)

lemma length_trim_left: "length (trim_left s) \<le> length s"
  by (simp add: trim_left_def length_dropWhile_le)

lemma length_trim_space: "length (trim_space s) \<le> length s"
  unfolding trim_space_def by (metis length_rev length_trim_left order_trans)

lemma trim_space_id:
  "s = [] \<or> \<not> is_space (hd s) \<and> \<not> is_space (last s) \<Longrightarrow> trim_space s = s"
  by (metis dropWhile_eq_self_iff hd_rev rev_is_Nil_conv rev_rev_ident trim_left_def trim_space_def)

subsection \<open>The words of a text\<close>

lemma fields_space: "is_space c \<Longrightarrow> fields (u @ c # v) = fields u @ fields v"
  by (simp add: fields_def split_by_append)

lemma fields_spaces_only: "(\<forall>c \<in> set w. is_space c) \<Longrightarrow> fields w = []"
  by (induction w) (simp_all add: fields_def)

lemma fields_gap:
  assumes "w \<noteq> []" and "\<forall>c \<in> set w. is_space c"
  shows "fields (u @ w @ v) = fields u @ fields v"
proof -
  obtain c w' where w: "w = c # w'" using assms(1) by (cases w) auto
  have "fields (w' @ v) = fields v"
  proof (cases w' rule: rev_cases)
    case (snoc ys y)
    with assms(2) w show ?thesis using fields_space [of y ys v] fields_spaces_only [of ys] by simp
  qed simp
  with assms(2) w show ?thesis by (simp add: fields_space)
qed

lemma fields_dropWhile: "fields (dropWhile is_space s) = fields s"
  by (induction s) (use fields_space [of _ "[]"] in \<open>auto simp: fields_def\<close>)

lemma fields_trailing: "fields (rev (dropWhile is_space (rev s))) = fields s"
proof (induction s rule: rev_induct)
  case (snoc c s)
  then show ?case using fields_space [of c s "[]"] by (simp add: fields_def [of "[]"])
qed simp

lemma fields_trim_space [simp]: "fields (trim_space s) = fields s"
  by (simp add: trim_space_def trim_left_def fields_trailing fields_dropWhile)

lemma is_space_newline [simp]: "is_space CHR 0x0A"
  by (simp add: is_space_def)

lemma fields_lines: "concat (map fields (split_on CHR 0x0A s)) = fields s"
proof -
  have "concat (map fields ls) = fields (join ''\<newline>'' ls)" for ls
  proof (induction ls)
    case (Cons l ls)
    then show ?case by (cases ls) (simp_all add: fields_space)
  qed (simp add: fields_def)
  then show ?thesis using join_split_on [of "CHR 0x0A" s] by simp
qed

lemma fields_join_lines: "fields (join ''\<newline>'' ls) = concat (map fields ls)"
proof (induction ls)
  case (Cons l ls)
  then show ?case by (cases ls) (simp_all add: fields_space)
qed (simp add: fields_def)

section \<open>Numbers as text\<close>

definition digit_char :: "nat \<Rightarrow> char" where
  "digit_char d = char_of (48 + d)"

fun dec_of_nat :: "nat \<Rightarrow> string" where
  "dec_of_nat n = (if n < 10 then [digit_char n] else dec_of_nat (n div 10) @ [digit_char (n mod 10)])"

declare dec_of_nat.simps [simp del]

definition dec_of_int :: "int \<Rightarrow> string" where
  "dec_of_int i = (if i < 0 then CHR ''-'' # dec_of_nat (nat (- i)) else dec_of_nat (nat i))"

definition digit_val :: "char \<Rightarrow> nat" where
  "digit_val c = of_char c - 48"

definition nat_of_dec :: "string \<Rightarrow> nat" where
  "nat_of_dec s = foldl (\<lambda>n c. 10 * n + digit_val c) 0 s"

definition hex_char :: "nat \<Rightarrow> char" where
  "hex_char d = (if d < 10 then char_of (48 + d) else char_of (87 + d))"

fun hex_pad :: "nat \<Rightarrow> nat \<Rightarrow> string" where
  "hex_pad 0 n = []"
| "hex_pad (Suc k) n = hex_pad k (n div 16) @ [hex_char (n mod 16)]"

text \<open>The UTF-8 bytes of an em dash, which some messages of the program contain.\<close>

definition em_dash :: string where
  "em_dash = [CHR 0xE2, CHR 0x80, CHR 0x94]"

text \<open>The \<open>%q\<close> form of a string of ASCII bytes.\<close>

definition quote_char :: "char \<Rightarrow> string" where
  "quote_char c =
     (if c = CHR 0x22 then [CHR 0x5C, CHR 0x22]
      else if c = CHR 0x5C then [CHR 0x5C, CHR 0x5C]
      else if c = CHR 0x07 then [CHR 0x5C, CHR ''a'']
      else if c = CHR 0x08 then [CHR 0x5C, CHR ''b'']
      else if c = CHR 0x0C then [CHR 0x5C, CHR ''f'']
      else if c = CHR 0x0A then [CHR 0x5C, CHR ''n'']
      else if c = CHR 0x0D then [CHR 0x5C, CHR ''r'']
      else if c = CHR 0x09 then [CHR 0x5C, CHR ''t'']
      else if c = CHR 0x0B then [CHR 0x5C, CHR ''v'']
      else if (of_char c :: nat) < 32 \<or> (of_char c :: nat) = 127
        then [CHR 0x5C, CHR ''x''] @ hex_pad 2 (of_char c)
      else [c])"

definition go_quote :: "string \<Rightarrow> string" where
  "go_quote s = CHR 0x22 # concat (map quote_char s) @ [CHR 0x22]"

text \<open>
  \<open>bufio.Scanner\<close> over a whole stream: the lines without their end (\<open>\r\<close> included), up to the first
  line whose bytes do not fit the scanner's buffer of 64 KiB, at which it stops.
\<close>

definition drop_cr :: "string \<Rightarrow> string" where
  "drop_cr l = (if l \<noteq> [] \<and> last l = CHR 0x0D then butlast l else l)"

definition scan_lines :: "string \<Rightarrow> string list" where
  "scan_lines s =
     (let ls = split_on (CHR 0x0A) s; ls1 = (if last ls = [] then butlast ls else ls)
      in map drop_cr (takeWhile (\<lambda>l. length l < 65536) ls1))"

lemma of_char_digit: "d < 10 \<Longrightarrow> (of_char (digit_char d) :: nat) = 48 + d"
  by (simp add: digit_char_def of_char_of take_bit_eq_mod)

lemma digit_val_digit [simp]: "d < 10 \<Longrightarrow> digit_val (digit_char d) = d"
  by (simp add: digit_val_def of_char_digit)

lemma is_digit_digit [simp]: "d < 10 \<Longrightarrow> is_digit (digit_char d)"
  by (simp add: is_digit_def of_char_digit)

lemma dec_of_nat_not_Nil [simp]: "dec_of_nat n \<noteq> []"
  by (subst dec_of_nat.simps) simp

lemma dec_of_nat_digits: "c \<in> set (dec_of_nat n) \<Longrightarrow> is_digit c"
proof (induction n rule: dec_of_nat.induct)
  case (1 n)
  show ?case
  proof (cases "n < 10")
    case True
    with 1(2) show ?thesis by (simp add: dec_of_nat.simps [of n])
  next
    case False
    then have "c \<in> set (dec_of_nat (n div 10)) \<or> c = digit_char (n mod 10)"
      using 1(2) by (subst (asm) dec_of_nat.simps) auto
    with 1(1) False show ?thesis by auto
  qed
qed

lemma nat_of_dec_of_nat [simp]: "nat_of_dec (dec_of_nat n) = n"
proof (induction n rule: dec_of_nat.induct)
  case (1 n)
  show ?case
  proof (cases "n < 10")
    case True
    then show ?thesis by (simp add: dec_of_nat.simps [of n] nat_of_dec_def)
  next
    case False
    then have "nat_of_dec (dec_of_nat (n div 10)) = n div 10" using 1 by simp
    with False show ?thesis
      by (subst dec_of_nat.simps) (simp add: nat_of_dec_def)
  qed
qed

lemma dec_of_nat_inject [simp]: "dec_of_nat m = dec_of_nat n \<longleftrightarrow> m = n"
  by (metis nat_of_dec_of_nat)

lemma dec_of_int_inject [simp]: "dec_of_int i = dec_of_int j \<longleftrightarrow> i = j"
proof
  have neg: "CHR ''-'' # s \<noteq> dec_of_nat n" for s n
  proof
    assume "CHR ''-'' # s = dec_of_nat n"
    then have "CHR ''-'' \<in> set (dec_of_nat n)" by (metis list.set_intros(1))
    then show False using dec_of_nat_digits by (fastforce simp: is_digit_def)
  qed
  assume "dec_of_int i = dec_of_int j"
  then show "i = j"
    using neg [of "dec_of_nat (nat (- i))" "nat j"] neg [of "dec_of_nat (nat (- j))" "nat i"]
    by (auto simp: dec_of_int_def split: if_splits)
qed simp

end
