(* ===== verification/Go_JSON.thy ===== *)
theory Go_JSON
  imports Go_Strings
begin

text \<open>
  The part of Go's \<open>encoding/json\<close> the gateway uses: a value type, the parser behind \<open>json.Unmarshal\<close>
  and \<open>Decoder.Decode\<close>, the printer behind \<open>json.Marshal\<close>, and the decoding of an object into
  struct fields. A number is kept as its literal. Object members keep the document's order and
  duplicates; a lookup in a decoded Go map takes the last one, as Go does.

  Bounds of the model: input is taken to be valid UTF-8, and the nesting limit of 10000 levels is
  not modelled. The texts of library errors are abbreviated.
\<close>

datatype json = JNull | JBool bool | JNum string | JStr string
  | JArr "json list" | JObj "(string \<times> json) list"

section \<open>Strings\<close>

definition utf8 :: "nat \<Rightarrow> string" where
  "utf8 n =
     (if n < 128 then [char_of n]
      else if n < 2048 then [char_of (192 + n div 64), char_of (128 + n mod 64)]
      else if n < 65536 then
        [char_of (224 + n div 4096), char_of (128 + n div 64 mod 64), char_of (128 + n mod 64)]
      else [char_of (240 + n div 262144), char_of (128 + n div 4096 mod 64),
            char_of (128 + n div 64 mod 64), char_of (128 + n mod 64)])"

definition hex_val :: "char \<Rightarrow> nat option" where
  "hex_val c =
     (let n = of_char c :: nat
      in if 48 \<le> n \<and> n \<le> 57 then Some (n - 48)
         else if 97 \<le> n \<and> n \<le> 102 then Some (n - 87)
         else if 65 \<le> n \<and> n \<le> 70 then Some (n - 55) else None)"

fun hex4 :: "string \<Rightarrow> (nat \<times> string) option" where
  "hex4 (a # b # c # d # s) =
     (case (hex_val a, hex_val b, hex_val c, hex_val d) of
        (Some w, Some x, Some y, Some z) \<Rightarrow> Some (4096 * w + 256 * x + 16 * y + z, s)
      | _ \<Rightarrow> None)"
| "hex4 _ = None"

definition short_escape :: "char \<Rightarrow> char option" where
  "short_escape c =
     map_of [(CHR 0x22, CHR 0x22), (CHR 0x5C, CHR 0x5C), (CHR ''/'', CHR ''/''), (CHR ''b'', CHR 0x08),
             (CHR ''f'', CHR 0x0C), (CHR ''n'', CHR 0x0A), (CHR ''r'', CHR 0x0D), (CHR ''t'', CHR 0x09)] c"

text \<open>
  The escape sequence after a backslash: its bytes and the rest. A surrogate pair is one code point;
  a lone surrogate is U+FFFD.
\<close>

definition low_surrogate :: "string \<Rightarrow> (nat \<times> string) option" where
  "low_surrogate s =
     (case s of b # u # s' \<Rightarrow>
        if b = CHR 0x5C \<and> u = CHR ''u'' then
          (case hex4 s' of Some (n, r) \<Rightarrow> if 56320 \<le> n \<and> n < 57344 then Some (n, r) else None
           | None \<Rightarrow> None)
        else None
      | _ \<Rightarrow> None)"

definition escape :: "string \<Rightarrow> (string \<times> string) option" where
  "escape s =
     (case s of [] \<Rightarrow> None
      | e # s1 \<Rightarrow>
        (case short_escape e of Some c \<Rightarrow> Some ([c], s1)
         | None \<Rightarrow>
           if e = CHR ''u'' then
             (case hex4 s1 of None \<Rightarrow> None
              | Some (n, s2) \<Rightarrow>
                if 55296 \<le> n \<and> n < 56320 then
                  (case low_surrogate s2 of
                     Some (m, s3) \<Rightarrow> Some (utf8 (65536 + (n - 55296) * 1024 + (m - 56320)), s3)
                   | None \<Rightarrow> Some (utf8 65533, s2))
                else if 56320 \<le> n \<and> n < 57344 then Some (utf8 65533, s2)
                else Some (utf8 n, s2))
           else None))"

lemma hex4_length: "hex4 s = Some (n, r) \<Longrightarrow> length r < length s"
  by (induction s rule: hex4.induct) (auto split: option.splits)

lemma low_surrogate_length: "low_surrogate s = Some (n, r) \<Longrightarrow> length r < length s"
  by (auto simp: low_surrogate_def split: list.splits if_splits option.splits dest: hex4_length)

lemma escape_length: "escape s = Some (x, r) \<Longrightarrow> length r < length s"
  by (auto simp: escape_def split: list.splits if_splits option.splits dest!: hex4_length low_surrogate_length)

text \<open>The characters of a string up to its closing quote.\<close>

function json_str :: "string \<Rightarrow> (string \<times> string) option" where
  "json_str s =
     (case s of [] \<Rightarrow> None
      | c # r \<Rightarrow>
        if c = CHR 0x22 then Some ([], r)
        else if c = CHR 0x5C then
          (case escape r of None \<Rightarrow> None
           | Some (x, r') \<Rightarrow> map_option (\<lambda>(y, z). (x @ y, z)) (json_str r'))
        else if (of_char c :: nat) < 32 then None
        else map_option (\<lambda>(y, z). (c # y, z)) (json_str r))"
  by pat_completeness auto
termination
  by (relation "measure length") (auto dest: escape_length)

declare json_str.simps [simp del]

section \<open>Numbers\<close>

definition digits1 :: "string \<Rightarrow> (string \<times> string) option" where
  "digits1 s = (case takeWhile is_digit s of [] \<Rightarrow> None | ds \<Rightarrow> Some (ds, dropWhile is_digit s))"

definition num_int :: "string \<Rightarrow> (string \<times> string) option" where
  "num_int s =
     (case s of [] \<Rightarrow> None
      | c # r \<Rightarrow> if c = CHR ''0'' then Some ([c], r) else if is_digit c then digits1 s else None)"

definition num_frac :: "string \<Rightarrow> (string \<times> string) option" where
  "num_frac s =
     (case s of c # r \<Rightarrow>
        if c = CHR ''.'' then map_option (\<lambda>(ds, t). (c # ds, t)) (digits1 r) else Some ([], s)
      | [] \<Rightarrow> Some ([], s))"

definition num_exp :: "string \<Rightarrow> (string \<times> string) option" where
  "num_exp s =
     (case s of c # r \<Rightarrow>
        if c = CHR ''e'' \<or> c = CHR ''E'' then
          (case r of d # r' \<Rightarrow>
             if d = CHR ''+'' \<or> d = CHR ''-'' then map_option (\<lambda>(ds, t). (c # d # ds, t)) (digits1 r')
             else map_option (\<lambda>(ds, t). (c # ds, t)) (digits1 r)
           | [] \<Rightarrow> None)
        else Some ([], s)
      | [] \<Rightarrow> Some ([], s))"

definition json_num :: "string \<Rightarrow> (string \<times> string) option" where
  "json_num s =
     (let (sign, s1) = (case s of c # r \<Rightarrow> if c = CHR ''-'' then ([c], r) else ([], s) | [] \<Rightarrow> ([], s))
      in case num_int s1 of None \<Rightarrow> None
         | Some (i, s2) \<Rightarrow>
           (case num_frac s2 of None \<Rightarrow> None
            | Some (f, s3) \<Rightarrow>
              (case num_exp s3 of None \<Rightarrow> None
               | Some (e, s4) \<Rightarrow> Some (sign @ i @ f @ e, s4))))"

section \<open>Values\<close>

definition is_ws :: "char \<Rightarrow> bool" where
  "is_ws c \<longleftrightarrow> c = CHR '' '' \<or> c = CHR 0x09 \<or> c = CHR 0x0A \<or> c = CHR 0x0D"

definition skip_ws :: "string \<Rightarrow> string" where
  "skip_ws s = dropWhile is_ws s"

fun json_value :: "nat \<Rightarrow> string \<Rightarrow> (json \<times> string) option"
  and json_elems :: "nat \<Rightarrow> string \<Rightarrow> (json list \<times> string) option"
  and json_members :: "nat \<Rightarrow> string \<Rightarrow> ((string \<times> json) list \<times> string) option" where
  "json_value 0 s = None"
| "json_value (Suc n) s =
     (case skip_ws s of [] \<Rightarrow> None
      | c # r \<Rightarrow>
        if c = CHR 0x7B then
          (case skip_ws r of [] \<Rightarrow> None
           | d # r' \<Rightarrow> if d = CHR 0x7D then Some (JObj [], r')
                     else map_option (\<lambda>(ms, t). (JObj ms, t)) (json_members n r))
        else if c = CHR 0x5B then
          (case skip_ws r of [] \<Rightarrow> None
           | d # r' \<Rightarrow> if d = CHR 0x5D then Some (JArr [], r')
                     else map_option (\<lambda>(vs, t). (JArr vs, t)) (json_elems n r))
        else if c = CHR 0x22 then map_option (\<lambda>(x, t). (JStr x, t)) (json_str r)
        else if has_prefix (c # r) ''true'' then Some (JBool True, drop 4 (c # r))
        else if has_prefix (c # r) ''false'' then Some (JBool False, drop 5 (c # r))
        else if has_prefix (c # r) ''null'' then Some (JNull, drop 4 (c # r))
        else map_option (\<lambda>(x, t). (JNum x, t)) (json_num (c # r)))"
| "json_elems 0 s = None"
| "json_elems (Suc n) s =
     (case json_value n s of None \<Rightarrow> None
      | Some (v, t) \<Rightarrow>
        (case skip_ws t of [] \<Rightarrow> None
         | c # r \<Rightarrow>
           if c = CHR 0x5D then Some ([v], r)
           else if c = CHR '','' then map_option (\<lambda>(vs, t'). (v # vs, t')) (json_elems n r)
           else None))"
| "json_members 0 s = None"
| "json_members (Suc n) s =
     (case skip_ws s of [] \<Rightarrow> None
      | q # s1 \<Rightarrow>
        if q \<noteq> CHR 0x22 then None
        else (case json_str s1 of None \<Rightarrow> None
          | Some (k, s2) \<Rightarrow>
            (case skip_ws s2 of [] \<Rightarrow> None
             | d # s3 \<Rightarrow>
               if d \<noteq> CHR '':'' then None
               else (case json_value n s3 of None \<Rightarrow> None
                 | Some (v, t) \<Rightarrow>
                   (case skip_ws t of [] \<Rightarrow> None
                    | c # r \<Rightarrow>
                      if c = CHR 0x7D then Some ([(k, v)], r)
                      else if c = CHR '','' then
                        map_option (\<lambda>(ms, t'). ((k, v) # ms, t')) (json_members n r)
                      else None)))))"

subsection \<open>A parser consumes what it reads\<close>

lemma json_str_length: "json_str s = Some (x, r) \<Longrightarrow> length r < length s"
proof (induction s arbitrary: x r rule: json_str.induct)
  case (1 s)
  show ?case
  proof (cases s)
    case Nil
    with 1(3) show ?thesis by (simp add: json_str.simps [of "[]"])
  next
    case (Cons c t)
    consider "c = CHR 0x22" | "c = CHR 0x5C" | "c \<noteq> CHR 0x22" "c \<noteq> CHR 0x5C" by blast
    then show ?thesis
    proof cases
      case 1
      with "1.prems" Cons have "r = t" by (subst (asm) json_str.simps) auto
      with Cons show ?thesis by simp
    next
      case 2
      with "1.prems" Cons obtain y t' z where "escape t = Some (y, t')" "json_str t' = Some (z, r)"
        by (subst (asm) json_str.simps) (auto split: option.splits)
      with 1(1) [OF Cons] 2 Cons escape_length show ?thesis by fastforce
    next
      case 3
      with "1.prems" Cons obtain z where "json_str t = Some (z, r)" "\<not> (of_char c :: nat) < 32"
        by (subst (asm) json_str.simps) (auto split: if_splits)
      with 1(2) [OF Cons] 3 Cons show ?thesis by fastforce
    qed
  qed
qed

lemma digits1_length: "digits1 s = Some (x, r) \<Longrightarrow> length r < length s"
  by (cases s) (auto simp: digits1_def length_dropWhile_le le_imp_less_Suc split: list.splits if_splits)

lemma num_int_length: "num_int s = Some (x, r) \<Longrightarrow> length r < length s"
  by (auto simp: num_int_def split: list.splits if_splits dest: digits1_length)

lemma num_frac_length: "num_frac s = Some (x, r) \<Longrightarrow> length r \<le> length s"
  by (auto simp: num_frac_def split: list.splits if_splits dest!: digits1_length)

lemma num_exp_length: "num_exp s = Some (x, r) \<Longrightarrow> length r \<le> length s"
  by (auto simp: num_exp_def split: list.splits if_splits dest!: digits1_length)

lemma json_num_length: "json_num s = Some (x, r) \<Longrightarrow> length r < length s"
  by (cases s)
    (auto simp: json_num_def split: if_splits option.splits
      dest!: num_int_length num_frac_length num_exp_length)

lemma skip_ws_length: "length (skip_ws s) \<le> length s"
  by (simp add: skip_ws_def length_dropWhile_le)

lemma skip_ws_rest: "skip_ws s = c # r \<Longrightarrow> length r < length s"
  by (metis Suc_le_eq length_Cons skip_ws_length)

lemma json_value_length:
  "json_value n s = Some (v, r) \<Longrightarrow> length r < length s"
  "json_elems n s = Some (vs, r) \<Longrightarrow> length r < length s"
  "json_members n s = Some (ms, r) \<Longrightarrow> length r < length s"
proof (induction n s and n s and n s arbitrary: v r and vs r and ms r
    rule: json_value_json_elems_json_members.induct)
  case (2 n s)
  obtain c t where s: "skip_ws s = c # t"
    using 2(3) by (cases "skip_ws s") auto
  have obj: "length r \<le> length t" if "json_members n t = Some (ms, r)" "c = CHR 0x7B" "skip_ws t = d # u" "d \<noteq> CHR 0x7D" for ms d u
    using 2(1) [OF s that(2,3,4,1)] by simp
  have arr: "length r \<le> length t" if "json_elems n t = Some (vs, r)" "c \<noteq> CHR 0x7B" "c = CHR 0x5B" "skip_ws t = d # u" "d \<noteq> CHR 0x5D" for vs d u
    using 2(2) [OF s that(2-5,1)] by simp
  from 2(3) s have "length r \<le> length t"
    by (auto split: list.splits if_splits intro: obj arr
        dest: json_str_length json_num_length less_imp_le [OF skip_ws_rest])
  with skip_ws_rest [OF s] show ?case by simp
next
  case (4 n s)
  then show ?case
    by (auto split: option.splits list.splits if_splits dest!: skip_ws_rest) fastforce+
next
  case (6 n s)
  then show ?case
    by (auto split: option.splits list.splits if_splits dest!: skip_ws_rest json_str_length) fastforce+
qed auto

text \<open>
  Each nested value takes at most two calls per byte it consumes, so this fuel is never used up
  before the text is.
\<close>

definition json_fuel :: "string \<Rightarrow> nat" where
  "json_fuel s = 2 * length s + 2"

text \<open>\<open>json.Unmarshal\<close> needs one value and nothing else; \<open>Decoder.Decode\<close> reads one from a stream.\<close>

definition json_parse :: "string \<Rightarrow> json option" where
  "json_parse s =
     (case json_value (json_fuel s) s of
        Some (v, r) \<Rightarrow> if skip_ws r = [] then Some v else None
      | None \<Rightarrow> None)"

definition json_decode :: "string \<Rightarrow> (json \<times> string) option" where
  "json_decode s = json_value (json_fuel s) s"

lemma json_decode_length: "json_decode s = Some (v, r) \<Longrightarrow> length r < length s"
  by (simp add: json_decode_def json_value_length)

section \<open>Printing\<close>

definition json_esc :: "char \<Rightarrow> string" where
  "json_esc c =
     (if c = CHR 0x22 then [CHR 0x5C, CHR 0x22]
      else if c = CHR 0x5C then [CHR 0x5C, CHR 0x5C]
      else if c = CHR 0x0A then [CHR 0x5C, CHR ''n'']
      else if c = CHR 0x0D then [CHR 0x5C, CHR ''r'']
      else if c = CHR 0x09 then [CHR 0x5C, CHR ''t'']
      else if c = CHR 0x08 then [CHR 0x5C, CHR ''b'']
      else if c = CHR 0x0C then [CHR 0x5C, CHR ''f'']
      else if (of_char c :: nat) < 32 \<or> c = CHR ''<'' \<or> c = CHR ''>'' \<or> c = CHR ''&''
        then [CHR 0x5C, CHR ''u''] @ hex_pad 4 (of_char c)
      else [c])"

definition json_quote :: "string \<Rightarrow> string" where
  "json_quote s = CHR 0x22 # concat (map json_esc s) @ [CHR 0x22]"

fun json_print :: "json \<Rightarrow> string" where
  "json_print JNull = ''null''"
| "json_print (JBool b) = (if b then ''true'' else ''false'')"
| "json_print (JNum x) = x"
| "json_print (JStr s) = json_quote s"
| "json_print (JArr vs) = CHR 0x5B # join '','' (map json_print vs) @ [CHR 0x5D]"
| "json_print (JObj ms) =
     CHR 0x7B # join '','' (map (\<lambda>(k, v). json_quote k @ '':'' @ json_print v) ms) @ [CHR 0x7D]"

abbreviation JInt :: "int \<Rightarrow> json" where
  "JInt i \<equiv> JNum (dec_of_int i)"

section \<open>Decoding into Go values\<close>

definition ErrJSONSyntax :: goerr where
  "ErrJSONSyntax = ''invalid JSON''"

definition ErrJSONType :: goerr where
  "ErrJSONType = ''json: cannot unmarshal value''"

text \<open>The key of a struct field is matched without regard to case.\<close>

definition jmatches :: "string \<Rightarrow> (string \<times> json) list \<Rightarrow> json list" where
  "jmatches k ms = map snd (filter (\<lambda>m. to_lower (fst m) = to_lower k) ms)"

fun jfold :: "(json \<Rightarrow> 'a result) \<Rightarrow> 'a \<Rightarrow> json list \<Rightarrow> 'a result" where
  "jfold f a [] = Inr a"
| "jfold f a (v # vs) =
     (if v = JNull then jfold f a vs
      else case f v of Inl e \<Rightarrow> Inl e | Inr b \<Rightarrow> jfold f b vs)"

text \<open>A null leaves the zero value it is decoded into.\<close>

definition as_str :: "json \<Rightarrow> string result" where
  "as_str v = (case v of JStr s \<Rightarrow> Inr s | JNull \<Rightarrow> Inr [] | _ \<Rightarrow> Inl ErrJSONType)"

definition as_bool :: "json \<Rightarrow> bool result" where
  "as_bool v = (case v of JBool b \<Rightarrow> Inr b | JNull \<Rightarrow> Inr False | _ \<Rightarrow> Inl ErrJSONType)"

text \<open>An \<open>int\<close> field takes a literal without fraction or exponent that fits 64 bits.\<close>

definition int_literal :: "string \<Rightarrow> int option" where
  "int_literal x =
     (let neg = has_prefix x ''-''; ds = (if neg then tl x else x);
          i = (if neg then - int (nat_of_dec ds) else int (nat_of_dec ds))
      in if ds \<noteq> [] \<and> list_all is_digit ds \<and> - (2 ^ 63) \<le> i \<and> i < 2 ^ 63 then Some i else None)"

definition as_int :: "json \<Rightarrow> int result" where
  "as_int v = (case v of
      JNum x \<Rightarrow> (case int_literal x of Some i \<Rightarrow> Inr i | None \<Rightarrow> Inl ErrJSONType)
    | JNull \<Rightarrow> Inr 0
    | _ \<Rightarrow> Inl ErrJSONType)"

definition as_num :: "json \<Rightarrow> string result" where
  "as_num v = (case v of JNum x \<Rightarrow> Inr x | JNull \<Rightarrow> Inr ''0'' | _ \<Rightarrow> Inl ErrJSONType)"

fun traverse :: "('a \<Rightarrow> 'b result) \<Rightarrow> 'a list \<Rightarrow> 'b list result" where
  "traverse f [] = Inr []"
| "traverse f (x # xs) =
     (case f x of Inl e \<Rightarrow> Inl e
      | Inr y \<Rightarrow> (case traverse f xs of Inl e \<Rightarrow> Inl e | Inr ys \<Rightarrow> Inr (y # ys)))"

definition as_list :: "(json \<Rightarrow> 'a result) \<Rightarrow> json \<Rightarrow> 'a list result" where
  "as_list f v = (case v of JArr vs \<Rightarrow> traverse f vs | _ \<Rightarrow> Inl ErrJSONType)"

text \<open>A struct takes an object, or null, which leaves it zero.\<close>

definition as_obj :: "json \<Rightarrow> (string \<times> json) list result" where
  "as_obj v = (case v of JObj ms \<Rightarrow> Inr ms | JNull \<Rightarrow> Inr [] | _ \<Rightarrow> Inl ErrJSONType)"

definition str_field :: "string \<Rightarrow> (string \<times> json) list \<Rightarrow> string result" where
  "str_field k ms = jfold as_str [] (jmatches k ms)"

definition int_field :: "string \<Rightarrow> (string \<times> json) list \<Rightarrow> int result" where
  "int_field k ms = jfold as_int 0 (jmatches k ms)"

definition bool_field :: "string \<Rightarrow> (string \<times> json) list \<Rightarrow> bool result" where
  "bool_field k ms = jfold as_bool False (jmatches k ms)"

definition num_field :: "string \<Rightarrow> (string \<times> json) list \<Rightarrow> string result" where
  "num_field k ms = jfold as_num ''0'' (jmatches k ms)"

definition list_field :: "(json \<Rightarrow> 'a result) \<Rightarrow> string \<Rightarrow> (string \<times> json) list \<Rightarrow> 'a list result" where
  "list_field f k ms = jfold (as_list f) [] (jmatches k ms)"

text \<open>A repeated object member is decoded into the same struct or map, so its members add up.\<close>

definition obj_field :: "string \<Rightarrow> (string \<times> json) list \<Rightarrow> (string \<times> json) list result" where
  "obj_field k ms =
     (case traverse as_obj (jmatches k ms) of Inl e \<Rightarrow> Inl e | Inr mss \<Rightarrow> Inr (concat mss))"

text \<open>A pointer field, which a null sets to nil.\<close>

fun jfold_ptr :: "(json \<Rightarrow> 'a result) \<Rightarrow> 'a option \<Rightarrow> json list \<Rightarrow> 'a option result" where
  "jfold_ptr f a [] = Inr a"
| "jfold_ptr f a (v # vs) =
     (if v = JNull then jfold_ptr f None vs
      else case f v of Inl e \<Rightarrow> Inl e | Inr b \<Rightarrow> jfold_ptr f (Some b) vs)"

definition ptr_field :: "(json \<Rightarrow> 'a result) \<Rightarrow> string \<Rightarrow> (string \<times> json) list \<Rightarrow> 'a option result" where
  "ptr_field f k ms = jfold_ptr f None (jmatches k ms)"

text \<open>A decoded \<open>map[string]interface{}\<close> keeps the last member of a key.\<close>

definition map_get :: "string \<Rightarrow> (string \<times> json) list \<Rightarrow> json option" where
  "map_get k ms = map_of (rev ms) k"

definition result_bind :: "'a result \<Rightarrow> ('a \<Rightarrow> 'b result) \<Rightarrow> 'b result" where
  "result_bind r f = (case r of Inl e \<Rightarrow> Inl e | Inr a \<Rightarrow> f a)"

lemma result_bind_simps [simp]: "result_bind (Inl e) f = Inl e" "result_bind (Inr a) f = f a"
  by (simp_all add: result_bind_def)

text \<open>The \<open>%v\<close> form of a decoded value; the members of a map print in key order.\<close>

fun insert_member :: "string \<times> 'a \<Rightarrow> (string \<times> 'a) list \<Rightarrow> (string \<times> 'a) list" where
  "insert_member m [] = [m]"
| "insert_member m (x # xs) =
     (if fst m = fst x then m # xs
      else if lexordp (<) (map (of_char :: char \<Rightarrow> nat) (fst m)) (map of_char (fst x)) then m # x # xs
      else x # insert_member m xs)"

definition sort_members :: "(string \<times> 'a) list \<Rightarrow> (string \<times> 'a) list" where
  "sort_members ms = foldl (\<lambda>acc m. insert_member m acc) [] ms"

fun fmt_v :: "json \<Rightarrow> string" where
  "fmt_v JNull = ''<nil>''"
| "fmt_v (JBool b) = (if b then ''true'' else ''false'')"
| "fmt_v (JNum x) = x"
| "fmt_v (JStr s) = s"
| "fmt_v (JArr vs) = CHR 0x5B # join '' '' (map fmt_v vs) @ [CHR 0x5D]"
| "fmt_v (JObj ms) =
     ''map['' @ join '' '' (map (\<lambda>(k, v). k @ '':'' @ v) (sort_members (map (\<lambda>(k, v). (k, fmt_v v)) ms))) @ '']''"

text \<open>
  A value decoded into \<open>interface{}\<close> and marshalled again: the members of every map are in key order,
  without repetitions. (A number keeps its literal; the code's goes through \<open>float64\<close>.)
\<close>

fun canon :: "json \<Rightarrow> json" where
  "canon (JArr vs) = JArr (map canon vs)"
| "canon (JObj ms) = JObj (sort_members (map (\<lambda>(k, v). (k, canon v)) ms))"
| "canon v = v"

definition map_set :: "string \<Rightarrow> json \<Rightarrow> (string \<times> json) list \<Rightarrow> (string \<times> json) list" where
  "map_set k v ms = filter (\<lambda>m. fst m \<noteq> k) ms @ [(k, v)]"

end
