(* ===== verification/Backend.thy ===== *)
theory Backend
  imports Go_JSON
begin

text \<open>
  The types every layer shares (\<open>internal/adapter/backend.go\<close>), the \<open>InferenceBackend\<close> interface and the
  test double (\<open>mock.go\<close>).

  A \<open>float64\<close> that the gateway only passes on (the temperature) is the JSON literal it was read as.
\<close>

type_synonym float64 = string

record message =
  Role :: string
  Content :: string

record generate_request =
  Model :: string
  Messages :: "message list"
  Stream :: bool
  Format :: string
  Grammar :: string
  Temperature :: float64
  MaxTokens :: int

record choice =
  Index :: int
  Message :: message
  FinishReason :: string
  Delta :: "message option"

record generate_response =
  RespID :: string
  RespObject :: string
  RespModel :: string
  Choices :: "choice list"

definition ErrCircuitOpen :: goerr where
  "ErrCircuitOpen = ''circuit breaker is open''"

abbreviation msg :: "string \<Rightarrow> string \<Rightarrow> message" where
  "msg r c \<equiv> \<lparr>Role = r, Content = c\<rparr>"

text \<open>A request literal of the code that sets the model and the messages only.\<close>

definition gen_request :: "string \<Rightarrow> message list \<Rightarrow> generate_request" where
  "gen_request model ms = \<lparr>Model = model, Messages = ms, Stream = False, Format = [], Grammar = [],
     Temperature = ''0'', MaxTokens = 0\<rparr>"

definition messagesToPrompt :: "message list \<Rightarrow> string" where
  "messagesToPrompt ms = concat (map (\<lambda>m. Role m @ '': '' @ Content m @ ''\<newline>'') ms)"

text \<open>
  \<open>resp.Choices[0].Message.Content\<close>, as the callers write it without a check: an empty slice panics.
\<close>

definition first_content :: "generate_response \<Rightarrow> string go" where
  "first_content r =
     (case Choices r of
        [] \<Rightarrow> Panic ''index out of range [0] with length 0''
      | c # _ \<Rightarrow> Ret (Content (Message c)))"

section \<open>The interface\<close>

type_synonym 'w generate = "generate_request \<Rightarrow> ('w, generate_response result) prog"

text \<open>
  What the orchestration code relies on: \<open>Generate\<close> returns (an answer or an error, it never panics)
  and an answer has at least one choice.
\<close>

definition good_response :: "generate_response result \<Rightarrow> bool" where
  "good_response r = (case r of Inl _ \<Rightarrow> True | Inr resp \<Rightarrow> Choices resp \<noteq> [])"

text \<open>The call every component makes: the error, or the content of the first choice.\<close>

definition ask :: "'w generate \<Rightarrow> generate_request \<Rightarrow> ('w, string result) prog" where
  "ask gen req =
     gbind (gen req) (\<lambda>r. case r of
        Inl e \<Rightarrow> gret (Inl e)
      | Inr resp \<Rightarrow> gbind (glift (first_content resp)) (\<lambda>c. gret (Inr c)))"

lemma cost_ask [cost_intros]: "(\<And>r. cost f k (gen r)) \<Longrightarrow> cost f k (ask gen req)"
  unfolding ask_def
  by (rule cost_gbind_le [where k = 0], assumption)
    (auto intro!: cost_sum cost_gret cost_gbind [where j = 0 and k = 0, simplified] cost_glift)

locale inference_backend =
  fixes Generate :: "'w generate"
  assumes generate_good: "safe (Generate req) good_response"
begin

lemma safe_ask [safe_intros]: "safe (ask Generate req) (\<lambda>_. True)"
  unfolding ask_def
proof (rule safe_gbind [OF generate_good])
  fix r assume r: "good_response r"
  show "safe (case r of Inl e \<Rightarrow> gret (Inl e)
      | Inr resp \<Rightarrow> gbind (glift (first_content resp)) (\<lambda>c. gret (Inr c))) (\<lambda>_. True)"
  proof (cases r)
    case (Inl e)
    then show ?thesis by (simp add: safe_gret)
  next
    case (Inr resp)
    with r obtain c cs where "Choices resp = c # cs"
      by (auto simp: good_response_def neq_Nil_conv)
    with Inr show ?thesis by (simp add: first_content_def safe_gret)
  qed
qed

end

section \<open>The test double\<close>

definition mock_Generate :: "'w generate option \<Rightarrow> 'w generate" where
  "mock_Generate GenerateFn req =
     (case GenerateFn of
        Some f \<Rightarrow> f req
      | None \<Rightarrow> gret (Inr \<lparr>RespID = ''mock-id'', RespObject = ''chat.completion'', RespModel = Model req,
          Choices = [\<lparr>Index = 0, Message = msg ''assistant'' ''mock response'', FinishReason = ''stop'', Delta = None\<rparr>]\<rparr>))"

definition mock_Stream ::
  "(generate_request \<Rightarrow> ('w, generate_response list result) prog) option
   \<Rightarrow> generate_request \<Rightarrow> ('w, generate_response list result) prog" where
  "mock_Stream StreamFn req =
     (case StreamFn of
        Some f \<Rightarrow> f req
      | None \<Rightarrow> gret (Inr [\<lparr>RespID = ''mock-id'', RespObject = ''chat.completion.chunk'', RespModel = Model req,
          Choices = [\<lparr>Index = 0, Message = msg [] [], FinishReason = [],
            Delta = Some (msg ''assistant'' ''mock token'')\<rparr>]\<rparr>]))"

interpretation mock: inference_backend "mock_Generate None"
  by unfold_locales (simp add: mock_Generate_def good_response_def safe_gret)

end
