(* ===== verification/Go_JSON_Roundtrip.thy ===== *)
theory Go_JSON_Roundtrip
  imports Go_JSON
begin

text \<open>
  Parsing what was printed gives the value back: the fact behind every store and load of the
  gateway, whose records travel through Redis as JSON text. Numbers are integers here, which is all
  that the stored records hold.
\<close>

section \<open>Strings\<close>

lemma hex_val_hex_char [simp]:
  assumes "d < 16"
  shows "hex_val (hex_char d) = Some d"
proof (cases "d < 10")
  case True
  then have "(of_char (hex_char d) :: nat) = 48 + d" by (simp add: hex_char_def)
  with True show ?thesis by (simp add: hex_val_def)
next
  case False
  with assms have "d = 10 \<or> d = 11 \<or> d = 12 \<or> d = 13 \<or> d = 14 \<or> d = 15" by arith
  then show ?thesis by (elim disjE) (simp_all add: hex_val_def hex_char_def)
qed

lemma numeral_4_eq_4_nat: "(4 :: nat) = Suc (Suc (Suc (Suc 0)))"
  by simp

lemma hex4_hex_pad:
  assumes "n < 65536"
  shows "hex4 (hex_pad 4 n @ s) = Some (n, s)"
proof -
  have "hex_pad 4 n = [hex_char (n div 16 div 16 div 16 mod 16), hex_char (n div 16 div 16 mod 16),
      hex_char (n div 16 mod 16), hex_char (n mod 16)]"
    unfolding numeral_4_eq_4_nat hex_pad.simps append.simps ..
  moreover have "4096 * (n div 16 div 16 div 16 mod 16) + 256 * (n div 16 div 16 mod 16)
      + 16 * (n div 16 mod 16) + n mod 16 = n"
  proof -
    have "n div 16 div 16 div 16 < 16" using assms by (simp add: div_mult2_eq [symmetric])
    then have "n div 16 div 16 div 16 mod 16 = n div 16 div 16 div 16" by simp
    then show ?thesis
      using div_mult_mod_eq [of n 16] div_mult_mod_eq [of "n div 16" 16]
        div_mult_mod_eq [of "n div 16 div 16" 16] by linarith
  qed
  ultimately show ?thesis by simp
qed

lemma json_str_quote_end [simp]: "json_str (CHR 0x22 # r) = Some ([], r)"
  by (simp add: json_str.simps)

lemma json_str_plain:
  "c \<noteq> CHR 0x22 \<Longrightarrow> c \<noteq> CHR 0x5C \<Longrightarrow> 32 \<le> (of_char c :: nat) \<Longrightarrow>
   json_str (c # r) = map_option (\<lambda>(y, z). (c # y, z)) (json_str r)"
  by (subst json_str.simps) simp

lemma json_str_escape:
  "escape t = Some (x, r) \<Longrightarrow> json_str (CHR 0x5C # t) = map_option (\<lambda>(y, z). (x @ y, z)) (json_str r)"
  by (subst json_str.simps) simp

lemma short_escape_u [simp]: "short_escape CHR ''u'' = None"
  by (simp add: short_escape_def)

lemma escape_u:
  assumes "(of_char c :: nat) < 128"
  shows "escape (CHR ''u'' # hex_pad 4 (of_char c) @ s) = Some ([c], s)"
proof -
  have "hex4 (hex_pad 4 (of_char c) @ s) = Some (of_char c :: nat, s)"
    using assms by (intro hex4_hex_pad) simp
  moreover have "utf8 (of_char c) = [c]"
    using assms by (simp add: utf8_def)
  ultimately show ?thesis
    using assms by (simp add: escape_def)
qed

lemma escape_short: "short_escape e = Some c \<Longrightarrow> escape (e # s) = Some ([c], s)"
  by (simp add: escape_def)

lemma json_str_esc:
  "json_str (json_esc c @ t) = map_option (\<lambda>(y, z). (c # y, z)) (json_str t)"
proof -
  have short: "json_str (CHR 0x5C # e # t) = map_option (\<lambda>(y, z). (c # y, z)) (json_str t)"
    if "short_escape e = Some c" for e
    using json_str_escape [OF escape_short [OF that]] by simp
  have uni: "json_str (CHR 0x5C # CHR ''u'' # hex_pad 4 (of_char c) @ t)
      = map_option (\<lambda>(y, z). (c # y, z)) (json_str t)" if "(of_char c :: nat) < 128"
    using json_str_escape [OF escape_u [OF that]] by simp
  show ?thesis
    unfolding json_esc_def
    using short uni json_str_plain [of c t] by (auto simp: short_escape_def)
qed

lemma json_str_print: "json_str (concat (map json_esc s) @ CHR 0x22 # r) = Some (s, r)"
  by (induction s) (simp_all add: json_str_esc)

section \<open>Integers\<close>

lemma takeWhile_digits:
  "list_all is_digit ds \<Longrightarrow> r = [] \<or> \<not> is_digit (hd r) \<Longrightarrow>
   takeWhile is_digit (ds @ r) = ds \<and> dropWhile is_digit (ds @ r) = r"
  by (induction ds) (cases r; auto)+

lemma digits1_append:
  "list_all is_digit ds \<Longrightarrow> ds \<noteq> [] \<Longrightarrow> r = [] \<or> \<not> is_digit (hd r) \<Longrightarrow> digits1 (ds @ r) = Some (ds, r)"
  using takeWhile_digits [of ds r] by (cases ds) (simp_all add: digits1_def)

lemma list_all_digits [simp]: "list_all is_digit (dec_of_nat n)"
  by (auto simp: list_all_iff dec_of_nat_digits)

lemma dec_of_nat_hd: "0 < n \<Longrightarrow> hd (dec_of_nat n) \<noteq> CHR ''0''"
proof (induction n rule: dec_of_nat.induct)
  case (1 n)
  show ?case
  proof (cases "n < 10")
    case True
    then have "(of_char (digit_char n) :: nat) \<noteq> of_char CHR ''0''"
      using 1(2) by (simp add: of_char_digit)
    then have "digit_char n \<noteq> CHR ''0''" by auto
    with True show ?thesis by (simp add: dec_of_nat.simps [of n])
  next
    case False
    then have "hd (dec_of_nat (n div 10)) \<noteq> CHR ''0''" using 1(1) by simp
    with False show ?thesis by (simp add: dec_of_nat.simps [of n])
  qed
qed

definition delim :: "string \<Rightarrow> bool" where
  "delim r \<longleftrightarrow> r = [] \<or> hd r \<in> {CHR '','', CHR 0x5D, CHR 0x7D, CHR 0x0A}"

lemma delim_simps [simp]:
  "delim []" "delim (CHR '','' # r)" "delim (CHR 0x5D # r)" "delim (CHR 0x7D # r)" "delim (CHR 0x0A # r)"
  by (simp_all add: delim_def)

lemma delim_not_digit: "delim r \<Longrightarrow> r = [] \<or> \<not> is_digit (hd r)"
  by (auto simp: delim_def is_digit_def)

lemma digit_char_0: "digit_char 0 = CHR ''0''"
  by code_simp

lemma dec_of_int_Cons: "\<exists>c ds. dec_of_int i = c # ds \<and> (is_digit c \<or> c = CHR ''-'')"
proof (cases "i < 0")
  case True
  then show ?thesis by (simp add: dec_of_int_def)
next
  case False
  obtain c ds where "dec_of_nat (nat i) = c # ds" "is_digit c"
    by (metis dec_of_nat_digits dec_of_nat_not_Nil list.set_intros(1) neq_Nil_conv)
  with False show ?thesis by (simp add: dec_of_int_def)
qed

lemma num_int_print:
  assumes "delim r"
  shows "num_int (dec_of_nat n @ r) = Some (dec_of_nat n, r)"
proof (cases "n = 0")
  case True
  then show ?thesis by (simp add: dec_of_nat.simps [of 0] num_int_def digit_char_0)
next
  case False
  obtain c ds where c: "dec_of_nat n = c # ds" by (meson dec_of_nat_not_Nil neq_Nil_conv)
  then have "is_digit c" "c \<noteq> CHR ''0''"
    using dec_of_nat_hd [of n] False dec_of_nat_digits [of c n] by auto
  moreover have "digits1 (dec_of_nat n @ r) = Some (dec_of_nat n, r)"
    using delim_not_digit [OF assms] by (intro digits1_append) simp_all
  ultimately show ?thesis by (simp add: num_int_def c)
qed

lemma num_tail: "delim r \<Longrightarrow> num_frac r = Some ([], r) \<and> num_exp r = Some ([], r)"
  by (cases r) (auto simp: delim_def num_frac_def num_exp_def)

lemma dec_of_nat_Cons: "\<exists>c ds. dec_of_nat n = c # ds \<and> is_digit c"
  by (metis dec_of_nat_digits dec_of_nat_not_Nil list.set_intros(1) neq_Nil_conv)

lemma json_num_print:
  assumes "delim r"
  shows "json_num (dec_of_int i @ r) = Some (dec_of_int i, r)"
proof (cases "i < 0")
  case True
  then show ?thesis
    using assms by (simp add: dec_of_int_def json_num_def num_int_print num_tail)
next
  case False
  obtain c ds where c: "dec_of_nat (nat i) = c # ds" "is_digit c"
    using dec_of_nat_Cons by blast
  then have "c \<noteq> CHR ''-''" by (auto simp: is_digit_def)
  with c False assms show ?thesis
    using num_int_print [OF assms, of "nat i"]
    by (simp add: dec_of_int_def json_num_def num_tail)
qed

subsection \<open>A number is read the same wherever it stands\<close>

definition after_digits :: "string \<Rightarrow> bool" where
  "after_digits r \<longleftrightarrow> r = [] \<or> \<not> is_digit (hd r)"

lemma delim_after [simp]: "delim r \<Longrightarrow> after_digits r"
  using delim_not_digit by (simp add: after_digits_def)

lemma digits1_local:
  assumes "digits1 s = Some (ds, r)"
  shows "s = ds @ r" and "ds \<noteq> []" and "list_all is_digit ds" and "after_digits r' \<Longrightarrow> digits1 (ds @ r') = Some (ds, r')"
proof -
  from assms have d: "ds = takeWhile is_digit s" "r = dropWhile is_digit s" "ds \<noteq> []"
    by (auto simp: digits1_def split: list.splits)
  then show "s = ds @ r" "ds \<noteq> []" and all: "list_all is_digit ds"
    by (auto simp: list_all_iff dest: set_takeWhileD)
  show "digits1 (ds @ r') = Some (ds, r')" if "after_digits r'"
    using digits1_append [OF all d(3)] that by (simp add: after_digits_def)
qed

lemma num_int_local:
  assumes "num_int s = Some (i, r)"
  shows "s = i @ r" and "\<exists>c ds. i = c # ds \<and> is_digit c" and "after_digits r' \<Longrightarrow> num_int (i @ r') = Some (i, r')"
proof -
  obtain c t where s: "s = c # t" using assms by (cases s) (auto simp: num_int_def)
  consider "c = CHR ''0''" "i = [c]" "r = t" | "c \<noteq> CHR ''0''" "is_digit c" "digits1 s = Some (i, r)"
    using assms by (auto simp: num_int_def s split: if_splits)
  then have "s = i @ r \<and> (\<exists>ds. i = c # ds \<and> is_digit c) \<and> (after_digits r' \<longrightarrow> num_int (i @ r') = Some (i, r'))"
  proof cases
    case 1
    then show ?thesis by (simp add: s num_int_def is_digit_def)
  next
    case 2
    note d = digits1_local [OF 2(3)]
    then obtain ds where "i = c # ds" using s by (cases i) auto
    with d 2 show ?thesis by (auto simp: num_int_def)
  qed
  then show "s = i @ r" "\<exists>c ds. i = c # ds \<and> is_digit c" "after_digits r' \<Longrightarrow> num_int (i @ r') = Some (i, r')" by auto
qed

definition after_int :: "string \<Rightarrow> bool" where
  "after_int r \<longleftrightarrow> after_digits r \<and> (r = [] \<or> hd r \<noteq> CHR ''.'')"

lemma num_frac_local:
  assumes "num_frac s = Some (f, r)"
  shows "s = f @ r \<and> (f = [] \<or> hd f = CHR ''.'') \<and> (after_int r' \<longrightarrow> num_frac (f @ r') = Some (f, r'))"
proof (cases "\<exists>t. s = CHR ''.'' # t")
  case True
  then obtain t ds where t: "s = CHR ''.'' # t" "digits1 t = Some (ds, r)" "f = CHR ''.'' # ds"
    using assms by (auto simp: num_frac_def)
  note d = digits1_local [OF t(2)]
  then show ?thesis using t by (auto simp: num_frac_def after_int_def)
next
  case False
  then have "f = []" "r = s" using assms by (auto simp: num_frac_def split: list.splits if_splits)
  then show ?thesis by (auto simp: num_frac_def after_int_def split: list.split)
qed

lemma num_exp_local:
  assumes "num_exp s = Some (e, r)"
  shows "s = e @ r \<and> (e = [] \<or> hd e = CHR ''e'' \<or> hd e = CHR ''E'') \<and> (delim r' \<longrightarrow> num_exp (e @ r') = Some (e, r'))"
proof (cases "\<exists>c t. s = c # t \<and> (c = CHR ''e'' \<or> c = CHR ''E'')")
  case True
  then obtain c d t where s: "s = c # d # t" and c: "c = CHR ''e'' \<or> c = CHR ''E''"
    using assms by (auto simp: num_exp_def split: list.splits)
  show ?thesis
  proof (cases "d = CHR ''+'' \<or> d = CHR ''-''")
    case True
    with assms s c obtain ds where ds: "digits1 t = Some (ds, r)" "e = c # d # ds" by (auto simp: num_exp_def)
    with True c s digits1_local [OF ds(1)] show ?thesis by (auto simp: num_exp_def)
  next
    case False
    with assms s c obtain ds where ds: "digits1 (d # t) = Some (ds, r)" "e = c # ds" by (auto simp: num_exp_def)
    note l = digits1_local [OF ds(1)]
    then obtain ds' where "ds = d # ds'" by (cases ds) auto
    with False c s ds l show ?thesis by (auto simp: num_exp_def)
  qed
next
  case False
  then have "e = []" "r = s" using assms by (auto simp: num_exp_def split: list.splits if_splits)
  then show ?thesis using num_tail by auto
qed

lemma json_num_local:
  assumes "json_num s = Some (x, r)"
  shows "s = x @ r" and "delim r' \<Longrightarrow> json_num (x @ r') = Some (x, r')"
proof -
  define sign where "sign = (if has_prefix s ''-'' then ''-'' else [])"
  obtain s1 i s2 f s3 e where p: "s = sign @ s1" "num_int s1 = Some (i, s2)" "num_frac s2 = Some (f, s3)" "num_exp s3 = Some (e, r)"
      "x = sign @ i @ f @ e"
    using assms by (cases s) (auto simp: json_num_def sign_def split: if_splits option.splits)
  note i = num_int_local [OF p(2)] and f = num_frac_local [OF p(3)] and e = num_exp_local [OF p(4)]
  show "s = x @ r" using p i f e by auto
  assume d: "delim r'"
  have ei: "after_int (e @ r')"
  proof (cases e)
    case Nil
    with d show ?thesis by (auto simp: after_int_def delim_def after_digits_def is_digit_def)
  next
    case (Cons a b)
    with e have "a = CHR ''e'' \<or> a = CHR ''E''" by simp
    then show ?thesis unfolding Cons after_int_def after_digits_def by (elim disjE) (simp_all add: is_digit_def)
  qed
  have fi: "after_digits (f @ e @ r')"
  proof (cases f)
    case Nil
    with ei show ?thesis by (simp add: after_int_def)
  next
    case (Cons a b)
    with f have "a = CHR ''.''" by simp
    then show ?thesis unfolding Cons after_digits_def by (simp add: is_digit_def)
  qed
  obtain c ds where c: "i = c # ds" "is_digit c" using i(2) by blast
  then have "c \<noteq> CHR ''-''" by (auto simp: is_digit_def)
  moreover have "num_frac (f @ e @ r') = Some (f, e @ r')" using f ei by blast
  moreover have "num_exp (e @ r') = Some (e, r')" using e d by blast
  moreover have "sign = [] \<or> sign = ''-''" by (simp add: sign_def)
  moreover have "num_int (i @ f @ e @ r') = Some (i, f @ e @ r')" by (rule i(3) [OF fi])
  ultimately show "json_num (x @ r') = Some (x, r')"
    unfolding p(5) using c by (elim disjE) (simp_all add: json_num_def)
qed

text \<open>The literals of numbers.\<close>

definition number :: "string \<Rightarrow> bool" where
  "number x \<longleftrightarrow> json_num x = Some (x, [])"

lemma number_dec [simp]: "number (dec_of_int i)"
  using json_num_print [of "[]" i] by (simp add: number_def)

lemma json_num_number: "json_num s = Some (x, r) \<Longrightarrow> number x"
  using json_num_local(2) [of s x r "[]"] by (simp add: number_def)

lemma number_append: "number x \<Longrightarrow> delim r \<Longrightarrow> json_num (x @ r) = Some (x, r)"
  unfolding number_def by (rule json_num_local(2))

lemma number_Cons: "number x \<Longrightarrow> \<exists>c s. x = c # s \<and> (is_digit c \<or> c = CHR ''-'')"
  by (cases x) (auto simp: number_def json_num_def num_int_def is_digit_def split: if_splits option.splits)

definition number_char :: "char \<Rightarrow> bool" where
  "number_char c \<longleftrightarrow> is_digit c \<or> c \<in> set ''-+.eE''"

lemma digits1_chars: "digits1 s = Some (ds, r) \<Longrightarrow> c \<in> set ds \<Longrightarrow> number_char c"
  using digits1_local(3) [of s ds r] by (simp add: list_all_iff number_char_def)

lemma number_chars: "number x \<Longrightarrow> c \<in> set x \<Longrightarrow> number_char c"
proof -
  assume n: "number x" and c: "c \<in> set x"
  have i: "number_char c" if "num_int s = Some (i, r)" "c \<in> set i" for s i r
    using that by (auto simp: num_int_def number_char_def [of "CHR ''0''"] is_digit_def [of "CHR ''0''"]
        dest: digits1_chars split: list.splits if_splits)
  have f: "number_char c" if "num_frac s = Some (i, r)" "c \<in> set i" for s i r
    using that by (auto simp: num_frac_def number_char_def [of "CHR ''.''"] dest: digits1_chars split: list.splits if_splits)
  have e: "number_char c" if "num_exp s = Some (i, r)" "c \<in> set i" for s i r
    using that by (auto simp: num_exp_def number_char_def [of "CHR ''e''"] number_char_def [of "CHR ''E''"]
        number_char_def [of "CHR ''+''"] number_char_def [of "CHR ''-''"] dest: digits1_chars split: list.splits if_splits)
  from n obtain sign s1 i s2 f s3 e where "num_int s1 = Some (i, s2)" "num_frac s2 = Some (f, s3)" "num_exp s3 = Some (e, [])"
      "x = sign @ i @ f @ e" "sign = [] \<or> sign = ''-''"
    unfolding number_def by (cases x) (auto simp: json_num_def split: if_splits option.splits)
  with c i f e show ?thesis by (auto simp: number_char_def)
qed

lemma number_char_32: "number_char c \<Longrightarrow> 32 \<le> (of_char c :: nat)"
  by (auto simp: number_char_def is_digit_def)

lemma int_literal_dec:
  assumes "- (2 ^ 63) \<le> i" and "i < 2 ^ 63"
  shows "int_literal (dec_of_int i) = Some i"
proof (cases "i < 0")
  case True
  then show ?thesis using assms by (simp add: dec_of_int_def int_literal_def Let_def)
next
  case False
  obtain c ds where c: "dec_of_nat (nat i) = c # ds" "is_digit c"
    using dec_of_nat_Cons by blast
  then have "c \<noteq> CHR ''-''" by (auto simp: is_digit_def)
  then have "\<not> has_prefix (dec_of_nat (nat i)) ''-''" by (simp add: c)
  then show ?thesis using False assms by (simp add: dec_of_int_def int_literal_def Let_def)
qed

section \<open>Values\<close>

fun wf_json :: "json \<Rightarrow> bool" where
  "wf_json (JNum x) = number x"
| "wf_json (JArr vs) = list_all wf_json vs"
| "wf_json (JObj ms) = list_all (\<lambda>(k, v). wf_json v) ms"
| "wf_json _ = True"

lemma skip_ws_Cons [simp]: "\<not> is_ws c \<Longrightarrow> skip_ws (c # s) = c # s"
  by (simp add: skip_ws_def)

lemma not_ws [simp]:
  "\<not> is_ws CHR 0x22" "\<not> is_ws CHR 0x7B" "\<not> is_ws CHR 0x7D" "\<not> is_ws CHR 0x5B" "\<not> is_ws CHR 0x5D"
  "\<not> is_ws CHR '',''" "\<not> is_ws CHR '':''" "\<not> is_ws CHR ''t''" "\<not> is_ws CHR ''f''" "\<not> is_ws CHR ''n''"
  by (simp_all add: is_ws_def)

lemma json_num_value:
  assumes "number x" "delim r" "0 < n"
  shows "json_value n (x @ r) = Some (JNum x, r)"
proof -
  obtain c s where c: "x = c # s" "is_digit c \<or> c = CHR ''-''"
    using number_Cons [OF assms(1)] by blast
  then have "\<not> is_ws c" "c \<noteq> CHR 0x7B" "c \<noteq> CHR 0x5B" "c \<noteq> CHR 0x22"
    "c \<noteq> CHR ''t''" "c \<noteq> CHR ''f''" "c \<noteq> CHR ''n''"
    by (auto simp: is_digit_def is_ws_def)
  moreover obtain m where "n = Suc m" using assms(3) by (cases n) auto
  ultimately show ?thesis
    using number_append [OF assms(1,2)] by (simp add: c(1))
qed

lemma json_value_quote: "0 < n \<Longrightarrow> json_value n (json_quote s @ r) = Some (JStr s, r)"
  by (cases n) (simp_all add: json_quote_def json_str_print)

lemma json_print_head:
  assumes "wf_json v"
  shows "\<exists>c s. json_print v = c # s \<and> \<not> is_ws c \<and> c \<noteq> CHR 0x5D \<and> c \<noteq> CHR 0x7D"
proof (cases v)
  case (JNum x)
  with assms obtain c s where "x = c # s" "is_digit c \<or> c = CHR ''-''"
    using number_Cons [of x] by auto
  then show ?thesis using JNum by (auto simp: is_ws_def is_digit_def)
qed (auto simp: json_quote_def)

lemma json_print_pos: "wf_json v \<Longrightarrow> 0 < length (json_print v)"
  using json_print_head by fastforce

abbreviation (input) roundtrips :: "json \<Rightarrow> bool" where
  "roundtrips v \<equiv> (\<forall>n r. 2 * length (json_print v) \<le> n \<longrightarrow> delim r \<longrightarrow> json_value n (json_print v @ r) = Some (v, r))"

lemma json_elems_print:
  "vs \<noteq> [] \<Longrightarrow> \<forall>v \<in> set vs. wf_json v \<and> roundtrips v \<Longrightarrow>
   2 * length (join '','' (map json_print vs)) + 1 \<le> n \<Longrightarrow>
   json_elems n (join '','' (map json_print vs) @ CHR 0x5D # r) = Some (vs, r)"
proof (induction vs arbitrary: n)
  case Nil
  then show ?case by simp
next
  case (Cons v vs)
  from Cons.prems(3) obtain m where n: "n = Suc m" by (cases n) auto
  show ?case
  proof (cases "vs = []")
    case True
    with Cons.prems n show ?thesis by simp
  next
    case False
    with Cons.prems n have "2 * length (join '','' (map json_print vs)) + 1 \<le> m"
      and "2 * length (json_print v) \<le> m"
      by (auto simp: join_Cons)
    with Cons False n show ?thesis by (simp add: join_Cons)
  qed
qed

abbreviation (input) print_member :: "string \<times> json \<Rightarrow> string" where
  "print_member \<equiv> \<lambda>(k, v). json_quote k @ '':'' @ json_print v"

lemma json_members_member:
  assumes val: "json_value n (json_print v @ t) = Some (v, t)"
  shows "json_members (Suc n) (json_quote k @ '':'' @ json_print v @ t) =
      (case skip_ws t of [] \<Rightarrow> None
       | c # r \<Rightarrow> if c = CHR 0x7D then Some ([(k, v)], r)
         else if c = CHR '','' then map_option (\<lambda>(ms, t'). ((k, v) # ms, t')) (json_members n r)
         else None)"
proof -
  have shape: "json_quote k @ '':'' @ json_print v @ t
      = CHR 0x22 # concat (map json_esc k) @ CHR 0x22 # CHR '':'' # json_print v @ t"
    by (simp add: json_quote_def)
  have key: "json_str (concat (map json_esc k) @ CHR 0x22 # CHR '':'' # json_print v @ t)
      = Some (k, CHR '':'' # json_print v @ t)"
    by (rule json_str_print)
  show ?thesis
    unfolding shape json_members.simps skip_ws_Cons [OF not_ws(1)] list.case
    by (simp only: key val skip_ws_Cons [OF not_ws(7)] list.case option.case prod.case
        if_False if_True not_False_eq_True simp_thms)
qed

lemma json_members_print:
  "ms \<noteq> [] \<Longrightarrow> \<forall>(k, v) \<in> set ms. wf_json v \<and> roundtrips v \<Longrightarrow>
   2 * length (join '','' (map print_member ms)) + 1 \<le> n \<Longrightarrow>
   json_members n (join '','' (map print_member ms) @ CHR 0x7D # r) = Some (ms, r)"
proof (induction ms arbitrary: n)
  case Nil
  then show ?case by simp
next
  case (Cons m ms)
  obtain k v where kv: "m = (k, v)" by (cases m)
  from Cons.prems(3) obtain n' where n: "n = Suc n'" by (cases n) auto
  have v: "2 * length (json_print v) \<le> n'" "wf_json v" "roundtrips v"
    using Cons.prems n kv by (auto simp: join_Cons split: if_splits)
  have step: "json_members n (json_quote k @ '':'' @ json_print v @ t) =
      (case skip_ws t of [] \<Rightarrow> None
       | c # r \<Rightarrow> if c = CHR 0x7D then Some ([(k, v)], r)
         else if c = CHR '','' then map_option (\<lambda>(ms, t'). ((k, v) # ms, t')) (json_members n' r)
         else None)" if "delim t" for t
    unfolding n by (rule json_members_member) (use v that in blast)
  show ?case
  proof (cases "ms = []")
    case True
    then show ?thesis using step [of "CHR 0x7D # r"] by (simp add: kv)
  next
    case False
    with Cons.prems(3) n kv have "2 * length (join '','' (map print_member ms)) + 1 \<le> n'"
      by (auto simp: join_Cons)
    with Cons.IH [of n'] Cons.prems(2) False
    have "json_members n' (join '','' (map print_member ms) @ CHR 0x7D # r) = Some (ms, r)" by simp
    with step [of "CHR '','' # join '','' (map print_member ms) @ CHR 0x7D # r"] False
    show ?thesis by (simp add: kv join_Cons)
  qed
qed

lemma json_value_literal:
  assumes "0 < n"
  shows "json_value n (''null'' @ r) = Some (JNull, r)"
    and "json_value n (''true'' @ r) = Some (JBool True, r)"
    and "json_value n (''false'' @ r) = Some (JBool False, r)"
  using assms by (cases n; simp)+

lemma json_roundtrip_value: "wf_json v \<Longrightarrow> roundtrips v"
proof (induction v)
  case (JNum x)
  then have x: "number x" by simp
  show ?case
  proof (intro allI impI)
    fix n r assume "2 * length (json_print (JNum x)) \<le> n" and r: "delim r"
    with json_print_pos [OF JNum] have "0 < n" by linarith
    with json_num_value [OF x r] show "json_value n (json_print (JNum x) @ r) = Some (JNum x, r)" by simp
  qed
next
  case (JStr s)
  then show ?case
    using json_value_quote by (auto simp: json_quote_def)
next
  case (JArr vs)
  show ?case
  proof (intro allI impI)
    fix n r assume n: "2 * length (json_print (JArr vs)) \<le> n" "delim r"
    then obtain m where m: "n = Suc m" by (cases n) auto
    show "json_value n (json_print (JArr vs) @ r) = Some (JArr vs, r)"
    proof (cases vs)
      case Nil
      then show ?thesis by (simp add: m)
    next
      case (Cons v ws)
      have el: "json_elems m (join '','' (map json_print vs) @ CHR 0x5D # r) = Some (vs, r)"
        using JArr n m Cons by (intro json_elems_print) (auto simp: list_all_iff)
      obtain c s where "json_print v = c # s" "\<not> is_ws c" "c \<noteq> CHR 0x5D"
        using json_print_head [of v] JArr.prems Cons by auto
      then have "\<exists>s'. join '','' (map json_print vs) = c # s'"
        using Cons by (simp add: join_Cons)
      with el \<open>\<not> is_ws c\<close> \<open>c \<noteq> CHR 0x5D\<close> show ?thesis by (auto simp: m)
    qed
  qed
next
  case (JObj ms)
  show ?case
  proof (intro allI impI)
    fix n r assume n: "2 * length (json_print (JObj ms)) \<le> n" "delim r"
    then obtain m where m: "n = Suc m" by (cases n) auto
    show "json_value n (json_print (JObj ms) @ r) = Some (JObj ms, r)"
    proof (cases ms)
      case Nil
      then show ?thesis by (simp add: m)
    next
      case (Cons a ws)
      have ok: "wf_json v \<and> roundtrips v" if "(k, v) \<in> set ms" for k v
        using that JObj.prems JObj.IH [of "(k, v)" v] by (auto simp: list_all_iff)
      have el: "json_members m (join '','' (map print_member ms) @ CHR 0x7D # r) = Some (ms, r)"
        using n m Cons ok by (intro json_members_print) auto
      have "\<exists>s'. join '','' (map print_member ms) = CHR 0x22 # s'"
        using Cons by (cases a) (auto simp: join_Cons json_quote_def)
      then obtain s' where "join '','' (map print_member ms) = CHR 0x22 # s'" by blast
      with el show ?thesis by (simp add: m)
    qed
  qed
qed (use json_value_literal in auto)

theorem json_parse_print:
  assumes "wf_json v"
  shows "json_parse (json_print v) = Some v"
proof -
  have "2 * length (json_print v) \<le> json_fuel (json_print v)"
    by (simp add: json_fuel_def)
  with json_roundtrip_value [OF assms]
  have "json_value (json_fuel (json_print v)) (json_print v @ []) = Some (v, [])"
    using delim_simps(1) by blast
  then show ?thesis by (simp add: json_parse_def skip_ws_def)
qed

lemma json_decode_print:
  assumes "wf_json v" and "delim r"
  shows "json_decode (json_print v @ r) = Some (v, r)"
proof -
  have "2 * length (json_print v) \<le> json_fuel (json_print v @ r)"
    by (simp add: json_fuel_def)
  with json_roundtrip_value [OF assms(1)] assms(2) show ?thesis
    by (auto simp: json_decode_def)
qed

subsection \<open>Printed JSON is one line\<close>

lemma set_hex_pad: "c \<in> set (hex_pad k n) \<Longrightarrow> 32 \<le> (of_char c :: nat)"
proof (induction k arbitrary: n)
  case 0
  then show ?case by simp
next
  case (Suc k)
  have "32 \<le> (of_char (hex_char d) :: nat)" if "d < 16" for d
    using that by (simp add: hex_char_def)
  then have "32 \<le> (of_char (hex_char (n mod 16)) :: nat)" by simp
  moreover have "c \<in> set (hex_pad k (n div 16)) \<or> c = hex_char (n mod 16)"
    using Suc.prems by auto
  ultimately show ?case using Suc.IH by metis
qed

lemma json_esc_cases:
  "(\<exists>e \<in> set ([CHR 0x22, CHR 0x5C] @ ''nrtbf''). json_esc c = [CHR 0x5C, e])
   \<or> json_esc c = [CHR 0x5C, CHR ''u''] @ hex_pad 4 (of_char c)
   \<or> json_esc c = [c] \<and> 32 \<le> (of_char c :: nat)"
proof -
  define h where "h = hex_pad 4 (of_char c)"
  show ?thesis
    unfolding json_esc_def h_def [symmetric] by (simp split del: if_split) (simp split: if_split)
qed

lemma set_json_esc:
  assumes "d \<in> set (json_esc c)"
  shows "32 \<le> (of_char d :: nat)"
  using json_esc_cases [of c]
proof (elim disjE bexE conjE)
  fix e assume e: "e \<in> set ([CHR 0x22, CHR 0x5C] @ ''nrtbf'')" and "json_esc c = [CHR 0x5C, e]"
  with assms have "d = CHR 0x5C \<or> d = e" by (simp only: list.set insert_iff empty_iff simp_thms)
  moreover from e have "32 \<le> (of_char e :: nat)" by auto
  moreover have "32 \<le> (of_char CHR 0x5C :: nat)" by simp
  ultimately show ?thesis by metis
next
  assume "json_esc c = [CHR 0x5C, CHR ''u''] @ hex_pad 4 (of_char c)"
  with assms have "d = CHR 0x5C \<or> d = CHR ''u'' \<or> d \<in> set (hex_pad 4 (of_char c))"
    by (simp only: append.simps list.set insert_iff)
  moreover have "32 \<le> (of_char CHR 0x5C :: nat)" "32 \<le> (of_char CHR ''u'' :: nat)" by simp_all
  ultimately show ?thesis using set_hex_pad by metis
next
  assume "json_esc c = [c]" "32 \<le> (of_char c :: nat)"
  with assms show ?thesis by (simp only: list.set insert_iff empty_iff simp_thms)
qed

lemma set_json_quote: "d \<in> set (json_quote s) \<Longrightarrow> 32 \<le> (of_char d :: nat)"
  by (auto simp: json_quote_def dest: set_json_esc)

lemma set_join: "c \<in> set (join sep xs) \<Longrightarrow> c \<in> set sep \<or> (\<exists>x \<in> set xs. c \<in> set x)"
  by (induction xs rule: induct_list012) auto

lemma set_dec_of_int: "c \<in> set (dec_of_int i) \<Longrightarrow> 32 \<le> (of_char c :: nat)"
  by (auto simp: dec_of_int_def is_digit_def split: if_splits dest!: dec_of_nat_digits)

lemma json_print_printable: "wf_json v \<Longrightarrow> c \<in> set (json_print v) \<Longrightarrow> 32 \<le> (of_char c :: nat)"
proof (induction v)
  case (JStr s)
  then show ?case by (simp add: set_json_quote)
next
  case (JNum x)
  then show ?case by (simp add: number_chars number_char_32)
next
  case (JArr vs)
  then show ?case by (auto simp: list_all_iff dest!: set_join)
next
  case (JObj ms)
  then show ?case
    by (auto simp: list_all_iff dest!: set_join set_json_quote) force
qed (auto split: if_splits)

lemma json_print_no_newline: "wf_json v \<Longrightarrow> CHR 0x0A \<notin> set (json_print v)"
  using json_print_printable by fastforce

subsection \<open>What was parsed prints back\<close>

lemma json_value_wf:
  "json_value n s = Some (v, r) \<Longrightarrow> wf_json v"
  "json_elems n s = Some (vs, r) \<Longrightarrow> list_all wf_json vs"
  "json_members n s = Some (ms, r) \<Longrightarrow> list_all (\<lambda>(k, v). wf_json v) ms"
proof (induction n s and n s and n s arbitrary: v r and vs r and ms r
    rule: json_value_json_elems_json_members.induct)
  case (2 n s)
  then show ?case
    by (cases "skip_ws s") (auto split: list.splits if_splits dest: json_num_number)
next
  case (4 n s)
  then show ?case by (auto split: option.splits list.splits if_splits)
next
  case (6 n s)
  then show ?case by (auto split: option.splits list.splits if_splits)
qed auto

lemma json_parse_wf: "json_parse s = Some v \<Longrightarrow> wf_json v"
  by (auto simp: json_parse_def dest: json_value_wf(1) split: option.splits if_splits)

lemma insert_member_all: "P m \<Longrightarrow> list_all P ms \<Longrightarrow> list_all P (insert_member m ms)"
  by (induction ms) auto

lemma sort_members_all: "list_all P ms \<Longrightarrow> list_all P (sort_members ms)"
proof -
  have "list_all P acc \<Longrightarrow> list_all P ms \<Longrightarrow> list_all P (foldl (\<lambda>acc m. insert_member m acc) acc ms)" for acc
    by (induction ms arbitrary: acc) (auto intro: insert_member_all)
  then show "list_all P ms \<Longrightarrow> list_all P (sort_members ms)" by (simp add: sort_members_def)
qed

lemma wf_json_canon: "wf_json v \<Longrightarrow> wf_json (canon v)"
proof (induction v)
  case (JObj ms)
  then have "list_all (\<lambda>(k, v). wf_json v) (map (\<lambda>(k, v). (k, canon v)) ms)"
    by (auto simp: list_all_iff)
  then show ?case by (simp add: sort_members_all)
qed (auto simp: list_all_iff)

end
