(* ===== verification/Sessions.thy ===== *)
theory Sessions
  imports Backend Go_JSON_Roundtrip
begin

text \<open>
  Conversation history in Redis: \<open>internal/memory/session_types.go\<close>, \<open>session.go\<close> and
  \<open>history_manager.go\<close>.

  Redis is a parameter: a record of the client calls this code makes. What the code relies on is
  \<open>redis_lists\<close>, the documented effect of the list commands on the lists stored.
\<close>

datatype redis_cmd =
    RPush string string
  | LTrim string int int
  | Expire string int
  | HSet string string string
  | Del "string list"

record 'w redis =
  pipelined :: "redis_cmd list \<Rightarrow> 'w \<Rightarrow> goerr option \<times> 'w"
  lrange :: "string \<Rightarrow> int \<Rightarrow> int \<Rightarrow> 'w \<Rightarrow> string list result \<times> 'w"
  del :: "string list \<Rightarrow> 'w \<Rightarrow> goerr option \<times> 'w"
  setnx :: "string \<Rightarrow> string \<Rightarrow> int \<Rightarrow> 'w \<Rightarrow> bool result \<times> 'w"
  exists :: "string \<Rightarrow> 'w \<Rightarrow> int result \<times> 'w"

text \<open>The elements from \<open>start\<close> to \<open>stop\<close>, both included; a negative index counts from the end.\<close>

definition redis_range :: "int \<Rightarrow> int \<Rightarrow> 'a list \<Rightarrow> 'a list" where
  "redis_range start stop xs =
     (let n = int (length xs);
          a = max 0 (if start < 0 then n + start else start);
          b = (if stop < 0 then n + stop else stop)
      in take (nat (b - a + 1)) (drop (nat a) xs))"

fun list_effect :: "redis_cmd \<Rightarrow> (string \<Rightarrow> string list) \<Rightarrow> string \<Rightarrow> string list" where
  "list_effect (RPush k v) L = L(k := L k @ [v])"
| "list_effect (LTrim k i j) L = L(k := redis_range i j (L k))"
| "list_effect (Del ks) L = (\<lambda>k. if k \<in> set ks then [] else L k)"
| "list_effect _ L = L"

definition redis_lists :: "'w redis \<Rightarrow> ('w \<Rightarrow> string \<Rightarrow> string list) \<Rightarrow> bool" where
  "redis_lists R stored \<longleftrightarrow>
     (\<forall>cmds w w'. pipelined R cmds w = (None, w') \<longrightarrow> stored w' = fold list_effect cmds (stored w))
     \<and> (\<forall>k i j w xs w'. lrange R k i j w = (Inr xs, w') \<longrightarrow> xs = redis_range i j (stored w k) \<and> stored w' = stored w)
     \<and> (\<forall>ks w w'. del R ks w = (None, w') \<longrightarrow> stored w' = list_effect (Del ks) (stored w))"

section \<open>Messages\<close>

record mem_message =
  MRole :: string
  MContent :: string
  MTimestamp :: int

definition hour :: int where
  "hour = 3600 * 1000000000"

definition SessionTTL :: int where
  "SessionTTL = 24 * hour"

definition SessionMaxMsgs :: int where
  "SessionMaxMsgs = 200"

definition session_list_key :: "string \<Rightarrow> string" where
  "session_list_key sid = ''caw:session:'' @ sid @ '':messages''"

definition session_meta_key :: "string \<Rightarrow> string" where
  "session_meta_key sid = ''caw:session:'' @ sid @ '':meta''"

definition marshal_message :: "mem_message \<Rightarrow> string" where
  "marshal_message m = json_print (JObj ([(''role'', JStr (MRole m)), (''content'', JStr (MContent m))]
     @ (if MTimestamp m = 0 then [] else [(''ts'', JInt (MTimestamp m))])))"

definition unmarshal_message :: "string \<Rightarrow> mem_message result" where
  "unmarshal_message s =
     (case json_parse s of None \<Rightarrow> Inl ErrJSONSyntax
      | Some v \<Rightarrow> result_bind (as_obj v) (\<lambda>ms. result_bind (str_field ''role'' ms) (\<lambda>r.
          result_bind (str_field ''content'' ms) (\<lambda>c. result_bind (int_field ''ts'' ms) (\<lambda>t.
            Inr \<lparr>MRole = r, MContent = c, MTimestamp = t\<rparr>)))))"

section \<open>The session store\<close>

definition SaveMessage :: "'w redis \<Rightarrow> string \<Rightarrow> mem_message \<Rightarrow> 'w \<Rightarrow> goerr option \<times> 'w" where
  "SaveMessage R sid m =
     pipelined R
       [RPush (session_list_key sid) (marshal_message m),
        LTrim (session_list_key sid) (- SessionMaxMsgs) (- 1),
        Expire (session_list_key sid) SessionTTL,
        HSet (session_meta_key sid) ''session_id'' sid,
        Expire (session_meta_key sid) SessionTTL]"

definition LoadHistory :: "'w redis \<Rightarrow> string \<Rightarrow> 'w \<Rightarrow> mem_message list result \<times> 'w" where
  "LoadHistory R sid w =
     (case lrange R (session_list_key sid) 0 (- 1) w of
        (Inl e, w1) \<Rightarrow> (Inl (''lrange session history: '' @ e), w1)
      | (Inr raw, w1) \<Rightarrow>
          (case traverse unmarshal_message raw of
             Inl e \<Rightarrow> (Inl (''unmarshal message: '' @ e), w1)
           | Inr msgs \<Rightarrow> (Inr msgs, w1)))"

definition DeleteSession :: "'w redis \<Rightarrow> string \<Rightarrow> 'w \<Rightarrow> goerr option \<times> 'w" where
  "DeleteSession R sid = del R [session_list_key sid, session_meta_key sid]"

definition TouchSession :: "'w redis \<Rightarrow> string \<Rightarrow> 'w \<Rightarrow> goerr option \<times> 'w" where
  "TouchSession R sid =
     pipelined R [Expire (session_list_key sid) SessionTTL, Expire (session_meta_key sid) SessionTTL]"

section \<open>The history manager\<close>

definition tokenBudget :: int where
  "tokenBudget = 2000"

definition EstimateTokens :: "string \<Rightarrow> int" where
  "EstimateTokens t = int (length t) div 4"

definition history_tokens :: "mem_message list \<Rightarrow> int" where
  "history_tokens h = sum_list (map (\<lambda>m. EstimateTokens (MRole m @ MContent m)) h)"

definition summary_request :: generate_request where
  "summary_request = gen_request [] [msg ''user''
     ''Summarize the conversation state into a compact JSON object preserving key facts, decisions, and unresolved questions.'']"

definition summary_content :: "generate_response \<Rightarrow> string" where
  "summary_content resp = (case Choices resp of [] \<Rightarrow> [] | c # _ \<Rightarrow> Content (Message c))"

definition LoadAndTrim ::
  "'w redis \<Rightarrow> ('w \<Rightarrow> int) \<Rightarrow> 'w generate \<Rightarrow> string \<Rightarrow> ('w, mem_message list result) prog" where
  "LoadAndTrim R unix_now gen sid =
     gbind (grun (LoadHistory R sid)) (\<lambda>r. case r of
        Inl e \<Rightarrow> gret (Inl e)
      | Inr history \<Rightarrow>
        if history_tokens history \<le> tokenBudget then gret (Inr history)
        else gbind (gen summary_request) (\<lambda>r2. case r2 of
          Inl e \<Rightarrow> gret (Inl e)
        | Inr resp \<Rightarrow>
          gbind (grun (\<lambda>w. (unix_now w, w))) (\<lambda>now.
            let summary = \<lparr>MRole = ''system'', MContent = summary_content resp, MTimestamp = now\<rparr>
            in gbind (grun (DeleteSession R sid)) (\<lambda>e1. case e1 of
                 Some e \<Rightarrow> gret (Inl e)
               | None \<Rightarrow> gbind (grun (SaveMessage R sid summary)) (\<lambda>e2. case e2 of
                   Some e \<Rightarrow> gret (Inl e)
                 | None \<Rightarrow> gret (Inr [summary]))))))"

section \<open>Lemmas\<close>

definition int64 :: "int \<Rightarrow> bool" where
  "int64 i \<longleftrightarrow> - (2 ^ 63) \<le> i \<and> i < 2 ^ 63"

lemma jm_message:
  "jmatches ''role'' ([(''role'', a), (''content'', b)] @ t) = a # jmatches ''role'' t"
  "jmatches ''content'' ([(''role'', a), (''content'', b)] @ t) = b # jmatches ''content'' t"
  "jmatches ''ts'' ([(''role'', a), (''content'', b)] @ t) = jmatches ''ts'' t"
  "jmatches ''role'' [(''ts'', c)] = []" "jmatches ''content'' [(''ts'', c)] = []"
  "jmatches ''ts'' [(''ts'', c)] = [c]" "jmatches k [] = []"
  by (simp_all add: jmatches_def)

lemma marshal_roundtrip:
  assumes "int64 (MTimestamp m)"
  shows "unmarshal_message (marshal_message m) = Inr m"
proof -
  let ?t = "if MTimestamp m = 0 then [] else [(''ts'', JInt (MTimestamp m))]"
  let ?ms = "[(''role'', JStr (MRole m)), (''content'', JStr (MContent m))] @ ?t"
  have "json_parse (marshal_message m) = Some (JObj ?ms)"
    unfolding marshal_message_def by (rule json_parse_print) auto
  moreover have "str_field ''role'' ?ms = Inr (MRole m)"
    unfolding str_field_def jm_message by (simp add: jm_message as_str_def)
  moreover have "str_field ''content'' ?ms = Inr (MContent m)"
    unfolding str_field_def jm_message by (simp add: jm_message as_str_def)
  moreover have "int_field ''ts'' ?ms = Inr (MTimestamp m)"
    using assms unfolding int_field_def jm_message
    by (simp add: jm_message as_int_def int_literal_dec int64_def)
  ultimately show ?thesis
    by (simp add: unmarshal_message_def as_obj_def del: append.simps)
qed

lemma traverse_map:
  "(\<And>x. x \<in> set xs \<Longrightarrow> f (g x) = Inr x) \<Longrightarrow> traverse f (map g xs) = Inr xs"
  by (induction xs) simp_all

definition last_n :: "nat \<Rightarrow> 'a list \<Rightarrow> 'a list" where
  "last_n n xs = drop (length xs - n) xs"

lemma redis_range_all [simp]: "redis_range 0 (- 1) xs = xs"
  by (simp add: redis_range_def)

lemma redis_range_last: "redis_range (- SessionMaxMsgs) (- 1) xs = last_n 200 xs"
  by (simp add: redis_range_def last_n_def SessionMaxMsgs_def Let_def nat_diff_distrib' of_nat_diff max_def)

lemma last_n_snoc: "0 < n \<Longrightarrow> last_n n (last_n n xs @ [x]) = last_n n (xs @ [x])"
proof -
  assume "0 < n"
  show ?thesis
  proof (cases "n \<le> length xs")
    case True
    then have "Suc (length xs) - (length xs - n + n) + (length xs - n) = Suc (length xs) - n" by simp
    with \<open>0 < n\<close> True show ?thesis by (auto simp: last_n_def)
  next
    case False
    then show ?thesis by (simp add: last_n_def)
  qed
qed

lemma last_n_map: "last_n n (map f xs) = map f (last_n n xs)"
  by (simp add: last_n_def drop_map)

lemma set_last_n: "x \<in> set (last_n n xs) \<Longrightarrow> x \<in> set xs"
  by (simp add: last_n_def in_set_dropD)

lemma save_lists:
  assumes "redis_lists R stored" and "SaveMessage R sid m w = (None, w')"
  shows "stored w' = (stored w)(session_list_key sid :=
    last_n 200 (stored w (session_list_key sid) @ [marshal_message m]))"
  using assms unfolding redis_lists_def SaveMessage_def
  by (fastforce simp: redis_range_last)

lemma load_lists:
  assumes "redis_lists R stored" and "LoadHistory R sid w = (Inr h, w')"
  shows "traverse unmarshal_message (stored w (session_list_key sid)) = Inr h \<and> stored w' = stored w"
  using assms unfolding redis_lists_def LoadHistory_def
  by (auto split: prod.splits sum.splits) (metis redis_range_all)+

lemma delete_lists:
  assumes "redis_lists R stored" and "DeleteSession R sid w = (None, w')"
  shows "stored w' (session_list_key sid) = []"
  using assms unfolding redis_lists_def DeleteSession_def by fastforce

text \<open>Saving messages one after the other, if no call fails.\<close>

fun save_all :: "'w redis \<Rightarrow> string \<Rightarrow> mem_message list \<Rightarrow> 'w \<Rightarrow> 'w option" where
  "save_all R sid [] w = Some w"
| "save_all R sid (m # ms) w =
     (case SaveMessage R sid m w of (None, w') \<Rightarrow> save_all R sid ms w' | (Some _, _) \<Rightarrow> None)"

lemma save_all_lists:
  assumes R: "redis_lists R stored"
  shows "save_all R sid ms w = Some w' \<Longrightarrow> stored w (session_list_key sid) = last_n 200 old \<Longrightarrow>
    stored w' (session_list_key sid) = last_n 200 (old @ map marshal_message ms)"
proof (induction ms arbitrary: w old)
  case Nil
  then show ?case by simp
next
  case (Cons m ms)
  from Cons.prems obtain w1 where w1: "SaveMessage R sid m w = (None, w1)" "save_all R sid ms w1 = Some w'"
    by (auto split: prod.splits option.splits)
  from save_lists [OF R w1(1)] Cons.prems
  have "stored w1 (session_list_key sid) = last_n 200 (old @ [marshal_message m])"
    by (simp add: last_n_snoc)
  from Cons.IH [OF w1(2) this] show ?case by simp
qed

text \<open>A Redis that keeps lists in memory and never fails, on which the properties are evaluated.\<close>

definition mem_redis :: "(string \<Rightarrow> string list) redis" where
  "mem_redis = \<lparr>
     pipelined = (\<lambda>cmds w. (None, fold list_effect cmds w)),
     lrange = (\<lambda>k i j w. (Inr (redis_range i j (w k)), w)),
     del = (\<lambda>ks w. (None, list_effect (Del ks) w)),
     setnx = (\<lambda>k v ttl w. if w k = [] then (Inr True, w(k := [v])) else (Inr False, w)),
     exists = (\<lambda>k w. (Inr (if w k = [] then 0 else 1), w))\<rparr>"

lemma mem_redis_lists: "redis_lists mem_redis (\<lambda>w. w)"
  by (auto simp: redis_lists_def mem_redis_def)

section \<open>Properties\<close>

text \<open>
  C4. Messages saved one after the other are loaded back in the order they were saved, byte for
  byte, and at most the last 200 of them: the JSON encoding loses nothing and the trim keeps the
  newest ones.
\<close>

theorem session_roundtrip:
  assumes "redis_lists R stored" and "stored w (session_list_key sid) = []"
    and "\<forall>m \<in> set ms. int64 (MTimestamp m)" and "save_all R sid ms w = Some w'"
    and "lrange R (session_list_key sid) 0 (- 1) w' = (Inr raw, w'')"
  shows "LoadHistory R sid w' = (Inr (last_n 200 ms), w'')"
proof -
  have "stored w (session_list_key sid) = last_n 200 []"
    using assms(2) by (simp add: last_n_def)
  from save_all_lists [OF assms(1,4) this]
  have stored: "stored w' (session_list_key sid) = map marshal_message (last_n 200 ms)"
    by (simp only: append_Nil last_n_map)
  have "raw = redis_range 0 (- 1) (stored w' (session_list_key sid))"
    using assms(1,5) unfolding redis_lists_def by blast
  then have raw: "raw = map marshal_message (last_n 200 ms)"
    by (simp only: stored redis_range_all)
  have ok: "unmarshal_message (marshal_message m) = Inr m" if "m \<in> set (last_n 200 ms)" for m
    using assms(3) set_last_n [OF that] by (intro marshal_roundtrip) (rule bspec)
  have "traverse unmarshal_message raw = Inr (last_n 200 ms)"
    unfolding raw by (rule traverse_map) (rule ok)
  then show ?thesis by (simp only: LoadHistory_def assms(5) prod.case sum.case)
qed

lemma session_roundtrip_witness:
  "fst (LoadHistory mem_redis ''s'' (the (save_all mem_redis ''s''
     [\<lparr>MRole = ''user'', MContent = ''hi'', MTimestamp = 7\<rparr>, \<lparr>MRole = ''assistant'', MContent = ''yo'', MTimestamp = 0\<rparr>] (\<lambda>_. []))))
   = Inr [\<lparr>MRole = ''user'', MContent = ''hi'', MTimestamp = 7\<rparr>, \<lparr>MRole = ''assistant'', MContent = ''yo'', MTimestamp = 0\<rparr>]"
proof -
  let ?ms = "[\<lparr>MRole = ''user'', MContent = ''hi'', MTimestamp = 7\<rparr>, \<lparr>MRole = ''assistant'', MContent = ''yo'', MTimestamp = 0\<rparr>]"
  obtain w' where w': "save_all mem_redis ''s'' ?ms (\<lambda>_. []) = Some w'"
    by (simp add: SaveMessage_def mem_redis_def)
  have "LoadHistory mem_redis ''s'' w' = (Inr (last_n 200 ?ms), w')"
    by (rule session_roundtrip [OF mem_redis_lists _ _ w'])
      (auto simp: int64_def mem_redis_def)
  then show ?thesis unfolding w' by (simp add: last_n_def)
qed

text \<open>
  Over its token budget the history manager replaces a whole conversation by one system message,
  and the text of that message is the backend's answer to a request that contains nothing of the
  conversation: whatever was said is gone, from the result and from Redis.
\<close>

theorem history_summary_is_blind:
  assumes "redis_lists R stored" and "LoadHistory R sid w = (Inr h, w1)" and "tokenBudget < history_tokens h"
    and "gen summary_request w1 = (Ret (Inr resp), w2)"
    and "DeleteSession R sid w2 = (None, w3)"
    and "SaveMessage R sid \<lparr>MRole = ''system'', MContent = summary_content resp, MTimestamp = unix_now w2\<rparr> w3 = (None, w4)"
  shows "LoadAndTrim R unix_now gen sid w
      = (Ret (Inr [\<lparr>MRole = ''system'', MContent = summary_content resp, MTimestamp = unix_now w2\<rparr>]), w4)
    \<and> stored w4 (session_list_key sid)
      = [marshal_message \<lparr>MRole = ''system'', MContent = summary_content resp, MTimestamp = unix_now w2\<rparr>]"
proof -
  have "stored w3 (session_list_key sid) = []"
    by (rule delete_lists [OF assms(1,5)])
  with save_lists [OF assms(1,6)]
  have "stored w4 (session_list_key sid)
      = [marshal_message \<lparr>MRole = ''system'', MContent = summary_content resp, MTimestamp = unix_now w2\<rparr>]"
    by (simp add: last_n_def)
  with assms(2-6) show ?thesis by (simp add: LoadAndTrim_def Let_def)
qed

definition long_history :: "string \<Rightarrow> string list" where
  "long_history k = (if k = session_list_key ''s''
     then [marshal_message \<lparr>MRole = ''user'', MContent = replicate 8010 CHR ''a'', MTimestamp = 0\<rparr>] else [])"

lemma history_summary_is_blind_witness:
  "\<exists>w4. LoadAndTrim mem_redis (\<lambda>_. 5) (mock_Generate None) ''s'' long_history
     = (Ret (Inr [\<lparr>MRole = ''system'', MContent = ''mock response'', MTimestamp = 5\<rparr>]), w4)"
proof -
  let ?h = "[\<lparr>MRole = ''user'', MContent = replicate 8010 CHR ''a'', MTimestamp = 0\<rparr>]"
  have load: "LoadHistory mem_redis ''s'' long_history = (Inr ?h, long_history)"
  proof -
    have "unmarshal_message (marshal_message (hd ?h)) = Inr (hd ?h)"
      by (rule marshal_roundtrip) (simp add: int64_def)
    then show ?thesis
      by (simp add: LoadHistory_def mem_redis_def long_history_def)
  qed
  have budget: "tokenBudget < history_tokens ?h"
    by (simp add: tokenBudget_def history_tokens_def EstimateTokens_def)
  obtain resp where gen: "mock_Generate None summary_request long_history = (Ret (Inr resp), long_history)"
    and resp: "summary_content resp = ''mock response''"
    by (simp add: mock_Generate_def summary_content_def)
  have d: "DeleteSession mem_redis ''s'' long_history
      = (None, list_effect (Del [session_list_key ''s'', session_meta_key ''s'']) long_history)"
    by (simp add: DeleteSession_def mem_redis_def)
  obtain w4 where s: "SaveMessage mem_redis ''s'' \<lparr>MRole = ''system'', MContent = summary_content resp, MTimestamp = 5\<rparr>
      (list_effect (Del [session_list_key ''s'', session_meta_key ''s'']) long_history) = (None, w4)"
    by (simp add: SaveMessage_def mem_redis_def)
  from history_summary_is_blind [where unix_now = "\<lambda>_. 5" and gen = "mock_Generate None", OF mem_redis_lists load budget gen d] s resp show ?thesis by auto
qed

end
