(* ===== verification/Task_Planner.thy ===== *)
theory Task_Planner
  imports Backend
begin

text \<open>
  Intent classification and chain-of-thought (\<open>internal/orchestration/task_planner.go\<close>), the
  plan-execute-verify machine (\<open>pev.go\<close>) and the output formatter (\<open>output_formatter.go\<close>), over the
  types of \<open>types.go\<close>. A component is a program over the backend's \<open>Generate\<close>.
\<close>

datatype intent =
  IntentSimpleGenerate | IntentStructuredOutput | IntentAgentLoop | IntentRAGQuery
| IntentComplexReasoning | IntentCodeGeneration

record orchestration_request =
  SessionID :: string
  OMessages :: "message list"
  OModel :: string
  OStream :: bool
  ResponseFormat :: "string option"
  AgentMode :: bool
  RAGEnabled :: bool
  Domain :: string
  Critique :: bool
  RAGDegraded :: bool
  SideEffect :: bool
  CoTEnabled :: bool
  MaxCritique :: int

record orchestration_result =
  RContent :: string
  RIntent :: intent
  IntentFallback :: bool
  FormatError :: bool
  RRAGDegraded :: bool
  CritiqueApplied :: bool
  CritiqueRounds :: int
  CoTApplied :: bool
  CodeFeedback :: bool
  CritiqueScore :: int
  WebSearched :: bool
  PEVApplied :: bool
  PEVScore :: int

section \<open>Intent\<close>

definition complexitySignals :: "string list" where
  "complexitySignals = [
     ''design'', ''implement'', ''how to'', ''how do'', ''explain'', ''compare'',
     ''analyze'', ''analyse'', ''walk through'', ''step by step'', ''why does'',
     ''what is the difference'', ''trade-off'', ''trade off'', ''pros and cons'',
     ''architecture'', ''algorithm'', ''optimize'', ''debug'', ''refactor'']"

definition codeSignals :: "string list" where
  "codeSignals = [
     ''write a'', ''write the'', ''implement a'', ''implement the'',
     ''code for'', ''function that'', ''function to'', ''program that'',
     ''python'', ''golang'', ''go code'', ''javascript'', ''typescript'',
     ''sql query'', ''bash script'', ''dockerfile'', ''fix this code'',
     ''what's wrong with'', ''bug in'']"

fun lastUserMessage_rev :: "message list \<Rightarrow> string" where
  "lastUserMessage_rev [] = []"
| "lastUserMessage_rev (m # ms) = (if Role m = ''user'' then Content m else lastUserMessage_rev ms)"

definition lastUserMessage :: "message list \<Rightarrow> string" where
  "lastUserMessage ms = lastUserMessage_rev (rev ms)"

definition isCodeQuery :: "string \<Rightarrow> bool" where
  "isCodeQuery lower = list_ex (contains lower) codeSignals"

definition isComplexQuery :: "string \<Rightarrow> bool" where
  "isComplexQuery lower =
     (list_ex (contains lower) complexitySignals
      \<or> 2 \<le> count_char (CHR ''?'') lower + count_char (CHR ''.'') lower \<and> 120 < length lower)"

definition IsComplexQuery :: "string \<Rightarrow> bool" where
  "IsComplexQuery t = isComplexQuery (to_lower t)"

definition IsCodeQuery :: "string \<Rightarrow> bool" where
  "IsCodeQuery t = isCodeQuery (to_lower t)"

definition ClassifyIntent :: "orchestration_request \<Rightarrow> intent \<times> bool" where
  "ClassifyIntent req =
     (if AgentMode req then (IntentAgentLoop, False)
      else if RAGEnabled req \<and> Domain req \<noteq> [] then (IntentRAGQuery, False)
      else if ResponseFormat req = Some ''json_object'' then (IntentStructuredOutput, False)
      else if CoTEnabled req then (IntentComplexReasoning, False)
      else if OMessages req \<noteq> [] then
        (let lower = to_lower (lastUserMessage (OMessages req))
         in if isCodeQuery lower then (IntentCodeGeneration, False)
            else if isComplexQuery lower then (IntentComplexReasoning, False)
            else (IntentSimpleGenerate, False))
      else (IntentSimpleGenerate, True))"

section \<open>Chain of thought\<close>

definition cot_system :: string where
  "cot_system = ''You are a careful, methodical reasoner. When given a question:\<newline>''
     @ ''1. Break it into clear sub-problems.\<newline>''
     @ ''2. Solve each sub-problem step by step, showing your work.\<newline>''
     @ ''3. Check each step for errors before moving on.\<newline>''
     @ ''Think out loud '' @ em_dash @ '' your reasoning will be used to generate a final answer.''"

definition buildCoTMessages :: "message list \<Rightarrow> message list" where
  "buildCoTMessages ms = msg ''system'' cot_system # filter (\<lambda>m. Role m \<noteq> ''system'') ms"

definition synth_prompt :: "string \<Rightarrow> string" where
  "synth_prompt reasoning =
     ''Based on the following reasoning, provide a clear, concise, and complete final answer. ''
     @ ''Do not repeat the reasoning steps '' @ em_dash @ '' just the answer.\<newline>\<newline>Reasoning:\<newline>'' @ reasoning"

definition Decompose :: "'w generate \<Rightarrow> generate_request \<Rightarrow> ('w, string result) prog" where
  "Decompose gen req =
     gbind (ask gen (gen_request (Model req) (buildCoTMessages (Messages req)))) (\<lambda>r. case r of
        Inl e \<Rightarrow> gret (Inl (''cot reasoning phase: '' @ e))
      | Inr reasoning \<Rightarrow>
        gbind (ask gen (gen_request (Model req) [msg ''user'' (synth_prompt reasoning)])) (\<lambda>r2. case r2 of
           Inl e \<Rightarrow> gret (Inr reasoning)
         | Inr answer \<Rightarrow> gret (Inr answer)))"

section \<open>Plan, execute, verify\<close>

definition pevMaxPlanRetries :: nat where
  "pevMaxPlanRetries = 2"

definition containsRawCode :: "string \<Rightarrow> bool" where
  "containsRawCode s =
     (contains s ''```'' \<or> contains s ''func '' \<or> contains s ''def '' \<or> contains s ''class '')"

text \<open>From the first opening brace to the last closing brace, if they come in this order.\<close>

definition extractJSONObject :: "string \<Rightarrow> string" where
  "extractJSONObject s0 =
     (let s = trim_space s0
      in case index_of s [CHR 0x7B] of
           None \<Rightarrow> s
         | Some start \<Rightarrow>
           (case last_index_of s [CHR 0x7D] of
              None \<Rightarrow> s
            | Some e \<Rightarrow> if start < e then take (e + 1 - start) (drop start s) else s))"

definition plan_instruction :: string where
  "plan_instruction = ''Output ONLY a JSON plan object with key 'steps' (array of strings). Do not include code.''"

definition plan_correction :: string where
  "plan_correction = ''That contained code. Output ONLY a JSON plan object with key 'steps' (array of strings). No code.''"

definition parse_plan :: "string \<Rightarrow> string list result" where
  "parse_plan raw =
     (case json_parse (extractJSONObject raw) of
        None \<Rightarrow> Inl (''pev plan parse: '' @ ErrJSONSyntax)
      | Some v \<Rightarrow>
        (case result_bind (as_obj v) (list_field as_str ''steps'') of
           Inl e \<Rightarrow> Inl (''pev plan parse: '' @ e)
         | Inr [] \<Rightarrow> Inl ''pev plan: no steps returned''
         | Inr (s # ss) \<Rightarrow> Inr (s # ss)))"

text \<open>The planning loop; \<open>left\<close> counts the retries that are left.\<close>

fun plan_loop :: "'w generate \<Rightarrow> string \<Rightarrow> nat \<Rightarrow> message list \<Rightarrow> ('w, string list result) prog" where
  "plan_loop gen model left ms =
     gbind (ask gen (gen_request model ms)) (\<lambda>r. case r of
        Inl e \<Rightarrow> gret (Inl (''pev plan generate: '' @ e))
      | Inr raw \<Rightarrow>
        if containsRawCode raw then
          (case left of
             Suc n \<Rightarrow> plan_loop gen model n (ms @ [msg ''assistant'' raw, msg ''user'' plan_correction])
           | 0 \<Rightarrow> gret (Inl (''pev plan: raw code detected after '' @ dec_of_nat pevMaxPlanRetries @ '' retries'')))
        else gret (parse_plan raw))"

declare plan_loop.simps [simp del]

definition runPlanPhase :: "'w generate \<Rightarrow> generate_request \<Rightarrow> ('w, string list result) prog" where
  "runPlanPhase gen req =
     plan_loop gen (Model req) pevMaxPlanRetries (Messages req @ [msg ''user'' plan_instruction])"

text \<open>One call per step, joined by blank lines; the first failure ends the phase.\<close>

fun execute_steps :: "'w generate \<Rightarrow> generate_request \<Rightarrow> string list \<Rightarrow> ('w, string list result) prog" where
  "execute_steps gen req [] = gret (Inr [])"
| "execute_steps gen req (step # steps) =
     gbind (ask gen (gen_request (Model req) (Messages req @ [msg ''user'' step]))) (\<lambda>r. case r of
        Inl e \<Rightarrow> gret (Inl (''pev execute step '' @ go_quote step @ '': '' @ e))
      | Inr part \<Rightarrow> gbind (execute_steps gen req steps) (\<lambda>r2. case r2 of
           Inl e \<Rightarrow> gret (Inl e)
         | Inr parts \<Rightarrow> gret (Inr (part # parts))))"

definition runExecutePhase :: "'w generate \<Rightarrow> generate_request \<Rightarrow> string list \<Rightarrow> ('w, string result) prog" where
  "runExecutePhase gen req steps =
     gbind (execute_steps gen req steps) (\<lambda>r. case r of
        Inl e \<Rightarrow> gret (Inl e)
      | Inr parts \<Rightarrow> gret (Inr (join ''\<newline>\<newline>'' parts)))"

definition verify_prompt :: "string \<Rightarrow> string \<Rightarrow> string" where
  "verify_prompt original content =
     ''On a scale 1-10, does the following output correctly address the original request?\<newline>''
     @ ''Output JSON: {\"score\": N, \"verdict\": \"...\"}\<newline>\<newline>''
     @ ''Original request: '' @ original @ ''\<newline>\<newline>Output:\<newline>'' @ content"

definition parse_verdict :: "string \<Rightarrow> int result" where
  "parse_verdict raw =
     (case json_parse (extractJSONObject raw) of
        None \<Rightarrow> Inl (''pev verify parse: '' @ ErrJSONSyntax)
      | Some v \<Rightarrow>
        (case result_bind (as_obj v) (\<lambda>ms. result_bind (int_field ''score'' ms) (\<lambda>i.
                result_bind (str_field ''verdict'' ms) (\<lambda>_. Inr i))) of
           Inl e \<Rightarrow> Inl (''pev verify parse: '' @ e) | Inr i \<Rightarrow> Inr i))"

definition runVerifyPhase :: "'w generate \<Rightarrow> generate_request \<Rightarrow> string \<Rightarrow> ('w, int result) prog" where
  "runVerifyPhase gen req content =
     gbind (ask gen (gen_request (Model req)
         [msg ''user'' (verify_prompt (lastUserMessage (Messages req)) content)])) (\<lambda>r. case r of
        Inl e \<Rightarrow> gret (Inl (''pev verify: '' @ e))
      | Inr raw \<Rightarrow> gret (parse_verdict raw))"

definition pev_Run :: "'w generate \<Rightarrow> generate_request \<Rightarrow> ('w, (string \<times> int) result) prog" where
  "pev_Run gen req =
     gbind (runPlanPhase gen req) (\<lambda>p. case p of
        Inl _ \<Rightarrow> gbind (ask gen req) (\<lambda>r. case r of
            Inl e \<Rightarrow> gret (Inl (''pev fallback generate: '' @ e))
          | Inr content \<Rightarrow> gret (Inr (content, 0)))
      | Inr steps \<Rightarrow> gbind (runExecutePhase gen req steps) (\<lambda>r. case r of
            Inl e \<Rightarrow> gret (Inl (''pev execute: '' @ e))
          | Inr content \<Rightarrow> gbind (runVerifyPhase gen req content) (\<lambda>v. case v of
              Inl _ \<Rightarrow> gret (Inr (content, 0))
            | Inr score \<Rightarrow> gret (Inr (content, score)))))"

section \<open>Output formatting\<close>

definition isValidJSON :: "string \<Rightarrow> bool" where
  "isValidJSON s = (json_parse (trim_space s) \<noteq> None)"

definition correction_text :: "string \<Rightarrow> string" where
  "correction_text bad =
     ''Your previous response was not valid JSON. Please respond with ONLY valid JSON, no explanation:\<newline>'' @ bad"

definition buildCorrectionPrompt :: "generate_request \<Rightarrow> string \<Rightarrow> generate_request" where
  "buildCorrectionPrompt original bad =
     (gen_request (Model original)
        (Messages original @ [msg ''assistant'' bad, msg ''user'' (correction_text bad)]))\<lparr>Format := ''json''\<rparr>"

text \<open>
  The result is (content, formatError). The code also sets \<open>req.Format\<close> through the caller's
  pointer, which no caller reads afterwards.
\<close>

definition Format_output :: "'w generate \<Rightarrow> generate_request \<Rightarrow> intent \<Rightarrow> ('w, (string \<times> bool) result) prog" where
  "Format_output gen req i =
     (if i \<noteq> IntentStructuredOutput then
        gbind (ask gen req) (\<lambda>r. case r of
           Inl e \<Rightarrow> gret (Inl e) | Inr content \<Rightarrow> gret (Inr (content, False)))
      else
        let req1 = req\<lparr>Format := ''json''\<rparr>
        in gbind (ask gen req1) (\<lambda>r. case r of
             Inl e \<Rightarrow> gret (Inl e)
           | Inr content \<Rightarrow>
             if isValidJSON content then gret (Inr (content, False))
             else gbind (ask gen (buildCorrectionPrompt req1 content)) (\<lambda>r2. case r2 of
               Inl e \<Rightarrow> gret (Inr (content, True))
             | Inr content2 \<Rightarrow> gret (Inr (content2, \<not> isValidJSON content2)))))"

section \<open>No component panics on a good backend\<close>

context inference_backend
begin

lemma safe_Decompose: "safe (Decompose Generate req) (\<lambda>_. True)"
  unfolding Decompose_def
  by (rule safe_gbind [OF safe_ask], rule safe_sum, rule safe_gret, simp,
      rule safe_gbind [OF safe_ask], rule safe_sum; rule safe_gret; simp)

lemma safe_plan_loop: "safe (plan_loop Generate model left ms) (\<lambda>_. True)"
proof (induction left arbitrary: ms)
  case 0
  show ?case
    by (subst plan_loop.simps) (auto intro!: safe_gbind [OF safe_ask] safe_sum safe_gret)
next
  case (Suc n)
  then show ?case
    by (subst plan_loop.simps) (auto intro!: safe_gbind [OF safe_ask] safe_sum safe_gret)
qed

lemma safe_execute_steps: "safe (execute_steps Generate req steps) (\<lambda>_. True)"
  by (induction steps)
    (auto intro!: safe_gret safe_gbind [OF safe_ask] safe_sum safe_gbind [where P = "\<lambda>_. True"])

lemma safe_runExecutePhase: "safe (runExecutePhase Generate req steps) (\<lambda>_. True)"
  unfolding runExecutePhase_def
  by (rule safe_gbind [OF safe_execute_steps]) (auto intro!: safe_sum safe_gret)

lemma safe_runVerifyPhase: "safe (runVerifyPhase Generate req content) (\<lambda>_. True)"
  unfolding runVerifyPhase_def
  by (rule safe_gbind [OF safe_ask]) (auto intro!: safe_sum safe_gret)

lemma safe_pev_Run: "safe (pev_Run Generate req) (\<lambda>_. True)"
  unfolding pev_Run_def runPlanPhase_def
  by (auto intro!: safe_gbind [OF safe_plan_loop] safe_gbind [OF safe_ask] safe_sum safe_gret
      safe_gbind [OF safe_runExecutePhase] safe_gbind [OF safe_runVerifyPhase])

lemma safe_Format_output: "safe (Format_output Generate req i) (\<lambda>_. True)"
  unfolding Format_output_def Let_def
  by (auto intro!: safe_gbind [OF safe_ask] safe_sum safe_gret)

end

section \<open>How many backend calls they make\<close>

text \<open>\<open>calls\<close> counts the backend calls in the world; one \<open>Generate\<close> makes at most one.\<close>

abbreviation counts :: "('w \<Rightarrow> nat) \<Rightarrow> 'w generate \<Rightarrow> bool" where
  "counts calls gen \<equiv> (\<forall>r. cost calls (Suc 0) (gen r))"

lemma cost_ask1: "counts calls gen \<Longrightarrow> cost calls (Suc 0) (ask gen req)"
  by (simp add: cost_ask)

lemma cost_ask_le: "counts calls gen \<Longrightarrow> 0 < n \<Longrightarrow> cost calls n (ask gen req)"
  by (rule cost_mono [OF cost_ask1]) simp_all

lemma cost_bind_ret:
  assumes "cost f k m" and "\<And>a. cost f 0 (g a)"
  shows "cost f k (gbind m g)"
  using cost_gbind [OF assms(1), of 0 g] assms(2) by simp

lemma cost_Decompose: "counts calls gen \<Longrightarrow> cost calls 2 (Decompose gen req)"
  unfolding Decompose_def
  by (rule cost_gbind_le [where j = "Suc 0" and k = "Suc 0", OF cost_ask1])
    (auto intro!: cost_sum cost_gret cost_bind_ret cost_ask1)

lemma cost_plan_loop: "counts calls gen \<Longrightarrow> cost calls (Suc left) (plan_loop gen model left ms)"
proof (induction left arbitrary: ms)
  case 0
  show ?case
    by (subst plan_loop.simps)
      (auto intro!: cost_bind_ret cost_ask1 [OF 0, simplified] cost_sum cost_gret)
next
  case (Suc n)
  then show ?case
    by (subst plan_loop.simps)
      (rule cost_gbind_le [where j = "Suc 0" and k = "Suc n", OF cost_ask1], auto intro!: cost_sum cost_gret)
qed

lemma cost_execute_steps: "counts calls gen \<Longrightarrow> cost calls (length steps) (execute_steps gen req steps)"
proof (induction steps)
  case Nil
  then show ?case by (simp add: cost_gret)
next
  case (Cons s ss)
  then show ?case
    by (simp, intro cost_gbind_le [where j = "Suc 0" and k = "length ss", OF cost_ask1])
      (auto intro!: cost_sum cost_gret cost_bind_ret)
qed

lemma cost_Format_output: "counts calls gen \<Longrightarrow> cost calls 2 (Format_output gen req i)"
  unfolding Format_output_def Let_def
proof (intro cost_if)
  assume gen: "counts calls gen"
  then show "cost calls 2 (gbind (ask gen req) (\<lambda>r. case r of
      Inl e \<Rightarrow> gret (Inl e) | Inr content \<Rightarrow> gret (Inr (content, False))))"
    by (auto intro!: cost_bind_ret cost_ask_le cost_sum cost_gret)
  show "cost calls 2 (gbind (ask gen (req\<lparr>Format := ''json''\<rparr>)) (\<lambda>r. case r of
      Inl e \<Rightarrow> gret (Inl e)
    | Inr content \<Rightarrow>
      if isValidJSON content then gret (Inr (content, False))
      else gbind (ask gen (buildCorrectionPrompt (req\<lparr>Format := ''json''\<rparr>) content)) (\<lambda>r2. case r2 of
          Inl e \<Rightarrow> gret (Inr (content, True))
        | Inr content2 \<Rightarrow> gret (Inr (content2, \<not> isValidJSON content2)))))"
    using gen
    by (intro cost_gbind_le [where j = "Suc 0" and k = "Suc 0"])
      (auto intro!: cost_bind_ret cost_ask1 cost_sum cost_if cost_gret)
qed

end
