(* ===== verification/Context_Manager.thy ===== *)
theory Context_Manager
  imports Sessions Task_Planner
begin

text \<open>
  The context manager (\<open>internal/orchestration/context_manager.go\<close>): it loads a session's history and
  compresses or truncates it when it is over the threshold, under a Redis lock.

  The clock and the pause of the polling loop are parameters. The loop of the code runs until its
  deadline; here it also has a number of polls, and \<open>poll_enough\<close> shows that 26 of them are never
  used up when a pause of 20 ms lets the clock advance by that much.
\<close>

record 'w timer =
  time_now :: "'w \<Rightarrow> int"
  sleep :: "int \<Rightarrow> 'w \<Rightarrow> 'w"

definition millisecond :: int where
  "millisecond = 1000000"

definition CompressionThreshold :: nat where
  "CompressionThreshold = 3000"

definition CompressionTarget :: nat where
  "CompressionTarget = 2500"

definition LockTTL :: int where
  "LockTTL = 2000 * millisecond"

definition LockWaitTimeout :: int where
  "LockWaitTimeout = 500 * millisecond"

definition max_polls :: nat where
  "max_polls = 26"

definition message_tokens :: "message \<Rightarrow> nat" where
  "message_tokens m = length (Go_Strings.fields (Content m))"

definition countTokens :: "message list \<Rightarrow> nat" where
  "countTokens ms = sum_list (map message_tokens ms)"

definition memoryToAdapter :: "mem_message list \<Rightarrow> message list" where
  "memoryToAdapter ms = map (\<lambda>m. msg (MRole m) (MContent m)) ms"

text \<open>
  The loop walks the messages from the newest to the oldest: \<open>truncate_loop target tot kept older\<close>
  has kept the messages \<open>kept\<close> of \<open>tot\<close> tokens and has \<open>older\<close>, newest first, before it.
\<close>

fun truncate_loop :: "nat \<Rightarrow> nat \<Rightarrow> message list \<Rightarrow> message list \<Rightarrow> message list" where
  "truncate_loop target tot kept [] = kept"
| "truncate_loop target tot kept (m # older) =
     (if target < tot + message_tokens m then kept
      else truncate_loop target (tot + message_tokens m) (m # kept) older)"

definition HardTruncate :: "message list \<Rightarrow> nat \<Rightarrow> message list" where
  "HardTruncate ms target = truncate_loop target 0 [] (rev ms)"

definition compress_prompt :: "message list \<Rightarrow> string" where
  "compress_prompt ms =
     ''Summarize this conversation concisely, preserving key facts and context:\<newline>\<newline>''
     @ concat (map (\<lambda>m. Role m @ '': '' @ Content m @ ''\<newline>'') ms)"

definition CompressHistory :: "'w generate \<Rightarrow> message list \<Rightarrow> ('w, message list result) prog" where
  "CompressHistory gen ms =
     gbind (ask gen (gen_request ''compression'' [msg ''user'' (compress_prompt ms)])) (\<lambda>r. case r of
        Inl e \<Rightarrow> gret (Inl (''compress: '' @ e))
      | Inr summary \<Rightarrow> gret (Inr [msg ''system'' summary]))"

definition writeBackHistory :: "'w redis \<Rightarrow> string \<Rightarrow> message list \<Rightarrow> 'w \<Rightarrow> goerr option \<times> 'w" where
  "writeBackHistory R sid ms =
     pipelined R ([Del [session_list_key sid]]
       @ map (\<lambda>m. RPush (session_list_key sid)
           (marshal_message \<lparr>MRole = Role m, MContent = Content m, MTimestamp = 0\<rparr>)) ms
       @ [Expire (session_list_key sid) SessionTTL])"

definition lock_key :: "string \<Rightarrow> string" where
  "lock_key sid = ''caw:compression:'' @ sid"

text \<open>
  The loser's wait: the history once the lock is gone, if it is then below the threshold.
\<close>

fun poll_lock ::
  "nat \<Rightarrow> 'w redis \<Rightarrow> 'w timer \<Rightarrow> string \<Rightarrow> int \<Rightarrow> 'w \<Rightarrow> message list option \<times> 'w" where
  "poll_lock 0 R tm sid deadline w = (None, w)"
| "poll_lock (Suc n) R tm sid deadline w =
     (if \<not> time_now tm w < deadline then (None, w)
      else let (ex, w1) = exists R (lock_key sid) w
           in if (case ex of Inl _ \<Rightarrow> True | Inr k \<Rightarrow> k = 0) then
                (case LoadHistory R sid w1 of
                   (Inl _, w2) \<Rightarrow> (None, w2)
                 | (Inr h, w2) \<Rightarrow>
                     if countTokens (memoryToAdapter h) < CompressionThreshold
                     then (Some (memoryToAdapter h), w2) else (None, w2))
              else poll_lock n R tm sid deadline (sleep tm (20 * millisecond) w1))"

text \<open>What the winner of the lock does, with the lock held; the lock is deleted on every path.\<close>

definition compress_locked ::
  "'w redis \<Rightarrow> 'w generate \<Rightarrow> string \<Rightarrow> message list \<Rightarrow> ('w, message list) prog" where
  "compress_locked R gen sid ms =
     gbind (grun (LoadHistory R sid)) (\<lambda>r.
       let fresh = (case r of Inl _ \<Rightarrow> ms | Inr h \<Rightarrow> memoryToAdapter h)
       in if (case r of Inl _ \<Rightarrow> False | Inr h \<Rightarrow> countTokens (memoryToAdapter h) < CompressionThreshold)
          then gbind (grun (del R [lock_key sid])) (\<lambda>_. gret fresh)
          else gbind (CompressHistory gen fresh) (\<lambda>c. case c of
                 Inl _ \<Rightarrow> gbind (grun (del R [lock_key sid])) (\<lambda>_. gret (HardTruncate fresh CompressionTarget))
               | Inr compressed \<Rightarrow>
                 gbind (grun (writeBackHistory R sid compressed)) (\<lambda>_.
                   gbind (grun (del R [lock_key sid])) (\<lambda>_. gret compressed))))"

definition LoadAndManage ::
  "nat \<Rightarrow> 'w redis \<Rightarrow> 'w timer \<Rightarrow> 'w generate \<Rightarrow> string \<Rightarrow> ('w, message list result) prog" where
  "LoadAndManage polls R tm gen sid =
     gbind (grun (LoadHistory R sid)) (\<lambda>r. case r of
        Inl e \<Rightarrow> gret (Inl (''load history: '' @ e))
      | Inr h \<Rightarrow>
        let ms = memoryToAdapter h
        in if countTokens ms < CompressionThreshold then gret (Inr ms)
           else gbind (grun (setnx R (lock_key sid) ''1'' LockTTL)) (\<lambda>a. case a of
                  Inl _ \<Rightarrow> gret (Inr (HardTruncate ms CompressionTarget))
                | Inr acquired \<Rightarrow>
                  if acquired then gbind (compress_locked R gen sid ms) (\<lambda>out. gret (Inr out))
                  else gbind (grun (\<lambda>w. poll_lock polls R tm sid (time_now tm w + LockWaitTimeout) w)) (\<lambda>p. case p of
                         Some out \<Rightarrow> gret (Inr out)
                       | None \<Rightarrow> gret (Inr (HardTruncate ms CompressionTarget)))))"

section \<open>Truncation\<close>

lemma countTokens_simps [simp]:
  "countTokens [] = 0" "countTokens (m # ms) = message_tokens m + countTokens ms"
  "countTokens (ms @ ns) = countTokens ms + countTokens ns" "countTokens (rev ms) = countTokens ms"
  by (simp_all add: countTokens_def flip: rev_map)

lemma truncate_loop_spec:
  "countTokens kept = tot \<Longrightarrow> tot \<le> target \<Longrightarrow>
   \<exists>dropped taken. older = taken @ dropped \<and> truncate_loop target tot kept older = rev taken @ kept
     \<and> countTokens (rev taken @ kept) \<le> target
     \<and> (dropped \<noteq> [] \<longrightarrow> target < countTokens (hd dropped # rev taken @ kept))"
proof (induction older arbitrary: kept tot)
  case Nil
  then show ?case by simp
next
  case (Cons m older)
  show ?case
  proof (cases "target < tot + message_tokens m")
    case True
    with Cons.prems show ?thesis
      by (intro exI [of _ "m # older"] exI [of _ "[]"]) (simp add: add.commute)
  next
    case False
    with Cons.IH [of "m # kept" "tot + message_tokens m"] Cons.prems
    obtain dropped taken where "older = taken @ dropped"
      "truncate_loop target (tot + message_tokens m) (m # kept) older = rev taken @ m # kept"
      "countTokens (rev taken @ m # kept) \<le> target"
      "dropped \<noteq> [] \<longrightarrow> target < countTokens (hd dropped # rev taken @ m # kept)"
      by auto
    with False show ?thesis
      by (intro exI [of _ dropped] exI [of _ "m # taken"]) simp
  qed
qed

lemma HardTruncate_spec:
  "\<exists>pre. ms = pre @ HardTruncate ms target \<and> countTokens (HardTruncate ms target) \<le> target
     \<and> (pre \<noteq> [] \<longrightarrow> target < countTokens (last pre # HardTruncate ms target))"
proof -
  have "countTokens [] = 0" and "0 \<le> target" by simp_all
  from truncate_loop_spec [OF this, of "rev ms"] obtain dropped taken
    where t: "rev ms = taken @ dropped" "HardTruncate ms target = rev taken"
      "countTokens (rev taken) \<le> target" "dropped \<noteq> [] \<longrightarrow> target < countTokens (hd dropped # rev taken)"
    unfolding append_Nil2 HardTruncate_def [symmetric] by (elim exE conjE)
  from t(1) have "ms = rev dropped @ rev taken" by (metis rev_append rev_rev_ident)
  with t show ?thesis by (intro exI [of _ "rev dropped"]) (simp add: last_rev)
qed

section \<open>The polling loop\<close>

text \<open>The clock never goes back, and a pause lets it advance by what was asked for.\<close>

definition clock_ok :: "'w redis \<Rightarrow> 'w timer \<Rightarrow> bool" where
  "clock_ok R tm \<longleftrightarrow> (\<forall>k w. time_now tm w \<le> time_now tm (snd (exists R k w)))
     \<and> (\<forall>d w. time_now tm w + d \<le> time_now tm (sleep tm d w))"

lemma poll_more:
  assumes ok: "clock_ok R tm"
  shows "deadline - time_now tm w \<le> int n * (20 * millisecond) \<Longrightarrow>
    poll_lock (Suc n + k) R tm sid deadline w = poll_lock (Suc n) R tm sid deadline w"
proof (induction n arbitrary: w)
  case 0
  then show ?case by simp
next
  case (Suc n)
  obtain ex w1 where e: "exists R (lock_key sid) w = (ex, w1)" by (cases "exists R (lock_key sid) w")
  have "time_now tm w \<le> time_now tm w1"
    using ok e unfolding clock_ok_def by (metis snd_conv)
  moreover have "time_now tm w1 + 20 * millisecond \<le> time_now tm (sleep tm (20 * millisecond) w1)"
    using ok unfolding clock_ok_def by blast
  moreover have "int (Suc n) * (20 * millisecond) = int n * (20 * millisecond) + 20 * millisecond"
    by (simp add: algebra_simps)
  ultimately have "deadline - time_now tm (sleep tm (20 * millisecond) w1) \<le> int n * (20 * millisecond)"
    using Suc.prems by linarith
  from Suc.IH [OF this] show ?case
    by (simp add: e del: poll_lock.simps(1))
qed

lemma poll_enough:
  assumes "clock_ok R tm"
  shows "poll_lock (max_polls + k) R tm sid (time_now tm w + LockWaitTimeout) w
       = poll_lock max_polls R tm sid (time_now tm w + LockWaitTimeout) w"
  using poll_more [OF assms, of "time_now tm w + LockWaitTimeout" w 25 k sid]
  by (simp add: max_polls_def LockWaitTimeout_def millisecond_def)

section \<open>What comes back\<close>

text \<open>
  Below the threshold the history itself; otherwise the newest messages of a history that fit the
  target, or the one message of a summary.
\<close>

definition managed :: "message list \<Rightarrow> bool" where
  "managed out \<longleftrightarrow> countTokens out < CompressionThreshold \<or> (\<exists>s. out = [msg ''system'' s])"

lemma managed_below: "countTokens out < CompressionThreshold \<Longrightarrow> managed out"
  by (simp add: managed_def)

lemma managed_HardTruncate: "managed (HardTruncate ms CompressionTarget)"
  using HardTruncate_spec [of ms CompressionTarget]
  by (auto simp: managed_def CompressionTarget_def CompressionThreshold_def)

lemma poll_lock_managed: "poll_lock n R tm sid deadline w = (Some out, w') \<Longrightarrow> managed out"
  by (induction n arbitrary: w)
    (auto simp: managed_def split: if_splits prod.splits sum.splits)

lemma fst_poll_lock_managed: "fst (poll_lock n R tm sid deadline w) = Some out \<Longrightarrow> managed out"
  by (cases "poll_lock n R tm sid deadline w") (simp add: poll_lock_managed)

context inference_backend
begin

lemma safe_CompressHistory:
  "safe (CompressHistory Generate ms) (\<lambda>r. case r of Inl _ \<Rightarrow> True | Inr out \<Rightarrow> managed out)"
  unfolding CompressHistory_def managed_def
  by (rule safe_gbind [OF safe_ask]) (auto intro!: safe_gret split: sum.splits)

lemma safe_compress_locked:
  "safe (compress_locked R Generate sid ms) managed"
proof -
  have fresh: "safe (gbind (CompressHistory Generate fresh) (\<lambda>c. case c of
        Inl _ \<Rightarrow> gbind (grun (del R [lock_key sid])) (\<lambda>_. gret (HardTruncate fresh CompressionTarget))
      | Inr compressed \<Rightarrow> gbind (grun (writeBackHistory R sid compressed)) (\<lambda>_.
          gbind (grun (del R [lock_key sid])) (\<lambda>_. gret compressed)))) managed" for fresh
    by (rule safe_gbind [OF safe_CompressHistory])
      (auto intro!: safe_gbind [where P = "\<lambda>_. True", OF safe_grun] safe_gret managed_HardTruncate
        split: sum.splits)
  show ?thesis
    unfolding compress_locked_def Let_def
    by (rule safe_gbind [where P = "\<lambda>_. True", OF safe_grun], simp, rule safe_if)
      (auto intro!: safe_gbind [where P = "\<lambda>_. True", OF safe_grun] safe_gret fresh
        simp: managed_def split: sum.splits)
qed

lemma safe_LoadAndManage:
  "safe (LoadAndManage polls R tm Generate sid) (\<lambda>r. case r of Inl _ \<Rightarrow> True | Inr out \<Rightarrow> managed out)"
proof -
  have lock: "safe (gbind (grun (\<lambda>w. poll_lock polls R tm sid (time_now tm w + LockWaitTimeout) w)) (\<lambda>p. case p of
      Some out \<Rightarrow> gret (Inr out) | None \<Rightarrow> gret (Inr (HardTruncate ms CompressionTarget))))
      (\<lambda>r. case r of Inl _ \<Rightarrow> True | Inr out \<Rightarrow> managed out)" for ms
    by (rule safe_gbind [where P = "\<lambda>p. \<forall>out. p = Some out \<longrightarrow> managed out", OF safe_grun])
      (auto dest: fst_poll_lock_managed intro!: safe_gret managed_HardTruncate split: option.splits)
  show ?thesis
    unfolding LoadAndManage_def Let_def
    by (rule safe_gbind [where P = "\<lambda>_. True", OF safe_grun], simp, rule safe_sum)
      (auto intro!: safe_gret safe_if safe_sum safe_gbind [where P = "\<lambda>_. True", OF safe_grun]
        safe_gbind [OF safe_compress_locked] lock managed_HardTruncate managed_below)
qed

end

section \<open>Properties\<close>

text \<open>
  C6. Hard truncation keeps a suffix of the conversation, so the newest messages in their order, of
  at most the target's tokens, and keeps as many as it can: with the message before the suffix the
  target would be exceeded.
\<close>

theorem hard_truncate_maximal_suffix:
  "\<exists>pre. ms = pre @ HardTruncate ms target \<and> countTokens (HardTruncate ms target) \<le> target
     \<and> (pre \<noteq> [] \<longrightarrow> target < countTokens (last pre # HardTruncate ms target))"
  by (rule HardTruncate_spec)

text \<open>A list that hard truncation cuts in the middle.\<close>

lemma hard_truncate_maximal_suffix_witness:
  "\<exists>pre. [msg ''user'' ''a b c'', msg ''user'' ''d e''] = pre @ HardTruncate [msg ''user'' ''a b c'', msg ''user'' ''d e''] 4
     \<and> pre \<noteq> [] \<and> 4 < countTokens (last pre # HardTruncate [msg ''user'' ''a b c'', msg ''user'' ''d e''] 4)"
proof -
  have "HardTruncate [msg ''user'' ''a b c'', msg ''user'' ''d e''] 4 = [msg ''user'' ''d e'']" by code_simp
  with hard_truncate_maximal_suffix [of "[msg ''user'' ''a b c'', msg ''user'' ''d e'']" 4] show ?thesis by auto
qed

text \<open>
  C5. Whatever Redis, the lock and the model do, a load that does not fail gives the generator a
  conversation below the compression threshold, or the single system message of a summary.
\<close>

theorem managed_context_is_small:
  assumes "\<And>req. safe (gen req) good_response"
  shows "safe (LoadAndManage polls R tm gen sid) (\<lambda>r. case r of Inl _ \<Rightarrow> True | Inr out \<Rightarrow> managed out)"
  by (rule inference_backend.safe_LoadAndManage [OF inference_backend.intro [OF assms]])

lemma managed_context_is_small_witness:
  "safe (LoadAndManage max_polls mem_redis \<lparr>time_now = (\<lambda>_. 0), sleep = (\<lambda>_ w. w)\<rparr> (mock_Generate None) ''s'')
     (\<lambda>r. case r of Inl _ \<Rightarrow> True | Inr out \<Rightarrow> managed out)"
  by (rule managed_context_is_small) (rule mock.generate_good)

text \<open>
  A loser of the compression lock waits at most 26 polls: with a clock that never goes back and
  pauses that last what they are asked to, more polls change nothing.
\<close>

theorem lock_wait_ends:
  assumes "clock_ok R tm"
  shows "poll_lock (max_polls + k) R tm sid (time_now tm w + LockWaitTimeout) w
       = poll_lock max_polls R tm sid (time_now tm w + LockWaitTimeout) w"
  by (rule poll_enough [OF assms])

definition tick_redis :: "int redis" where
  "tick_redis = \<lparr>pipelined = (\<lambda>_ w. (None, w)), lrange = (\<lambda>_ _ _ w. (Inr [], w)), del = (\<lambda>_ w. (None, w)),
     setnx = (\<lambda>_ _ _ w. (Inr False, w)), exists = (\<lambda>_ w. (Inr 1, w + 1))\<rparr>"

definition tick_timer :: "int timer" where
  "tick_timer = \<lparr>time_now = (\<lambda>w. w), sleep = (\<lambda>d w. w + d)\<rparr>"

lemma lock_wait_ends_witness:
  "poll_lock (max_polls + 4) tick_redis tick_timer ''s'' (time_now tick_timer 0 + LockWaitTimeout) 0
   = poll_lock max_polls tick_redis tick_timer ''s'' (time_now tick_timer 0 + LockWaitTimeout) 0"
  by (rule lock_wait_ends) (simp add: clock_ok_def tick_redis_def tick_timer_def)

end
