(* ===== verification/Go_Regexp.thy ===== *)
theory Go_Regexp
  imports Go_Strings
begin

text \<open>
  The part of Go's \<open>regexp\<close> package the gateway uses, with its leftmost-first semantics: of the
  matches that start at the leftmost position the one a backtracking search would find first is
  chosen. \<open>re_match r st\<close> lists all matches of \<open>r\<close> at \<open>st\<close> in that order. A state holds the text
  already passed (reversed), the text ahead and the captured groups.

  The iterations of a star are bounded by the text ahead, which each of them must consume some of.
\<close>

datatype re =
    REps
  | RSet "char \<Rightarrow> bool"
  | RSeq re re
  | RAlt re re
  | RStar bool re
  | RCap nat re
  | RBol
  | RBound

text \<open>A character of a word, \<open>\\w\<close>.\<close>

definition rword :: "char \<Rightarrow> bool" where
  "rword c \<longleftrightarrow> is_upper c \<or> is_lower c \<or> is_digit c \<or> c = CHR ''_''"

definition ends_in_word :: "string \<Rightarrow> bool" where
  "ends_in_word s = (case s of [] \<Rightarrow> False | c # _ \<Rightarrow> rword c)"

record re_state =
  passed :: string
  ahead :: string
  groups :: "(nat \<times> string) list"

fun star_iter :: "nat \<Rightarrow> bool \<Rightarrow> (re_state \<Rightarrow> re_state list) \<Rightarrow> re_state \<Rightarrow> re_state list" where
  "star_iter 0 greedy f st = [st]"
| "star_iter (Suc n) greedy f st =
     (let more = concat (map (star_iter n greedy f)
                   (filter (\<lambda>st'. length (ahead st') < length (ahead st)) (f st)))
      in if greedy then more @ [st] else st # more)"

primrec re_match :: "re \<Rightarrow> re_state \<Rightarrow> re_state list" where
  "re_match REps st = [st]"
| "re_match (RSet p) st =
     (case ahead st of [] \<Rightarrow> []
      | c # s \<Rightarrow> if p c then [st\<lparr>passed := c # passed st, ahead := s\<rparr>] else [])"
| "re_match (RSeq r1 r2) st = concat (map (re_match r2) (re_match r1 st))"
| "re_match (RAlt r1 r2) st = re_match r1 st @ re_match r2 st"
| "re_match (RStar greedy r) st = star_iter (length (ahead st)) greedy (re_match r) st"
| "re_match (RCap i r) st =
     map (\<lambda>st'. st'\<lparr>groups := (i, take (length (ahead st) - length (ahead st')) (ahead st)) # groups st'\<rparr>)
       (re_match r st)"
| "re_match RBol st = (if passed st = [] \<or> hd (passed st) = CHR 0x0A then [st] else [])"
| "re_match RBound st = (if ends_in_word (passed st) \<noteq> ends_in_word (ahead st) then [st] else [])"

text \<open>The leftmost match from a state on: where it starts and where it ends.\<close>

fun re_find_from :: "re \<Rightarrow> string \<Rightarrow> string \<Rightarrow> (string \<times> re_state) option" where
  "re_find_from r pre [] =
     (case re_match r \<lparr>passed = pre, ahead = [], groups = []\<rparr> of [] \<Rightarrow> None | st # _ \<Rightarrow> Some (pre, st))"
| "re_find_from r pre (c # s) =
     (case re_match r \<lparr>passed = pre, ahead = c # s, groups = []\<rparr> of
        [] \<Rightarrow> re_find_from r (c # pre) s
      | st # _ \<Rightarrow> Some (pre, st))"

definition re_test :: "re \<Rightarrow> string \<Rightarrow> bool" where
  "re_test r s = (re_find_from r [] s \<noteq> None)"

text \<open>\<open>FindStringSubmatch\<close>: the groups of the leftmost match; a group that took no part is empty.\<close>

definition re_find :: "re \<Rightarrow> string \<Rightarrow> (nat \<Rightarrow> string) option" where
  "re_find r s =
     (case re_find_from r [] s of None \<Rightarrow> None
      | Some (pre, st) \<Rightarrow> Some (\<lambda>i. case map_of (groups st) i of Some g \<Rightarrow> g | None \<Rightarrow> []))"

text \<open>
  \<open>FindAllStringSubmatch\<close> and \<open>ReplaceAllString\<close> for an expression that never matches the empty
  string: the search resumes where the last match ended. The fuel is the length of the text.
\<close>

fun re_find_all :: "nat \<Rightarrow> re \<Rightarrow> string \<Rightarrow> string \<Rightarrow> (nat \<Rightarrow> string) list" where
  "re_find_all 0 r pre s = []"
| "re_find_all (Suc n) r pre s =
     (case re_find_from r pre s of None \<Rightarrow> []
      | Some (_, st) \<Rightarrow> (\<lambda>i. case map_of (groups st) i of Some g \<Rightarrow> g | None \<Rightarrow> [])
          # re_find_all n r (passed st) (ahead st))"

fun re_replace_all :: "nat \<Rightarrow> re \<Rightarrow> string \<Rightarrow> string \<Rightarrow> string \<Rightarrow> string" where
  "re_replace_all 0 r new pre s = s"
| "re_replace_all (Suc n) r new pre s =
     (case re_find_from r pre s of None \<Rightarrow> s
      | Some (start, st) \<Rightarrow>
          take (length start - length pre) s @ new @ re_replace_all n r new (passed st) (ahead st))"

section \<open>Building expressions\<close>

fun rlit :: "string \<Rightarrow> re" where
  "rlit [] = REps"
| "rlit (c # s) = RSeq (RSet (\<lambda>x. x = c)) (rlit s)"

text \<open>A literal under \<open>(?i)\<close>.\<close>

fun rlit_ci :: "string \<Rightarrow> re" where
  "rlit_ci [] = REps"
| "rlit_ci (c # s) = RSeq (RSet (\<lambda>x. lower_char x = lower_char c)) (rlit_ci s)"

definition ropt :: "re \<Rightarrow> re" where
  "ropt r = RAlt r REps"

definition rplus :: "re \<Rightarrow> re" where
  "rplus r = RSeq r (RStar True r)"

fun rseq :: "re list \<Rightarrow> re" where
  "rseq [] = REps"
| "rseq (r # rs) = RSeq r (rseq rs)"

fun ralts :: "re list \<Rightarrow> re" where
  "ralts [] = RSet (\<lambda>_. False)"
| "ralts (r # rs) = RAlt r (ralts rs)"

text \<open>\<open>\\s\<close> does not contain the vertical tab; \<open>.\<close> without \<open>(?s)\<close> stops at a line's end.\<close>

definition rspace :: "char \<Rightarrow> bool" where
  "rspace c \<longleftrightarrow> c = CHR '' '' \<or> c = CHR 0x09 \<or> c = CHR 0x0A \<or> c = CHR 0x0C \<or> c = CHR 0x0D"

definition rdot :: "char \<Rightarrow> bool" where
  "rdot c \<longleftrightarrow> c \<noteq> CHR 0x0A"

definition rany :: "char \<Rightarrow> bool" where
  "rany c \<longleftrightarrow> True"

section \<open>A match is a part of the text\<close>

definition extends :: "re_state \<Rightarrow> re_state \<Rightarrow> bool" where
  "extends st st' \<longleftrightarrow> (\<exists>w. ahead st = w @ ahead st' \<and> passed st' = rev w @ passed st)"

lemma extends_refl [simp]: "extends st st"
  by (simp add: extends_def)

lemma extends_trans: "extends a b \<Longrightarrow> extends b c \<Longrightarrow> extends a c"
  unfolding extends_def by force

lemma extends_length: "extends st st' \<Longrightarrow> length (ahead st') \<le> length (ahead st)"
  by (auto simp: extends_def)

lemma star_iter_extends:
  assumes "\<And>a b. b \<in> set (f a) \<Longrightarrow> extends a b"
  shows "st' \<in> set (star_iter n g f st) \<Longrightarrow> extends st st'"
proof (induction n arbitrary: st)
  case 0
  then show ?case by simp
next
  case (Suc n)
  from Suc.prems consider "st' = st" | a where "a \<in> set (f st)" "st' \<in> set (star_iter n g f a)"
    by (auto simp: Let_def split: if_splits)
  then show ?case
  proof cases
    case 1
    then show ?thesis by simp
  next
    case 2
    then show ?thesis using assms Suc.IH extends_trans by blast
  qed
qed

lemma re_match_extends: "st' \<in> set (re_match r st) \<Longrightarrow> extends st st'"
proof (induction r arbitrary: st st')
  case (RSet p)
  then show ?case by (auto simp: extends_def split: list.splits if_splits)
next
  case (RSeq r1 r2)
  then show ?case using extends_trans by fastforce
next
  case (RStar g r)
  then show ?case using star_iter_extends [of "re_match r"] by simp
next
  case (RCap i r)
  then obtain st1 where "st1 \<in> set (re_match r st)" "ahead st' = ahead st1" "passed st' = passed st1"
    by auto
  with RCap.IH show ?case by (auto simp: extends_def)
qed (auto split: if_splits)

lemma re_find_from_split:
  "re_find_from r pre s = Some (start, st) \<Longrightarrow>
   \<exists>u w. s = u @ w @ ahead st \<and> start = rev u @ pre \<and> passed st = rev w @ start
     \<and> st \<in> set (re_match r \<lparr>passed = start, ahead = w @ ahead st, groups = []\<rparr>)"
proof (induction r pre s rule: re_find_from.induct)
  case (1 r pre)
  then obtain rest where m: "re_match r \<lparr>passed = pre, ahead = [], groups = []\<rparr> = st # rest" "start = pre"
    by (auto split: list.splits)
  then have "st \<in> set (re_match r \<lparr>passed = pre, ahead = [], groups = []\<rparr>)" by simp
  with re_match_extends [OF this] m(2) show ?case by (auto simp: extends_def)
next
  case (2 r pre c s)
  show ?case
  proof (cases "re_match r \<lparr>passed = pre, ahead = c # s, groups = []\<rparr>")
    case Nil
    with 2 obtain u w where "s = u @ w @ ahead st \<and> start = rev u @ c # pre \<and> passed st = rev w @ start
      \<and> st \<in> set (re_match r \<lparr>passed = start, ahead = w @ ahead st, groups = []\<rparr>)"
      by auto
    then show ?thesis by - (rule exI [where x = "c # u"], rule exI [where x = w], auto)
  next
    case (Cons st1 rest)
    with 2(2) have eq: "st1 = st" "start = pre" by auto
    from Cons eq have mem: "st \<in> set (re_match r \<lparr>passed = pre, ahead = c # s, groups = []\<rparr>)" by simp
    from re_match_extends [OF this] obtain w where "c # s = w @ ahead st" "passed st = rev w @ pre"
      by (auto simp: extends_def)
    with mem eq show ?thesis by - (rule exI [where x = "[]"], rule exI [where x = w], auto)
  qed
qed

subsection \<open>Literals and repeated sets\<close>

lemma re_match_rlit:
  "re_match (rlit l) st = (if has_prefix (ahead st) l
     then [st\<lparr>passed := rev l @ passed st, ahead := drop (length l) (ahead st)\<rparr>] else [])"
proof (induction l arbitrary: st)
  case Nil
  then show ?case by simp
next
  case (Cons c l)
  then show ?case by (cases "ahead st") auto
qed

lemma re_match_rlit_ci:
  "re_match (rlit_ci l) st = (if has_prefix (to_lower (ahead st)) (to_lower l)
     then [st\<lparr>passed := rev (take (length l) (ahead st)) @ passed st, ahead := drop (length l) (ahead st)\<rparr>] else [])"
proof (induction l arbitrary: st)
  case Nil
  then show ?case by simp
next
  case (Cons c l)
  then show ?case by (cases "ahead st") auto
qed

end
