(* ===== verification/Self_Critique.thy ===== *)
theory Self_Critique
  imports Task_Planner Go_Regexp
begin

text \<open>
  The scored self-critique loop (\<open>internal/orchestration/self_critique.go\<close>).
\<close>

definition defaultMaxCritiqueRounds :: int where
  "defaultMaxCritiqueRounds = 3"

definition critiquePassThreshold :: int where
  "critiquePassThreshold = 7"

datatype critique_trigger =
  TriggerOptIn | TriggerDomain | TriggerSideEffect | TriggerRAGDegraded | TriggerComplex | TriggerCode

definition ShouldCritique :: "orchestration_request \<Rightarrow> bool \<times> critique_trigger option" where
  "ShouldCritique req =
     (if Critique req then (True, Some TriggerOptIn)
      else if RAGDegraded req \<and> (Domain req = ''legal'' \<or> Domain req = ''medical'') then (True, Some TriggerRAGDegraded)
      else if Domain req = ''legal'' \<or> Domain req = ''medical'' then (True, Some TriggerDomain)
      else if SideEffect req then (True, Some TriggerSideEffect)
      else (False, None))"

section \<open>Reading a score\<close>

definition scoreRe :: re where
  "scoreRe = rseq [rlit_ci ''SCORE:'', RStar True (RSet rspace), RCap 1 (rplus (RSet is_digit))]"

definition flawsRe :: re where
  "flawsRe = rseq [rlit_ci ''FLAWS:'', RStar True (RSet rspace), RCap 1 (rplus (RSet rdot))]"

definition parseScoreResponse :: "string \<Rightarrow> int \<times> string" where
  "parseScoreResponse response =
     ((case re_find scoreRe response of
         None \<Rightarrow> 0
       | Some g \<Rightarrow> (case int_literal (trim_space (g 1)) of Some n \<Rightarrow> n | None \<Rightarrow> 0)),
      (case re_find flawsRe response of
         None \<Rightarrow> ''unknown''
       | Some g \<Rightarrow> trim_space (g 1)))"

section \<open>The loop\<close>

definition score_prompt :: "string \<Rightarrow> string" where
  "score_prompt best =
     ''Rate the following response on a scale from 1 to 10 for accuracy, completeness, and correctness.\<newline>''
     @ ''Reply ONLY in this format (no other text):\<newline>''
     @ ''SCORE: <number>\<newline>''
     @ ''FLAWS: <one sentence describing the main flaw, or 'none' if perfect>\<newline>\<newline>''
     @ ''Response to evaluate:\<newline>'' @ best"

definition improve_prompt :: "int \<Rightarrow> string \<Rightarrow> string \<Rightarrow> string" where
  "improve_prompt score flaws best =
     ''The following response scored '' @ dec_of_int score @ ''/10. The main flaw is: '' @ flaws
     @ ''\<newline>\<newline>Please provide an improved, corrected version. Be concise and accurate.\<newline>\<newline>''
     @ ''Original response:\<newline>'' @ best"

text \<open>
  \<open>critique_rounds gen model left round best bestScore\<close> runs the loop body for \<open>round\<close> and the rounds
  after it, \<open>left\<close> in all. The result is (content, score, rounds); the error of the code is always nil.
\<close>

fun critique_rounds ::
  "'w generate \<Rightarrow> string \<Rightarrow> nat \<Rightarrow> int \<Rightarrow> string \<Rightarrow> int \<Rightarrow> ('w, string \<times> int \<times> int) prog" where
  "critique_rounds gen model 0 round best bestScore = gret (best, bestScore, round - 1)"
| "critique_rounds gen model (Suc n) round best bestScore =
     gbind (ask gen (gen_request model [msg ''user'' (score_prompt best)])) (\<lambda>r. case r of
        Inl e \<Rightarrow> gret (best, bestScore, round - 1)
      | Inr answer \<Rightarrow>
        (let (score, flaws) = parseScoreResponse answer;
             bestScore1 = (if bestScore < score then score else bestScore)
         in if critiquePassThreshold \<le> score then gret (best, score, round)
            else gbind (ask gen (gen_request model [msg ''user'' (improve_prompt score flaws best)])) (\<lambda>r2. case r2 of
                   Inl e \<Rightarrow> gret (best, bestScore1, round)
                 | Inr improved \<Rightarrow> critique_rounds gen model n (round + 1) improved bestScore1)))"

definition CritiqueLoop ::
  "'w generate \<Rightarrow> string \<Rightarrow> orchestration_request \<Rightarrow> int \<Rightarrow> ('w, string \<times> int \<times> int) prog" where
  "CritiqueLoop gen content req maxRounds =
     (let m = (if maxRounds \<le> 0 then defaultMaxCritiqueRounds else maxRounds)
      in critique_rounds gen (OModel req) (nat m) 1 content 0)"

definition Critique_once :: "'w generate \<Rightarrow> string \<Rightarrow> orchestration_request \<Rightarrow> ('w, string) prog" where
  "Critique_once gen content req =
     gbind (CritiqueLoop gen content req 1) (\<lambda>(improved, _, _). gret improved)"

section \<open>Lemmas\<close>

context inference_backend
begin

lemma safe_critique_rounds:
  "safe (critique_rounds Generate model n round best bs) (\<lambda>(_, _, rounds). round - 1 \<le> rounds \<and> rounds \<le> round - 1 + int n)"
proof (induction n arbitrary: round best bs)
  case 0
  show ?case by (simp add: safe_gret)
next
  case (Suc n)
  have rec: "safe (critique_rounds Generate model n (round + 1) b s)
      (\<lambda>(_, _, rounds). round - 1 \<le> rounds \<and> rounds \<le> round + int n)" for b s
    by (rule safe_mono [OF Suc.IH]) auto
  show ?case
    by (simp only: critique_rounds.simps Let_def)
      (auto intro!: safe_gbind [OF safe_ask] safe_sum safe_gret safe_if safe_prod rec)
qed

lemma safe_CritiqueLoop:
  "safe (CritiqueLoop Generate content req maxRounds)
     (\<lambda>(_, _, rounds). 0 \<le> rounds \<and> rounds \<le> (if maxRounds \<le> 0 then 3 else maxRounds))"
  unfolding CritiqueLoop_def Let_def
  by (rule safe_mono [OF safe_critique_rounds])
    (auto simp: defaultMaxCritiqueRounds_def split: if_splits)

end

lemma cost_critique_rounds:
  "counts calls gen \<Longrightarrow> cost calls (2 * n) (critique_rounds gen model n round best bs)"
proof (induction n arbitrary: round best bs)
  case 0
  show ?case by (simp add: cost_gret)
next
  case (Suc n)
  have step: "cost calls (Suc (2 * n)) (gbind (ask gen req) (\<lambda>r2. case r2 of
      Inl e \<Rightarrow> gret (best, b, round) | Inr improved \<Rightarrow> critique_rounds gen model n (round + 1) improved b))" for b req
    by (rule cost_gbind_le [where j = "Suc 0" and k = "2 * n", OF cost_ask1 [OF Suc.prems]])
      (auto intro!: cost_sum cost_gret Suc)
  show ?case
    by (simp only: critique_rounds.simps Let_def,
        rule cost_gbind_le [where j = "Suc 0" and k = "Suc (2 * n)", OF cost_ask1 [OF Suc.prems]])
      (auto intro!: cost_sum cost_if cost_gret cost_prod step)
qed

lemma cost_CritiqueLoop:
  "counts calls gen \<Longrightarrow> cost calls (2 * nat (if m \<le> 0 then 3 else m)) (CritiqueLoop gen content req m)"
  unfolding CritiqueLoop_def Let_def defaultMaxCritiqueRounds_def by (rule cost_critique_rounds)

text \<open>What is returned was written by the model or is the content it was given.\<close>

lemma critique_pass_score:
  "critique_rounds gen model n round best bs w = (Ret (c, s, k), w') \<Longrightarrow> bs < critiquePassThreshold \<Longrightarrow>
   s < critiquePassThreshold \<or> (\<exists>w1 w2 a. ask gen (gen_request model [msg ''user'' (score_prompt c)]) w1 = (Ret (Inr a), w2)
     \<and> s = fst (parseScoreResponse a))"
proof (induction n arbitrary: round best bs w)
  case 0
  then show ?case by simp
next
  case (Suc n)
  from Suc.prems(1) obtain r w1 where r: "ask gen (gen_request model [msg ''user'' (score_prompt best)]) w = (Ret r, w1)"
    by (auto elim!: gbind_cases)
  show ?case
  proof (cases r)
    case (Inl e)
    with Suc.prems r show ?thesis by simp
  next
    case (Inr a)
    obtain score flaws where p: "parseScoreResponse a = (score, flaws)" by (cases "parseScoreResponse a")
    show ?thesis
    proof (cases "critiquePassThreshold \<le> score")
      case True
      with Suc.prems(1) r Inr p have "c = best" "s = score" by simp_all
      with r Inr p show ?thesis by (metis fst_conv)
    next
      case False
      let ?b = "if bs < score then score else bs"
      have b: "?b < critiquePassThreshold" using False Suc.prems(2) by simp
      from Suc.prems(1) r Inr p False obtain r2 w2
        where "ask gen (gen_request model [msg ''user'' (improve_prompt score flaws best)]) w1 = (Ret r2, w2)"
          and "(case r2 of Inl e \<Rightarrow> gret (best, ?b, round)
             | Inr improved \<Rightarrow> critique_rounds gen model n (round + 1) improved ?b) w2 = (Ret (c, s, k), w')"
        by (auto simp: Let_def elim!: gbind_cases)
      then show ?thesis
        using b Suc.IH by (cases r2) auto
    qed
  qed
qed

end
