(* ===== verification/Code_Feedback.thy ===== *)
theory Code_Feedback
  imports Task_Planner Go_Regexp
begin

text \<open>
  The code-execution feedback loop (\<open>internal/orchestration/code_feedback.go\<close>). Running Python is a
  parameter: \<open>run_python code\<close> is the error a \<open>python3 -c code\<close> run ends with, if it does; it has no
  error where the interpreter is missing, which the code accepts in silence.
\<close>

type_synonym 'w python = "string \<Rightarrow> 'w \<Rightarrow> goerr option \<times> 'w"

definition maxCodeFeedbackRounds :: nat where
  "maxCodeFeedbackRounds = 3"

section \<open>Finding code\<close>

definition fence :: re where
  "fence = rlit ''```''"

definition pythonBlockRe :: re where
  "pythonBlockRe = rseq [rlit ''```python'', ropt (rlit ''\<newline>''), RCap 1 (RStar False (RSet rany)), fence]"

definition goBlockRe :: re where
  "goBlockRe = rseq [rlit ''```go'', ropt (rlit ''\<newline>''), RCap 1 (RStar False (RSet rany)), fence]"

definition genericBlockRe :: re where
  "genericBlockRe = rseq [rlit ''```'', ropt (ralts [rlit ''python'', rlit ''go'', rlit ''sh'', rlit ''bash'']),
     ropt (rlit ''\<newline>''), RCap 1 (RStar False (RSet rany)), fence]"

definition pythonFuncRe :: re where
  "pythonFuncRe = rseq [RBol, rlit ''def '',
     RCap 1 (RSeq (RSet (\<lambda>c. is_upper c \<or> is_lower c \<or> c = CHR ''_'')) (RStar True (RSet rword))),
     RStar True (RSet rspace), rlit ''('']"

definition fenceRe :: re where
  "fenceRe = rseq [rlit ''```'', RStar True (RSet is_lower), ropt (rlit ''\<newline>'')]"

text \<open>(language, code) of the first block: Python blocks first, then Go, then any.\<close>

definition extractFirstCodeBlock :: "string \<Rightarrow> string \<times> string" where
  "extractFirstCodeBlock s =
     (case re_find pythonBlockRe s of
        Some g \<Rightarrow> (''python'', trim_space (g 1))
      | None \<Rightarrow>
        (case re_find goBlockRe s of
           Some g \<Rightarrow> (''go'', trim_space (g 1))
         | None \<Rightarrow>
           (case re_find genericBlockRe s of
              Some g \<Rightarrow> (''python'', trim_space (g 1))
            | None \<Rightarrow> ([], []))))"

definition extractFunctionNames :: "string \<Rightarrow> string list" where
  "extractFunctionNames code =
     rev (remdups (rev (map (\<lambda>g. g 1) (re_find_all (length code) pythonFuncRe [] code))))"

definition stripCodeFences :: "string \<Rightarrow> string" where
  "stripCodeFences s = replace_all (re_replace_all (length s) fenceRe [] [] s) ''```'' []"

section \<open>Running code\<close>

definition runCode :: "'w python \<Rightarrow> string \<Rightarrow> string \<Rightarrow> 'w \<Rightarrow> goerr option \<times> 'w" where
  "runCode run_python lang code w = (if lang \<noteq> ''python'' then (None, w) else run_python code w)"

definition runCodeWithAssertions :: "'w python \<Rightarrow> string \<Rightarrow> string \<Rightarrow> 'w \<Rightarrow> goerr option \<times> 'w" where
  "runCodeWithAssertions run_python code assertions w =
     (if assertions = [] then (None, w)
      else run_python (code @ ''\<newline>\<newline># --- edge case assertions ---\<newline>'' @ assertions) w)"

section \<open>Asking the model\<close>

definition fix_prompt :: "string \<Rightarrow> string \<Rightarrow> string \<Rightarrow> string" where
  "fix_prompt lang code errMsg =
     ''The following '' @ lang @ '' code has a problem:\<newline>\<newline>''
     @ ''```'' @ lang @ ''\<newline>'' @ code @ ''\<newline>```\<newline>\<newline>''
     @ ''Error / failing assertion:\<newline>'' @ errMsg @ ''\<newline>\<newline>''
     @ ''Please provide a corrected version of the complete function(s) that fixes this issue. ''
     @ ''Return ONLY the fixed code inside a single ```'' @ lang @ '' ... ``` block.''"

definition requestFix ::
  "'w generate \<Rightarrow> generate_request \<Rightarrow> string \<Rightarrow> string \<Rightarrow> string \<Rightarrow> ('w, string \<times> string) prog" where
  "requestFix gen req lang code errMsg =
     gbind (ask gen (gen_request (Model req) [msg ''user'' (fix_prompt lang code errMsg)])) (\<lambda>r. case r of
        Inl e \<Rightarrow> gret ([], [])
      | Inr newContent \<Rightarrow> gret (newContent, snd (extractFirstCodeBlock newContent)))"

definition edge_prompt :: "string \<Rightarrow> string" where
  "edge_prompt code =
     ''Given this Python code:\<newline>\<newline>```python\<newline>'' @ code @ ''\<newline>```\<newline>\<newline>''
     @ ''Write 6 to 8 assert statements that test EDGE CASES likely to expose bugs. ''
     @ ''Think adversarially '' @ em_dash @ '' include:\<newline>''
     @ ''- Empty inputs (empty lists, empty strings, zero)\<newline>''
     @ ''- Single-element inputs\<newline>''
     @ ''- Inputs where one side is longer than the other\<newline>''
     @ ''- Inputs with duplicate values\<newline>''
     @ ''- Boundary values (None check if relevant, negative numbers)\<newline>\<newline>''
     @ ''Output ONLY raw assert statements (no markdown, no explanations, no imports). ''
     @ ''Each assert on its own line. Example format:\<newline>''
     @ ''assert func([]) == []\<newline>''
     @ ''assert func([1], [1,2,3]) == [1,1,2,3]\<newline>''"

definition assert_lines :: "string \<Rightarrow> string list" where
  "assert_lines raw =
     filter (\<lambda>l. has_prefix l ''assert '') (map trim_space (split_on (CHR 0x0A) (stripCodeFences raw)))"

definition generateEdgeCaseAssertions ::
  "'w generate \<Rightarrow> generate_request \<Rightarrow> string \<Rightarrow> ('w, string result) prog" where
  "generateEdgeCaseAssertions gen req code =
     (if extractFunctionNames code = [] then gret (Inr [])
      else gbind (ask gen (gen_request (Model req) [msg ''user'' (edge_prompt code)])) (\<lambda>r. case r of
             Inl e \<Rightarrow> gret (Inl e)
           | Inr raw \<Rightarrow> gret (Inr (join ''\<newline>'' (assert_lines raw)))))"

section \<open>The loop\<close>

text \<open>
  Both phases of a round: the error of the run, else the first failing assertion, else nothing. A
  failure to obtain assertions counts as nothing.
\<close>

definition check_code ::
  "'w python \<Rightarrow> 'w generate \<Rightarrow> generate_request \<Rightarrow> string \<Rightarrow> string \<Rightarrow> ('w, goerr option) prog" where
  "check_code py gen req lang code =
     gbind (grun (runCode py lang code)) (\<lambda>execErr. case execErr of
        Some e \<Rightarrow> gret (Some e)
      | None \<Rightarrow>
          if lang \<noteq> ''python'' then gret None
          else gbind (generateEdgeCaseAssertions gen req code) (\<lambda>r. case r of
            Inl _ \<Rightarrow> gret None
          | Inr assertions \<Rightarrow>
              if assertions = [] then gret None else grun (runCodeWithAssertions py code assertions)))"

fun feedback_rounds ::
  "'w python \<Rightarrow> 'w generate \<Rightarrow> generate_request \<Rightarrow> string \<Rightarrow> nat \<Rightarrow> string \<Rightarrow> string \<Rightarrow> ('w, string \<times> bool) prog" where
  "feedback_rounds py gen req lang 0 best code = gret (best, True)"
| "feedback_rounds py gen req lang (Suc n) best code =
     gbind (check_code py gen req lang code) (\<lambda>err. case err of
        None \<Rightarrow> gret (best, True)
      | Some e \<Rightarrow>
          gbind (requestFix gen req lang code e) (\<lambda>(best1, code1).
            if code1 = [] then gret (best1, True) else feedback_rounds py gen req lang n best1 code1))"

text \<open>(content, whether the loop ran); the code's error is always nil.\<close>

definition feedback_Run ::
  "'w python \<Rightarrow> 'w generate \<Rightarrow> string \<Rightarrow> generate_request \<Rightarrow> ('w, string \<times> bool) prog" where
  "feedback_Run py gen content req =
     (let (lang, code) = extractFirstCodeBlock content
      in if code = [] then gret (content, False)
         else feedback_rounds py gen req lang maxCodeFeedbackRounds content code)"

section \<open>Lemmas\<close>

context inference_backend
begin

lemma safe_requestFix: "safe (requestFix Generate req lang code e) (\<lambda>_. True)"
  unfolding requestFix_def by (auto intro!: safe_gbind [OF safe_ask] safe_sum safe_gret)

lemma safe_generateEdgeCaseAssertions: "safe (generateEdgeCaseAssertions Generate req code) (\<lambda>_. True)"
  unfolding generateEdgeCaseAssertions_def
  by (auto intro!: safe_if safe_gret safe_gbind [OF safe_ask] safe_sum)

lemma safe_check_code: "safe (check_code py Generate req lang code) (\<lambda>_. True)"
  unfolding check_code_def
  by (auto intro!: safe_gbind [where P = "\<lambda>_. True", OF safe_grun] safe_grun safe_option safe_if safe_gret
      safe_gbind [OF safe_generateEdgeCaseAssertions] safe_sum)

lemma safe_feedback_rounds: "safe (feedback_rounds py Generate req lang n best code) (\<lambda>(_, ran). ran)"
proof (induction n arbitrary: best code)
  case 0
  show ?case by (simp add: safe_gret)
next
  case (Suc n)
  have rest: "safe (gbind (requestFix Generate req lang code e) (\<lambda>(best1, code1).
      if code1 = [] then gret (best1, True) else feedback_rounds py Generate req lang n best1 code1))
      (\<lambda>(_, ran). ran)" for e
    by (rule safe_gbind [OF safe_requestFix]) (auto intro!: safe_gret Suc)
  show ?case
    by (simp only: feedback_rounds.simps, rule safe_gbind [OF safe_check_code], rule safe_option)
      (simp_all add: safe_gret rest)
qed

lemma safe_feedback_Run:
  "safe (feedback_Run py Generate content req) (\<lambda>(c, ran). ran \<or> c = content)"
  unfolding feedback_Run_def Let_def
  by (auto intro!: safe_gret safe_mono [OF safe_feedback_rounds] split: prod.splits)

end

lemma cost_requestFix: "counts calls gen \<Longrightarrow> cost calls (Suc 0) (requestFix gen req lang code e)"
  unfolding requestFix_def by (auto intro!: cost_bind_ret cost_ask1 cost_sum cost_gret)

lemma cost_edge: "counts calls gen \<Longrightarrow> cost calls (Suc 0) (generateEdgeCaseAssertions gen req code)"
  unfolding generateEdgeCaseAssertions_def
  by (auto intro!: cost_bind_ret cost_ask1 cost_sum cost_gret cost_if)

lemma cost_check_code:
  assumes gen: "counts calls gen" and py: "\<And>c w. calls (snd (py c w)) = calls w"
  shows "cost calls (Suc 0) (check_code py gen req lang code)"
proof -
  have run1: "cost calls 0 (grun (runCode py lang code))"
    by (rule cost_grun) (simp add: runCode_def py)
  have run2: "cost calls 0 (grun (runCodeWithAssertions py code a))" for a
    by (rule cost_grun) (simp add: runCodeWithAssertions_def py)
  have late: "cost calls (Suc 0) (gbind (generateEdgeCaseAssertions gen req code) (\<lambda>r. case r of
      Inl _ \<Rightarrow> gret None
    | Inr a \<Rightarrow> if a = [] then gret None else grun (runCodeWithAssertions py code a)))"
    by (rule cost_bind_ret [OF cost_edge [OF gen]]) (auto intro!: cost_sum cost_if cost_gret run2)
  show ?thesis
    unfolding check_code_def
    by (rule cost_gbind_le [where j = 0 and k = "Suc 0", OF run1])
      (auto intro!: cost_option cost_if cost_gret late)
qed

lemma cost_feedback_rounds:
  assumes gen: "counts calls gen" and py: "\<And>c w. calls (snd (py c w)) = calls w"
  shows "cost calls (2 * n) (feedback_rounds py gen req lang n best code)"
proof (induction n arbitrary: best code)
  case 0
  show ?case by (simp add: cost_gret)
next
  case (Suc n)
  have rest: "cost calls (Suc (2 * n)) (gbind (requestFix gen req lang code e) (\<lambda>(best1, code1).
      if code1 = [] then gret (best1, True) else feedback_rounds py gen req lang n best1 code1))" for e
    by (rule cost_gbind_le [where j = "Suc 0" and k = "2 * n", OF cost_requestFix [OF gen]])
      (auto intro!: cost_gret Suc)
  show ?case
    by (simp only: feedback_rounds.simps,
        rule cost_gbind_le [where j = "Suc 0" and k = "Suc (2 * n)", OF cost_check_code [where calls = calls and py = py, OF assms]])
      (auto intro!: cost_option cost_gret rest)
qed

lemma cost_feedback_Run:
  assumes "counts calls gen" and "\<And>c w. calls (snd (py c w)) = calls w"
  shows "cost calls 6 (feedback_Run py gen content req)"
proof -
  have "cost calls 6 (feedback_rounds py gen req lang maxCodeFeedbackRounds content code)" for lang code
    using cost_feedback_rounds [where calls = calls and py = py and n = maxCodeFeedbackRounds, OF assms]
    by (simp add: maxCodeFeedbackRounds_def)
  then show ?thesis
    unfolding feedback_Run_def Let_def by (intro cost_prod cost_if cost_gret)
qed

text \<open>The fix request that fails loses the answer: the content becomes the empty string.\<close>

lemma requestFix_failure:
  "ask gen (gen_request (Model req) [msg ''user'' (fix_prompt lang code e)]) w = (Ret (Inl err), w') \<Longrightarrow>
   requestFix gen req lang code e w = (Ret ([], []), w')"
  by (simp add: requestFix_def)

end
