(* ===== verification/Web_Augmenter.thy ===== *)
theory Web_Augmenter
  imports Task_Planner
begin

text \<open>
  Web augmentation (\<open>internal/orchestration/web_augmenter.go\<close> and \<open>web_searcher_adapter.go\<close>). The
  searcher is a parameter: a program from a query and a limit to results or an error.
\<close>

record search_result =
  Title :: string
  URL :: string
  Snippet :: string

type_synonym 'w web_searcher = "string \<Rightarrow> int \<Rightarrow> ('w, search_result list result) prog"

definition webSearchSignals :: "string list" where
  "webSearchSignals = [
     ''latest'', ''current'', ''today'', ''recent'', ''news'', ''2024'', ''2025'', ''2026'',
     ''right now'', ''this week'', ''this month'', ''this year'', ''just released'',
     ''what is'', ''who is'', ''where is'', ''when did'', ''when was'', ''how many'',
     ''what happened'', ''tell me about'', ''explain what'',
     ''search for'', ''look up'', ''find out'', ''can you find'']"

definition NeedsSearch :: "message list \<Rightarrow> bool" where
  "NeedsSearch ms =
     (let last = to_lower (lastUserMessage ms) in last \<noteq> [] \<and> list_ex (contains last) webSearchSignals)"

definition search_fillers :: "string list" where
  "search_fillers = [
     ''can you'', ''please'', ''tell me about'', ''search for'', ''look up'',
     ''find out'', ''explain what'', ''what is the'', ''what are the'']"

definition buildSearchQuery :: "string \<Rightarrow> string" where
  "buildSearchQuery userMsg =
     (let q1 = fold (\<lambda>f q. replace_all q f []) search_fillers (to_lower userMsg);
          q2 = join '' '' (Go_Strings.fields q1);
          q3 = (if 120 < length q2 then take 120 q2 else q2)
      in trim_space q3)"

fun format_results :: "nat \<Rightarrow> search_result list \<Rightarrow> string" where
  "format_results i [] = []"
| "format_results i (r # rs) =
     (if Snippet r = [] then []
      else dec_of_nat (i + 1) @ ''. '' @ Title r @ ''\<newline>'' @ Snippet r @ ''\<newline>\<newline>'')
     @ format_results (Suc i) rs"

definition formatResultsAsContext :: "search_result list \<Rightarrow> string" where
  "formatResultsAsContext results =
     ''Use the following real-time information to answer the question:\<newline>\<newline>''
     @ format_results 0 results
     @ ''Answer based on the information above.''"

text \<open>The first system message gets the context appended; without one, a new one comes first.\<close>

fun inject_loop :: "string \<Rightarrow> bool \<Rightarrow> message list \<Rightarrow> message list \<times> bool" where
  "inject_loop webCtx injected [] = ([], injected)"
| "inject_loop webCtx injected (m # ms) =
     (if Role m = ''system'' \<and> \<not> injected
      then (let (out, i) = inject_loop webCtx True ms
            in (msg ''system'' (Content m @ ''\<newline>\<newline>'' @ webCtx) # out, i))
      else (let (out, i) = inject_loop webCtx injected ms in (m # out, i)))"

definition injectWebContext :: "message list \<Rightarrow> string \<Rightarrow> message list" where
  "injectWebContext ms webCtx =
     (let (out, injected) = inject_loop webCtx False ms
      in if injected then out else msg ''system'' webCtx # out)"

text \<open>The result is (messages, searched); the code's error is always nil.\<close>

definition Augment :: "'w web_searcher \<Rightarrow> message list \<Rightarrow> ('w, message list \<times> bool) prog" where
  "Augment search ms =
     (if \<not> NeedsSearch ms then gret (ms, False)
      else let query = buildSearchQuery (lastUserMessage ms)
           in gbind (search query 3) (\<lambda>r. case r of
                Inl e \<Rightarrow> gret (ms, False)
              | Inr [] \<Rightarrow> gret (ms, False)
              | Inr (x # xs) \<Rightarrow> gret (injectWebContext ms (formatResultsAsContext (x # xs)), True)))"

section \<open>Lemmas\<close>

lemma safe_Augment:
  assumes "\<And>q k. safe (search q k) (\<lambda>_. True)"
  shows "safe (Augment search ms) (\<lambda>_. True)"
  unfolding Augment_def Let_def
  by (auto intro!: safe_if safe_gret safe_gbind [OF assms] split: sum.splits list.splits)

lemma length_buildSearchQuery: "length (buildSearchQuery s) \<le> 120"
proof -
  have "length (trim_space (if 120 < length q then take 120 q else q)) \<le> 120" for q
    by (rule order_trans [OF length_trim_space]) auto
  then show ?thesis by (simp add: buildSearchQuery_def Let_def)
qed

lemma inject_loop_done: "inject_loop webCtx True ms = (ms, True)"
  by (induction ms) simp_all

lemma inject_loop_spec:
  "inject_loop webCtx False ms =
     (case dropWhile (\<lambda>m. Role m \<noteq> ''system'') ms of
        [] \<Rightarrow> (ms, False)
      | s # rest \<Rightarrow> (takeWhile (\<lambda>m. Role m \<noteq> ''system'') ms
          @ msg ''system'' (Content s @ ''\<newline>\<newline>'' @ webCtx) # rest, True))"
proof (induction ms)
  case Nil
  then show ?case by simp
next
  case (Cons m ms)
  show ?case
  proof (cases "Role m = ''system''")
    case True
    then show ?thesis by (simp add: inject_loop_done)
  next
    case False
    with Cons show ?thesis by (auto simp del: dropWhile_eq_Nil_conv split: list.splits)
  qed
qed

end
