(* ===== verification/Breaker_Spec.thy ===== *)
theory Breaker_Spec
  imports Prelude
begin

text \<open>
  What the gateway relies on in a circuit breaker, as an interface: both breakers of the program
  (\<open>internal/adapter/circuit_breaker.go\<close> and \<open>internal/embed/circuit_breaker.go\<close>) keep it, and the
  facts about guarded calls are proved once, from the interface alone.

  Times are integers (nanoseconds of the clock the code reads); \<open>tripped b = Some t\<close> says that the
  breaker was opened at time \<open>t\<close> and still rejects calls for \<open>window b\<close> from then on.
\<close>

text \<open>
  One call through a breaker, as every client of the program makes it: ask at time \<open>t\<close>, call the
  service, record the outcome at time \<open>u\<close>. The result says whether the call reached the service,
  which then answered or failed as \<open>ok\<close> says. \<open>run_calls\<close> makes one such call after the other.
\<close>

definition guarded_call ::
  "(int \<Rightarrow> 'b \<Rightarrow> bool \<times> 'b) \<Rightarrow> ('b \<Rightarrow> 'b) \<Rightarrow> (int \<Rightarrow> 'b \<Rightarrow> 'b) \<Rightarrow> int \<times> int \<times> bool \<Rightarrow> 'b \<Rightarrow> bool \<times> 'b" where
  "guarded_call allow success failure call b =
     (case call of (t, u, ok) \<Rightarrow>
       let (go_on, b1) = allow t b
       in if go_on then (True, if ok then success b1 else failure u b1) else (False, b1))"

fun run_calls ::
  "(int \<Rightarrow> 'b \<Rightarrow> bool \<times> 'b) \<Rightarrow> ('b \<Rightarrow> 'b) \<Rightarrow> (int \<Rightarrow> 'b \<Rightarrow> 'b) \<Rightarrow> (int \<times> int \<times> bool) list \<Rightarrow> 'b \<Rightarrow> bool list \<times> 'b" where
  "run_calls allow success failure [] b = ([], b)"
| "run_calls allow success failure (c # cs) b =
     (let (r, b1) = guarded_call allow success failure c b;
          (rs, b2) = run_calls allow success failure cs b1
      in (r # rs, b2))"

lemma run_calls_append:
  "run_calls allow success failure (cs @ ds) b =
     (let (rs, b1) = run_calls allow success failure cs b;
          (ss, b2) = run_calls allow success failure ds b1
      in (rs @ ss, b2))"
  by (induction cs arbitrary: b) (auto simp: Let_def split: prod.splits)

locale breaker =
  fixes allow :: "int \<Rightarrow> 'b \<Rightarrow> bool \<times> 'b"
    and success :: "'b \<Rightarrow> 'b"
    and failure :: "int \<Rightarrow> 'b \<Rightarrow> 'b"
    and closed :: "'b \<Rightarrow> bool"
    and tripped :: "'b \<Rightarrow> int option"
    and failed :: "'b \<Rightarrow> int"
    and limit :: "'b \<Rightarrow> int"
    and window :: "'b \<Rightarrow> int"
  assumes allow_closed: "closed b \<Longrightarrow> allow t b = (True, b)"
    and allow_tripped: "tripped b = Some t0 \<Longrightarrow> t < t0 + window b \<Longrightarrow> allow t b = (False, b)"
    and allow_after: "tripped b = Some t0 \<Longrightarrow> t0 + window b < t \<Longrightarrow> fst (allow t b)"
    and allow_limit: "limit (snd (allow t b)) = limit b"
    and allow_window: "window (snd (allow t b)) = window b"
    and allow_failed: "failed (snd (allow t b)) = failed b"
    and success_closed: "closed (success b)"
    and success_failed: "failed (success b) = 0"
    and success_limit: "limit (success b) = limit b"
    and success_window: "window (success b) = window b"
    and failure_failed: "failed (failure t b) = failed b + 1"
    and failure_limit: "limit (failure t b) = limit b"
    and failure_window: "window (failure t b) = window b"
    and failure_trips: "limit b \<le> failed b + 1 \<Longrightarrow> tripped (failure t b) = Some t"
    and failure_keeps: "failed b + 1 < limit b \<Longrightarrow> closed b \<Longrightarrow> closed (failure t b)"
begin

abbreviation guarded :: "int \<times> int \<times> bool \<Rightarrow> 'b \<Rightarrow> bool \<times> 'b" where
  "guarded \<equiv> guarded_call allow success failure"

abbreviation run :: "(int \<times> int \<times> bool) list \<Rightarrow> 'b \<Rightarrow> bool list \<times> 'b" where
  "run \<equiv> run_calls allow success failure"

lemma guarded_closed_fail: "closed b \<Longrightarrow> guarded (t, u, False) b = (True, failure u b)"
  by (simp add: guarded_call_def allow_closed)

lemma guarded_ok_closes:
  assumes "fst (guarded (t, u, True) b)"
  shows "closed (snd (guarded (t, u, True) b)) \<and> failed (snd (guarded (t, u, True) b)) = 0"
  using assms by (auto simp: guarded_call_def success_closed success_failed split: prod.splits if_splits)

text \<open>Below the limit a run of failures reaches the service every time and leaves the breaker closed.\<close>

lemma few_failures_closed:
  "closed b \<Longrightarrow> failed b + int (length cs) < limit b \<Longrightarrow> \<forall>(t, u, ok) \<in> set cs. \<not> ok \<Longrightarrow>
   \<exists>b'. run cs b = (replicate (length cs) True, b') \<and> closed b'
     \<and> failed b' = failed b + int (length cs) \<and> limit b' = limit b \<and> window b' = window b"
proof (induction cs arbitrary: b)
  case Nil
  then show ?case by simp
next
  case (Cons c cs)
  obtain t u where c: "c = (t, u, False)"
    using Cons.prems(3) by (cases c) auto
  have "closed (failure u b)"
    using Cons.prems by (intro failure_keeps) auto
  moreover have "failed (failure u b) + int (length cs) < limit (failure u b)"
    using Cons.prems by (simp add: failure_failed failure_limit)
  ultimately obtain b' where "run cs (failure u b) = (replicate (length cs) True, b')" "closed b'"
    "failed b' = failed (failure u b) + int (length cs)" "limit b' = limit (failure u b)"
    "window b' = window (failure u b)"
    using Cons.IH [of "failure u b"] Cons.prems(3) by auto
  then show ?case
    using Cons.prems(1) by (simp add: c guarded_closed_fail failure_failed failure_limit failure_window)
qed

text \<open>The failure that reaches the limit trips the breaker at the time it is recorded.\<close>

lemma limit_failures_trip:
  assumes "closed b" and "failed b = 0" and "int (length cs) + 1 = limit b"
    and "\<forall>(t, u, ok) \<in> set cs. \<not> ok"
  shows "\<exists>b'. run (cs @ [(t, u, False)]) b = (replicate (length cs + 1) True, b')
      \<and> tripped b' = Some u \<and> window b' = window b"
proof -
  obtain b' where r: "run cs b = (replicate (length cs) True, b')" and c: "closed b'"
    "failed b' = int (length cs)" "limit b' = limit b" "window b' = window b"
    using few_failures_closed [of b cs] assms by auto
  have "tripped (failure u b') = Some u"
    using c assms(3) by (intro failure_trips) auto
  then show ?thesis
    using r c by (simp add: run_calls_append guarded_closed_fail failure_window replicate_append_same
        flip: replicate_Suc)
qed

text \<open>A tripped breaker keeps every call away from the service and does not change.\<close>

lemma tripped_rejects:
  assumes "tripped b = Some t0" and "t < t0 + window b"
  shows "guarded (t, u, ok) b = (False, b)"
  using allow_tripped [OF assms] by (simp add: guarded_call_def)

lemma tripped_rejects_all:
  assumes "tripped b = Some t0" and "\<forall>(t, u, ok) \<in> set cs. t < t0 + window b"
  shows "run cs b = (replicate (length cs) False, b)"
  using assms(2)
proof (induction cs)
  case Nil
  then show ?case by simp
next
  case (Cons c cs)
  obtain t u ok where "c = (t, u, ok)" by (cases c)
  with Cons show ?case by (simp add: tripped_rejects [OF assms(1)])
qed

text \<open>After the window a call reaches the service again, and its success closes the breaker.\<close>

lemma recovers:
  assumes "tripped b = Some t0" and "t0 + window b < t"
  shows "fst (guarded (t, u, True) b) \<and> closed (snd (guarded (t, u, True) b))"
proof -
  from allow_after [OF assms] have "fst (guarded (t, u, True) b)"
    by (auto simp: guarded_call_def split: prod.splits)
  with guarded_ok_closes [of t u b] show ?thesis by simp
qed

text \<open>The whole life of an outage: enough failures, then rejections, then recovery.\<close>

lemma outage:
  assumes "closed b" and "failed b = 0" and "int (length cs) + 1 = limit b"
    and "\<forall>(t, u, ok) \<in> set cs. \<not> ok"
    and "\<forall>(t', u', ok) \<in> set ds. t' < u + window b" and "u + window b < t2"
  shows "\<exists>b'. run (cs @ [(t, u, False)] @ ds @ [(t2, u2, True)]) b
       = (replicate (length cs + 1) True @ replicate (length ds) False @ [True], b')
     \<and> closed b' \<and> failed b' = 0"
proof -
  obtain b1 where 1: "run (cs @ [(t, u, False)]) b = (replicate (length cs + 1) True, b1)"
    and b1: "tripped b1 = Some u" "window b1 = window b"
    using limit_failures_trip [OF assms(1-4)] by blast
  have 2: "run ds b1 = (replicate (length ds) False, b1)"
    using assms(5) b1 by (intro tripped_rejects_all) auto
  have 3: "fst (guarded (t2, u2, True) b1)"
    using recovers [of b1 u t2 u2] b1 assms(6) by auto
  then obtain b2 where 4: "guarded (t2, u2, True) b1 = (True, b2)"
    by (cases "guarded (t2, u2, True) b1") auto
  have "run ((cs @ [(t, u, False)]) @ ds @ [(t2, u2, True)]) b
     = (replicate (length cs + 1) True @ replicate (length ds) False @ [True], b2)"
    unfolding run_calls_append [of _ _ _ "cs @ [(t, u, False)]"] 1
    by (simp add: run_calls_append 2 4)
  with guarded_ok_closes [OF 3] 4 show ?thesis by auto
qed

end

end
