(* ===== verification/Breakers.thy ===== *)
theory Breakers
  imports Breaker_Spec
begin

text \<open>
  The two circuit breakers: \<open>internal/adapter/circuit_breaker.go\<close>, in front of the inference
  servers, and \<open>internal/embed/circuit_breaker.go\<close>, in front of the embedding service. Each method
  runs under the breaker's mutex, so it is one atomic step on the breaker's record; the clock it
  reads is an argument. Times and durations are nanoseconds.
\<close>

definition second :: int where
  "second = 1000000000"

section \<open>The breaker of the inference adapters\<close>

datatype cb_state = StateClosed | StateOpen | StateHalfOpen

record breaker =
  state :: cb_state
  failures :: int
  threshold :: int
  openUntil :: int
  cooldown :: int

definition NewCircuitBreaker :: breaker where
  "NewCircuitBreaker =
     \<lparr>state = StateClosed, failures = 0, threshold = 3, openUntil = 0, cooldown = 30 * second\<rparr>"

definition Allow :: "int \<Rightarrow> breaker \<Rightarrow> bool \<times> breaker" where
  "Allow now cb =
     (case state cb of
        StateClosed \<Rightarrow> (True, cb)
      | StateOpen \<Rightarrow> if openUntil cb < now then (True, cb\<lparr>state := StateHalfOpen\<rparr>) else (False, cb)
      | StateHalfOpen \<Rightarrow> (False, cb))"

definition RecordSuccess :: "breaker \<Rightarrow> breaker" where
  "RecordSuccess cb = cb\<lparr>state := StateClosed, failures := 0\<rparr>"

definition RecordFailure :: "int \<Rightarrow> breaker \<Rightarrow> breaker" where
  "RecordFailure now cb =
     (let cb1 = cb\<lparr>failures := failures cb + 1\<rparr>
      in if threshold cb1 \<le> failures cb1
         then cb1\<lparr>state := StateOpen, openUntil := now + cooldown cb1\<rparr>
         else cb1)"

definition GetState :: "breaker \<Rightarrow> cb_state" where
  "GetState cb = state cb"

lemmas breaker_defs = Allow_def RecordSuccess_def RecordFailure_def Let_def

text \<open>When the breaker was tripped, if it is open.\<close>

definition tripped_at :: "breaker \<Rightarrow> int option" where
  "tripped_at cb = (if state cb = StateOpen then Some (openUntil cb - cooldown cb) else None)"

interpretation acb: breaker Allow RecordSuccess RecordFailure "\<lambda>cb. state cb = StateClosed" tripped_at
  failures threshold cooldown
  by unfold_locales (auto simp: breaker_defs tripped_at_def split: cb_state.splits if_splits)

subsection \<open>Reachable breakers\<close>

text \<open>
  Requests run concurrently, so the methods interleave: a record may arrive in any state. A breaker
  of the program is one that such steps reach from a new breaker.
\<close>

inductive cb_step :: "breaker \<Rightarrow> breaker \<Rightarrow> bool" where
  step_allow: "cb_step cb (snd (Allow now cb))"
| step_success: "cb_step cb (RecordSuccess cb)"
| step_failure: "cb_step cb (RecordFailure now cb)"

inductive cb_reachable :: "breaker \<Rightarrow> bool" where
  new: "cb_reachable NewCircuitBreaker"
| step: "cb_reachable cb \<Longrightarrow> cb_step cb cb' \<Longrightarrow> cb_reachable cb'"

inductive_cases cb_stepE: "cb_step cb cb'"

definition cb_ok :: "breaker \<Rightarrow> bool" where
  "cb_ok cb \<longleftrightarrow> 0 \<le> failures cb \<and> threshold cb = 3 \<and> cooldown cb = 30 * second
     \<and> (state cb = StateClosed \<longleftrightarrow> failures cb < threshold cb)"

lemma cb_ok_step: "cb_step cb cb' \<Longrightarrow> cb_ok cb \<Longrightarrow> cb_ok cb'"
  by (induction rule: cb_step.induct)
    (auto simp: cb_ok_def breaker_defs split: cb_state.splits if_splits)

lemma cb_reachable_ok: "cb_reachable cb \<Longrightarrow> cb_ok cb"
proof (induction rule: cb_reachable.induct)
  case new
  show ?case by (simp add: cb_ok_def NewCircuitBreaker_def)
next
  case (step cb cb')
  then show ?case by (blast intro: cb_ok_step)
qed

text \<open>How many of a sequence of \<open>Allow\<close> calls, with no record in between, are let through.\<close>

fun admitted :: "int list \<Rightarrow> breaker \<Rightarrow> nat" where
  "admitted [] cb = 0"
| "admitted (now # ts) cb =
     (let (ok, cb') = Allow now cb in (if ok then 1 else 0) + admitted ts cb')"

lemma admitted_halfopen: "state cb = StateHalfOpen \<Longrightarrow> admitted ts cb = 0"
  by (induction ts) (simp_all add: Allow_def)

lemma admitted_open: "state cb = StateOpen \<Longrightarrow> admitted ts cb \<le> 1"
proof (induction ts)
  case Nil
  then show ?case by simp
next
  case (Cons now ts)
  then show ?case by (simp add: Allow_def admitted_halfopen)
qed

section \<open>The breaker of the embedding clients\<close>

record ebreaker =
  estate :: cb_state
  efailures :: int
  failureThreshold :: int
  openDuration :: int
  openedAt :: int

definition embed_NewCircuitBreaker :: "(ebreaker \<Rightarrow> ebreaker) list \<Rightarrow> ebreaker" where
  "embed_NewCircuitBreaker opts =
     fold (\<lambda>opt cb. opt cb) opts
       \<lparr>estate = StateClosed, efailures = 0, failureThreshold = 3, openDuration = 30 * second, openedAt = 0\<rparr>"

definition WithOpenDuration :: "int \<Rightarrow> ebreaker \<Rightarrow> ebreaker" where
  "WithOpenDuration d cb = cb\<lparr>openDuration := d\<rparr>"

definition embed_State :: "ebreaker \<Rightarrow> cb_state" where
  "embed_State cb = estate cb"

definition ErrEmbedCircuitOpen :: goerr where
  "ErrEmbedCircuitOpen = ''embed: circuit breaker is open''"

text \<open>\<open>None\<close> is the nil error of the code: the call may proceed.\<close>

definition embed_Allow :: "int \<Rightarrow> ebreaker \<Rightarrow> goerr option \<times> ebreaker" where
  "embed_Allow now cb =
     (case estate cb of
        StateOpen \<Rightarrow>
          if openDuration cb \<le> now - openedAt cb then (None, cb\<lparr>estate := StateHalfOpen\<rparr>)
          else (Some ErrEmbedCircuitOpen, cb)
      | _ \<Rightarrow> (None, cb))"

definition embed_RecordFailure :: "int \<Rightarrow> ebreaker \<Rightarrow> ebreaker" where
  "embed_RecordFailure now cb =
     (let cb1 = cb\<lparr>efailures := efailures cb + 1\<rparr>
      in if failureThreshold cb1 \<le> efailures cb1
         then cb1\<lparr>estate := StateOpen, openedAt := now\<rparr>
         else cb1)"

definition embed_RecordSuccess :: "ebreaker \<Rightarrow> ebreaker" where
  "embed_RecordSuccess cb = cb\<lparr>efailures := 0, estate := StateClosed\<rparr>"

lemmas ebreaker_defs = embed_Allow_def embed_RecordSuccess_def embed_RecordFailure_def Let_def

definition embed_allows :: "int \<Rightarrow> ebreaker \<Rightarrow> bool \<times> ebreaker" where
  "embed_allows now cb = (case embed_Allow now cb of (err, cb') \<Rightarrow> (err = None, cb'))"

definition embed_tripped_at :: "ebreaker \<Rightarrow> int option" where
  "embed_tripped_at cb = (if estate cb = StateOpen then Some (openedAt cb) else None)"

interpretation ecb: breaker embed_allows embed_RecordSuccess embed_RecordFailure
  "\<lambda>cb. estate cb = StateClosed" embed_tripped_at efailures failureThreshold openDuration
  by unfold_locales
    (auto simp: ebreaker_defs embed_allows_def embed_tripped_at_def split: cb_state.splits if_splits)

fun embed_admitted :: "int list \<Rightarrow> ebreaker \<Rightarrow> nat" where
  "embed_admitted [] cb = 0"
| "embed_admitted (now # ts) cb =
     (let (err, cb') = embed_Allow now cb in (if err = None then 1 else 0) + embed_admitted ts cb')"

lemma embed_admitted_not_open: "estate cb \<noteq> StateOpen \<Longrightarrow> embed_admitted ts cb = length ts"
  by (induction ts) (auto simp: embed_Allow_def split: cb_state.splits)

section \<open>Properties\<close>

text \<open>
  A whole outage, seen by a client of the adapter's breaker that makes one call after the other:
  the first three calls fail at the service, every call in the 30 seconds that follow is rejected,
  and the first successful call after them closes the breaker with no failure on its count.
\<close>

theorem adapter_breaker_outage:
  assumes "\<forall>(t', u', ok) \<in> set ds. t' < u + 30 * second" and "u + 30 * second < t2"
  shows "\<exists>b. run_calls Allow RecordSuccess RecordFailure
       ([(s1, v1, False), (s2, v2, False), (t, u, False)] @ ds @ [(t2, u2, True)]) NewCircuitBreaker
     = ([True, True, True] @ replicate (length ds) False @ [True], b)
     \<and> state b = StateClosed \<and> failures b = 0"
  using acb.outage [of NewCircuitBreaker "[(s1, v1, False), (s2, v2, False)]" ds u t2 t u2] assms
  by (simp add: NewCircuitBreaker_def numeral_eq_Suc)

lemma adapter_breaker_outage_witness:
  "\<exists>b. run_calls Allow RecordSuccess RecordFailure
       ([(0, 1, False), (2, 3, False), (4, 5, False)] @ [(6, 7, True), (8, 9, False)] @ [(40 * second, 0, True)])
       NewCircuitBreaker = ([True, True, True] @ replicate (length [(6 :: int, 7 :: int, True), (8, 9, False)]) False @ [True], b)
     \<and> state b = StateClosed \<and> failures b = 0"
  by (rule adapter_breaker_outage [where u = 5 and ?t2.0 = "40 * second"]) (simp_all add: second_def)

text \<open>
  C8. Whatever way concurrent requests interleave, an adapter's breaker that is open lets at most
  one probe through before an outcome is recorded, and a probe that fails opens it again for the
  full cooldown, because its failure count is still at the threshold.
\<close>

theorem one_probe_at_a_time:
  assumes "cb_reachable b"
  shows "(state b = StateOpen \<longrightarrow> admitted ts b \<le> 1) \<and> (state b = StateHalfOpen \<longrightarrow> admitted ts b = 0)
    \<and> (state b \<noteq> StateClosed \<longrightarrow>
        state (RecordFailure now b) = StateOpen \<and> openUntil (RecordFailure now b) = now + 30 * second)"
  using cb_reachable_ok [OF assms]
    admitted_open [of b ts] admitted_halfopen [of b ts]
  by (cases "state b") (simp_all add: cb_ok_def RecordFailure_def Let_def)

lemma one_probe_at_a_time_witness:
  "admitted [1, 2] (RecordFailure 0 (RecordFailure 0 (RecordFailure 0 NewCircuitBreaker))) \<le> 1"
proof -
  have "cb_reachable (RecordFailure 0 (RecordFailure 0 (RecordFailure 0 NewCircuitBreaker)))"
    by (rule cb_reachable.step [OF cb_reachable.step [OF cb_reachable.step
          [OF cb_reachable.new step_failure] step_failure] step_failure])
  from one_probe_at_a_time [OF this, of "[1, 2]" 0] show ?thesis
    by (simp add: NewCircuitBreaker_def RecordFailure_def Let_def)
qed

text \<open>
  The embedding breaker does not keep that bound: once its open period has passed it lets every
  caller through until an outcome is recorded, though its comment promises exactly one.
\<close>

theorem embed_breaker_admits_all:
  assumes "estate b = StateOpen" and "openDuration b \<le> now - openedAt b"
  shows "embed_admitted (now # ts) b = Suc (length ts)"
  using assms by (simp add: embed_Allow_def embed_admitted_not_open)

lemma embed_breaker_admits_all_witness:
  "embed_admitted (40 * second # [1, 2, 3])
     (embed_RecordFailure 0 (embed_RecordFailure 0 (embed_RecordFailure 0 (embed_NewCircuitBreaker []))))
   = Suc (length [1 :: int, 2, 3])"
  by (rule embed_breaker_admits_all)
    (simp_all add: embed_NewCircuitBreaker_def embed_RecordFailure_def Let_def second_def)

end
