(* ===== verification/Adapters.thy ===== *)
theory Adapters
  imports Backend Breakers
begin

text \<open>
  The four inference adapters (\<open>internal/adapter/ollama.go\<close>, \<open>llamacpp.go\<close>, \<open>bitnet.go\<close>, \<open>vllm.go\<close>)
  and the factory that selects one (\<open>factory.go\<close>).

  An adapter is its base URL and its circuit breaker. What is outside is the record \<open>adapter_env\<close>: the
  HTTP client (\<open>http_do\<close> builds and sends the request; a body that the 25 second deadline or the peer
  cuts off is the shorter body), the clock and the UUID source, over an unknown world \<open>'w\<close>. A call is a
  program over the pair of the adapter and that world. A stream is the list of chunks its channel
  carries before it is closed.
\<close>

record http_request =
  Method :: string
  Url :: string
  Headers :: "(string \<times> string) list"
  ReqBody :: string

record http_response =
  Status :: int
  Body :: string

record 'w adapter_env =
  http_do :: "http_request \<Rightarrow> 'w \<Rightarrow> http_response result \<times> 'w"
  clock :: "'w \<Rightarrow> int"
  uuid :: "'w \<Rightarrow> string \<times> 'w"

record adapter =
  baseURL :: string
  cb :: breaker

section \<open>The call pattern every adapter repeats\<close>

text \<open>Ask the breaker, make the call, record its outcome at the time it ends.\<close>

definition with_breaker ::
  "'w adapter_env \<Rightarrow> ('w \<Rightarrow> 'a result \<times> 'w) \<Rightarrow> (adapter \<times> 'w, 'a result) prog" where
  "with_breaker env call = (\<lambda>(a, w).
     let (ok, b) = Allow (clock env w) (cb a); a1 = a\<lparr>cb := b\<rparr>
     in if \<not> ok then (Ret (Inl ErrCircuitOpen), a1, w)
        else case call w of
          (Inl e, w1) \<Rightarrow> (Ret (Inl e), a1\<lparr>cb := RecordFailure (clock env w1) (cb a1)\<rparr>, w1)
        | (Inr r, w1) \<Rightarrow> (Ret (Inr r), a1\<lparr>cb := RecordSuccess (cb a1)\<rparr>, w1))"

definition post_json :: "'w adapter_env \<Rightarrow> string \<Rightarrow> string \<Rightarrow> string \<Rightarrow> 'w \<Rightarrow> string result \<times> 'w" where
  "post_json env name url body w =
     (case http_do env \<lparr>Method = ''POST'', Url = url,
              Headers = [(''Content-Type'', ''application/json'')], ReqBody = body\<rparr> w of
        (Inl e, w1) \<Rightarrow> (Inl e, w1)
      | (Inr resp, w1) \<Rightarrow>
          if Status resp \<noteq> 200
          then (Inl (name @ '': unexpected status '' @ dec_of_int (Status resp)), w1)
          else (Inr (Body resp), w1))"

definition health_check :: "'w adapter_env \<Rightarrow> string \<Rightarrow> string \<Rightarrow> 'w \<Rightarrow> goerr option \<times> 'w" where
  "health_check env complaint url w =
     (case http_do env \<lparr>Method = ''GET'', Url = url, Headers = [], ReqBody = []\<rparr> w of
        (Inl e, w1) \<Rightarrow> (Some e, w1)
      | (Inr resp, w1) \<Rightarrow>
          if Status resp \<noteq> 200 then (Some (complaint @ dec_of_int (Status resp)), w1) else (None, w1))"

text \<open>The first JSON value of a body, decoded as an object.\<close>

definition decode_obj :: "string \<Rightarrow> (string \<times> json) list result" where
  "decode_obj s = (case json_decode s of None \<Rightarrow> Inl ErrJSONSyntax | Some (v, _) \<Rightarrow> as_obj v)"

definition unmarshal_obj :: "string \<Rightarrow> (string \<times> json) list result" where
  "unmarshal_obj s = (case json_parse s of None \<Rightarrow> Inl ErrJSONSyntax | Some v \<Rightarrow> as_obj v)"

definition completion :: "string \<Rightarrow> string \<Rightarrow> string \<Rightarrow> string \<Rightarrow> generate_response" where
  "completion i model content reason =
     \<lparr>RespID = i, RespObject = ''chat.completion'', RespModel = model,
      Choices = [\<lparr>Index = 0, Message = msg ''assistant'' content, FinishReason = reason, Delta = None\<rparr>]\<rparr>"

definition chunk :: "string \<Rightarrow> string \<Rightarrow> string \<Rightarrow> generate_response" where
  "chunk i model content =
     \<lparr>RespID = i, RespObject = ''chat.completion.chunk'', RespModel = model,
      Choices = [\<lparr>Index = 0, Message = msg [] [], FinishReason = [],
        Delta = Some (msg ''assistant'' content)\<rparr>]\<rparr>"

definition as_message :: "json \<Rightarrow> message result" where
  "as_message v =
     result_bind (as_obj v) (\<lambda>ms. result_bind (str_field ''role'' ms) (\<lambda>r.
       result_bind (str_field ''content'' ms) (\<lambda>c. Inr (msg r c))))"

definition json_of_message :: "message \<Rightarrow> json" where
  "json_of_message m = JObj [(''role'', JStr (Role m)), (''content'', JStr (Content m))]"

text \<open>A \<open>float64\<close> literal that denotes zero, which \<open>omitempty\<close> leaves out.\<close>

definition float_is_zero :: "float64 \<Rightarrow> bool" where
  "float_is_zero x =
     list_all (\<lambda>c. c = CHR ''0'' \<or> c = CHR ''.'' \<or> c = CHR ''-'')
       (takeWhile (\<lambda>c. c \<noteq> CHR ''e'' \<and> c \<noteq> CHR ''E'') x)"

section \<open>Ollama\<close>

definition NewOllamaAdapter :: "(string \<Rightarrow> string) \<Rightarrow> adapter" where
  "NewOllamaAdapter getenv =
     (let url = getenv ''OLLAMA_BASE_URL''
      in \<lparr>baseURL = (if url = [] then ''http://localhost:11434'' else url), cb = NewCircuitBreaker\<rparr>)"

definition ollama_doGenerate ::
  "'w adapter_env \<Rightarrow> string \<Rightarrow> generate_request \<Rightarrow> 'w \<Rightarrow> generate_response result \<times> 'w" where
  "ollama_doGenerate env base req w =
     (let numPredict = (if MaxTokens req \<le> 0 then -1 else MaxTokens req);
          body = json_print (JObj [
            (''format'', JStr (Format req)), (''model'', JStr (Model req)),
            (''options'', JObj [(''num_predict'', JInt numPredict), (''temperature'', JNum (Temperature req))]),
            (''prompt'', JStr (messagesToPrompt (Messages req))), (''stream'', JBool False)])
      in case post_json env ''ollama'' (base @ ''/api/generate'') body w of
           (Inl e, w1) \<Rightarrow> (Inl e, w1)
         | (Inr s, w1) \<Rightarrow>
           (case result_bind (decode_obj s) (\<lambda>ms. result_bind (str_field ''response'' ms) (\<lambda>r.
                   result_bind (str_field ''model'' ms) (\<lambda>m. Inr (r, m)))) of
              Inl e \<Rightarrow> (Inl e, w1)
            | Inr (r, m) \<Rightarrow> (let (i, w2) = uuid env w1 in (Inr (completion i m r ''stop''), w2))))"

text \<open>The decoding goroutine: one JSON value after the other, until \<open>done\<close> or an error.\<close>

function ollama_chunks :: "'w adapter_env \<Rightarrow> string \<Rightarrow> 'w \<Rightarrow> generate_response list \<times> 'w" where
  "ollama_chunks env s w =
     (case json_decode s of
        None \<Rightarrow> ([], w)
      | Some (v, rest) \<Rightarrow>
        (case result_bind (as_obj v) (\<lambda>ms. result_bind (str_field ''response'' ms) (\<lambda>r.
                result_bind (str_field ''model'' ms) (\<lambda>m.
                result_bind (bool_field ''done'' ms) (\<lambda>d. Inr (r, m, d))))) of
           Inl e \<Rightarrow> ([], w)
         | Inr (r, m, d) \<Rightarrow>
           (let (out, w1) = (if r = [] then ([], w) else let (i, w') = uuid env w in ([chunk i m r], w'))
            in if d then (out, w1)
               else let (more, w2) = ollama_chunks env rest w1 in (out @ more, w2))))"
  by pat_completeness auto
termination
  by (relation "measure (\<lambda>(_, s, _). length s)") (auto dest: json_decode_length)

declare ollama_chunks.simps [simp del]

definition ollama_doStream ::
  "'w adapter_env \<Rightarrow> string \<Rightarrow> generate_request \<Rightarrow> 'w \<Rightarrow> generate_response list result \<times> 'w" where
  "ollama_doStream env base req w =
     (let body = json_print (JObj [
            (''format'', JStr (Format req)), (''model'', JStr (Model req)),
            (''prompt'', JStr (messagesToPrompt (Messages req))), (''stream'', JBool True)])
      in case post_json env ''ollama'' (base @ ''/api/generate'') body w of
           (Inl e, w1) \<Rightarrow> (Inl e, w1)
         | (Inr s, w1) \<Rightarrow> (let (cs, w2) = ollama_chunks env s w1 in (Inr cs, w2)))"

definition ollama_Generate :: "'w adapter_env \<Rightarrow> (adapter \<times> 'w) generate" where
  "ollama_Generate env req = (\<lambda>(a, w). with_breaker env (ollama_doGenerate env (baseURL a) req) (a, w))"

definition ollama_Stream ::
  "'w adapter_env \<Rightarrow> generate_request \<Rightarrow> (adapter \<times> 'w, generate_response list result) prog" where
  "ollama_Stream env req =
     (\<lambda>(a, w). with_breaker env (ollama_doStream env (baseURL a) (req\<lparr>Stream := True\<rparr>)) (a, w))"

definition ollama_HealthCheck :: "'w adapter_env \<Rightarrow> adapter \<Rightarrow> 'w \<Rightarrow> goerr option \<times> 'w" where
  "ollama_HealthCheck env a = health_check env ''ollama unhealthy: status '' (baseURL a @ ''/api/tags'')"

section \<open>llama.cpp\<close>

definition NewLlamaCppAdapter :: "(string \<Rightarrow> string) \<Rightarrow> adapter" where
  "NewLlamaCppAdapter getenv =
     (let url = getenv ''LLAMACPP_BASE_URL''
      in \<lparr>baseURL = (if url = [] then ''http://localhost:8080'' else url), cb = NewCircuitBreaker\<rparr>)"

definition llamacpp_doGenerate ::
  "'w adapter_env \<Rightarrow> string \<Rightarrow> generate_request \<Rightarrow> 'w \<Rightarrow> generate_response result \<times> 'w" where
  "llamacpp_doGenerate env base req w =
     (let nPredict = (if MaxTokens req \<le> 0 then -1 else MaxTokens req);
          body = json_print (JObj [
            (''grammar'', JStr (Grammar req)), (''n_predict'', JInt nPredict),
            (''prompt'', JStr (messagesToPrompt (Messages req))), (''stream'', JBool False),
            (''temperature'', JNum (Temperature req))])
      in case post_json env ''llamacpp'' (base @ ''/completion'') body w of
           (Inl e, w1) \<Rightarrow> (Inl e, w1)
         | (Inr s, w1) \<Rightarrow>
           (case result_bind (decode_obj s) (str_field ''content'') of
              Inl e \<Rightarrow> (Inl e, w1)
            | Inr c \<Rightarrow> (let (i, w2) = uuid env w1 in (Inr (completion i (Model req) c ''stop''), w2))))"

fun llamacpp_chunks :: "'w adapter_env \<Rightarrow> string \<Rightarrow> string list \<Rightarrow> 'w \<Rightarrow> generate_response list \<times> 'w" where
  "llamacpp_chunks env model [] w = ([], w)"
| "llamacpp_chunks env model (line # lines) w =
     (if \<not> has_prefix line ''data: '' then llamacpp_chunks env model lines w
      else case result_bind (unmarshal_obj (drop 6 line)) (\<lambda>ms. result_bind (str_field ''content'' ms) (\<lambda>c.
                  result_bind (bool_field ''stop'' ms) (\<lambda>d. Inr (c, d)))) of
        Inl e \<Rightarrow> llamacpp_chunks env model lines w
      | Inr (c, d) \<Rightarrow>
        (let (out, w1) = (if c = [] then ([], w) else let (i, w') = uuid env w in ([chunk i model c], w'))
         in if d then (out, w1)
            else let (more, w2) = llamacpp_chunks env model lines w1 in (out @ more, w2)))"

definition llamacpp_doStream ::
  "'w adapter_env \<Rightarrow> string \<Rightarrow> generate_request \<Rightarrow> 'w \<Rightarrow> generate_response list result \<times> 'w" where
  "llamacpp_doStream env base req w =
     (let body = json_print (JObj [
            (''grammar'', JStr (Grammar req)), (''prompt'', JStr (messagesToPrompt (Messages req))),
            (''stream'', JBool True)])
      in case post_json env ''llamacpp'' (base @ ''/completion'') body w of
           (Inl e, w1) \<Rightarrow> (Inl e, w1)
         | (Inr s, w1) \<Rightarrow>
           (let (cs, w2) = llamacpp_chunks env (Model req) (scan_lines s) w1 in (Inr cs, w2)))"

definition llamacpp_Generate :: "'w adapter_env \<Rightarrow> (adapter \<times> 'w) generate" where
  "llamacpp_Generate env req = (\<lambda>(a, w). with_breaker env (llamacpp_doGenerate env (baseURL a) req) (a, w))"

definition llamacpp_Stream ::
  "'w adapter_env \<Rightarrow> generate_request \<Rightarrow> (adapter \<times> 'w, generate_response list result) prog" where
  "llamacpp_Stream env req =
     (\<lambda>(a, w). with_breaker env (llamacpp_doStream env (baseURL a) (req\<lparr>Stream := True\<rparr>)) (a, w))"

definition llamacpp_HealthCheck :: "'w adapter_env \<Rightarrow> adapter \<Rightarrow> 'w \<Rightarrow> goerr option \<times> 'w" where
  "llamacpp_HealthCheck env a = health_check env ''llamacpp unhealthy: status '' (baseURL a @ ''/health'')"

section \<open>BitNet\<close>

definition NewBitNetAdapter :: "(string \<Rightarrow> string) \<Rightarrow> adapter result" where
  "NewBitNetAdapter getenv =
     (let quant = getenv ''BITNET_MODEL_QUANT''; url = getenv ''BITNET_BASE_URL''
      in if quant \<noteq> [] \<and> quant \<noteq> ''i2_s''
         then Inl (''bitnet: unsupported quantization '' @ go_quote quant
           @ '' '' @ em_dash @ '' model must use i2_s ternary quantization'')
         else Inr \<lparr>baseURL = (if url = [] then ''http://localhost:8080'' else url), cb = NewCircuitBreaker\<rparr>)"

definition bitnet_choice :: "json \<Rightarrow> (string \<times> string) result" where
  "bitnet_choice v =
     result_bind (as_obj v) (\<lambda>ms. result_bind (obj_field ''message'' ms) (\<lambda>m.
       result_bind (str_field ''role'' m) (\<lambda>r. result_bind (str_field ''content'' m) (\<lambda>c.
       result_bind (str_field ''finish_reason'' ms) (\<lambda>f. Inr (c, f))))))"

definition bitnet_doGenerate ::
  "'w adapter_env \<Rightarrow> string \<Rightarrow> generate_request \<Rightarrow> 'w \<Rightarrow> generate_response result \<times> 'w" where
  "bitnet_doGenerate env base req w =
     (let maxTokens = (if MaxTokens req \<le> 0 then 512 else MaxTokens req);
          body = json_print (JObj [
            (''max_tokens'', JInt maxTokens), (''messages'', JArr (map json_of_message (Messages req))),
            (''model'', JStr (Model req)), (''stream'', JBool False),
            (''temperature'', JNum (Temperature req))])
      in case post_json env ''bitnet'' (base @ ''/v1/chat/completions'') body w of
           (Inl e, w1) \<Rightarrow> (Inl e, w1)
         | (Inr s, w1) \<Rightarrow>
           (case result_bind (decode_obj s) (\<lambda>ms. result_bind (str_field ''id'' ms) (\<lambda>i.
                   result_bind (str_field ''model'' ms) (\<lambda>m.
                   result_bind (list_field bitnet_choice ''choices'' ms) (\<lambda>cs. Inr (i, cs))))) of
              Inl e \<Rightarrow> (Inl e, w1)
            | Inr (i, []) \<Rightarrow> (Inl ''bitnet: empty choices in response'', w1)
            | Inr (i, (c, f) # _) \<Rightarrow>
              (let (i', w2) = (if i = [] then uuid env w1 else (i, w1))
               in (Inr (completion i' (Model req) c f), w2))))"

definition bitnet_delta :: "json \<Rightarrow> (string \<times> string option) result" where
  "bitnet_delta v =
     result_bind (as_obj v) (\<lambda>ms. result_bind (obj_field ''delta'' ms) (\<lambda>d.
       result_bind (str_field ''content'' d) (\<lambda>c.
       result_bind (ptr_field as_str ''finish_reason'' ms) (\<lambda>f. Inr (c, f)))))"

fun bitnet_chunks :: "string \<Rightarrow> string list \<Rightarrow> generate_response list" where
  "bitnet_chunks model [] = []"
| "bitnet_chunks model (line # lines) =
     (if \<not> has_prefix line ''data: '' then bitnet_chunks model lines
      else if trim_space (drop 6 line) = ''[DONE]'' then []
      else case result_bind (unmarshal_obj (drop 6 line)) (\<lambda>ms. result_bind (str_field ''id'' ms) (\<lambda>i.
                  result_bind (list_field bitnet_delta ''choices'' ms) (\<lambda>cs. Inr (i, cs)))) of
        Inl e \<Rightarrow> bitnet_chunks model lines
      | Inr (i, []) \<Rightarrow> bitnet_chunks model lines
      | Inr (i, (c, f) # _) \<Rightarrow>
        (if c = [] then [] else [chunk i model c])
        @ (if f = None then bitnet_chunks model lines else []))"

definition bitnet_doStream ::
  "'w adapter_env \<Rightarrow> string \<Rightarrow> generate_request \<Rightarrow> 'w \<Rightarrow> generate_response list result \<times> 'w" where
  "bitnet_doStream env base req w =
     (let maxTokens = (if MaxTokens req \<le> 0 then 512 else MaxTokens req);
          body = json_print (JObj [
            (''max_tokens'', JInt maxTokens), (''messages'', JArr (map json_of_message (Messages req))),
            (''model'', JStr (Model req)), (''stream'', JBool True)])
      in case post_json env ''bitnet'' (base @ ''/v1/chat/completions'') body w of
           (Inl e, w1) \<Rightarrow> (Inl e, w1)
         | (Inr s, w1) \<Rightarrow> (Inr (bitnet_chunks (Model req) (scan_lines s)), w1))"

definition bitnet_Generate :: "'w adapter_env \<Rightarrow> (adapter \<times> 'w) generate" where
  "bitnet_Generate env req = (\<lambda>(a, w). with_breaker env (bitnet_doGenerate env (baseURL a) req) (a, w))"

definition bitnet_Stream ::
  "'w adapter_env \<Rightarrow> generate_request \<Rightarrow> (adapter \<times> 'w, generate_response list result) prog" where
  "bitnet_Stream env req =
     (\<lambda>(a, w). with_breaker env (bitnet_doStream env (baseURL a) (req\<lparr>Stream := True\<rparr>)) (a, w))"

definition bitnet_HealthCheck :: "'w adapter_env \<Rightarrow> adapter \<Rightarrow> 'w \<Rightarrow> goerr option \<times> 'w" where
  "bitnet_HealthCheck env a = health_check env ''bitnet: unhealthy status '' (baseURL a @ ''/health'')"

section \<open>vLLM\<close>

definition NewVLLMAdapter :: "(string \<Rightarrow> string) \<Rightarrow> adapter" where
  "NewVLLMAdapter getenv =
     (let url = getenv ''VLLM_BASE_URL''
      in \<lparr>baseURL = (if url = [] then ''http://localhost:8000'' else url), cb = NewCircuitBreaker\<rparr>)"

definition vllm_choice :: "json \<Rightarrow> choice result" where
  "vllm_choice v =
     result_bind (as_obj v) (\<lambda>ms. result_bind (int_field ''index'' ms) (\<lambda>i.
       result_bind (obj_field ''message'' ms) (\<lambda>m. result_bind (as_message (JObj m)) (\<lambda>mm.
       result_bind (str_field ''finish_reason'' ms) (\<lambda>f.
         Inr \<lparr>Index = i, Message = mm, FinishReason = f, Delta = None\<rparr>)))))"

definition vllm_doGenerate ::
  "'w adapter_env \<Rightarrow> string \<Rightarrow> generate_request \<Rightarrow> 'w \<Rightarrow> generate_response result \<times> 'w" where
  "vllm_doGenerate env base req w =
     (let body = json_print (JObj (
            [(''model'', JStr (Model req)), (''messages'', JArr (map json_of_message (Messages req))),
             (''stream'', JBool False)]
            @ (if float_is_zero (Temperature req) then [] else [(''temperature'', JNum (Temperature req))])
            @ (if MaxTokens req = 0 then [] else [(''max_tokens'', JInt (MaxTokens req))])))
      in case post_json env ''vllm'' (base @ ''/v1/chat/completions'') body w of
           (Inl e, w1) \<Rightarrow> (Inl e, w1)
         | (Inr s, w1) \<Rightarrow>
           (result_bind (decode_obj s) (\<lambda>ms. result_bind (str_field ''id'' ms) (\<lambda>i.
              result_bind (str_field ''object'' ms) (\<lambda>ob. result_bind (str_field ''model'' ms) (\<lambda>m.
              result_bind (list_field vllm_choice ''choices'' ms) (\<lambda>cs.
                Inr \<lparr>RespID = i, RespObject = ob, RespModel = m, Choices = cs\<rparr>))))), w1))"

definition vllm_Generate :: "'w adapter_env \<Rightarrow> (adapter \<times> 'w) generate" where
  "vllm_Generate env req = (\<lambda>(a, w). with_breaker env (vllm_doGenerate env (baseURL a) req) (a, w))"

definition vllm_Stream ::
  "'w adapter_env \<Rightarrow> generate_request \<Rightarrow> (adapter \<times> 'w, generate_response list result) prog" where
  "vllm_Stream env req = (\<lambda>(a, w).
     with_breaker env (\<lambda>w. case vllm_doGenerate env (baseURL a) req w of
         (Inl e, w1) \<Rightarrow> (Inl e, w1) | (Inr resp, w1) \<Rightarrow> (Inr [resp], w1)) (a, w))"

definition vllm_HealthCheck :: "'w adapter_env \<Rightarrow> adapter \<Rightarrow> 'w \<Rightarrow> goerr option \<times> 'w" where
  "vllm_HealthCheck env a = health_check env ''vllm unhealthy: status '' (baseURL a @ ''/health'')"

section \<open>The factory\<close>

datatype backend_kind = OllamaKind | LlamaCppKind | VLLMKind | BitNetKind

definition NewBackend :: "(string \<Rightarrow> string) \<Rightarrow> (backend_kind \<times> adapter) result" where
  "NewBackend getenv =
     (let sel = getenv ''INFERENCE_BACKEND''
      in if sel = ''llamacpp'' then Inr (LlamaCppKind, NewLlamaCppAdapter getenv)
         else if sel = ''vllm'' then Inr (VLLMKind, NewVLLMAdapter getenv)
         else if sel = ''bitnet'' then
           (case NewBitNetAdapter getenv of Inl e \<Rightarrow> Inl e | Inr a \<Rightarrow> Inr (BitNetKind, a))
         else Inr (OllamaKind, NewOllamaAdapter getenv))"

definition backend_Generate :: "backend_kind \<Rightarrow> 'w adapter_env \<Rightarrow> (adapter \<times> 'w) generate" where
  "backend_Generate k env =
     (case k of OllamaKind \<Rightarrow> ollama_Generate env | LlamaCppKind \<Rightarrow> llamacpp_Generate env
      | VLLMKind \<Rightarrow> vllm_Generate env | BitNetKind \<Rightarrow> bitnet_Generate env)"

definition backend_doGenerate ::
  "backend_kind \<Rightarrow> 'w adapter_env \<Rightarrow> string \<Rightarrow> generate_request \<Rightarrow> 'w \<Rightarrow> generate_response result \<times> 'w" where
  "backend_doGenerate k =
     (case k of OllamaKind \<Rightarrow> ollama_doGenerate | LlamaCppKind \<Rightarrow> llamacpp_doGenerate
      | VLLMKind \<Rightarrow> vllm_doGenerate | BitNetKind \<Rightarrow> bitnet_doGenerate)"

lemma backend_Generate_eq:
  "backend_Generate k env req =
     (\<lambda>(a, w). with_breaker env (backend_doGenerate k env (baseURL a) req) (a, w))"
  by (cases k) (simp_all add: backend_Generate_def backend_doGenerate_def ollama_Generate_def
      llamacpp_Generate_def vllm_Generate_def bitnet_Generate_def)

end
