(* ===== verification/Adapter_Props.thy ===== *)
theory Adapter_Props
  imports Adapters Go_JSON_Roundtrip
begin

text \<open>
  What the adapters guarantee: three of them keep the contract of an inference backend, none of them
  calls its server while its breaker is open, an outage costs three requests, and a token stream
  arrives token for token.
\<close>

section \<open>Calls through the breaker\<close>

lemma with_breaker_run:
  "with_breaker env call (a, w) =
     (if \<not> fst (Allow (clock env w) (cb a))
      then (Ret (Inl ErrCircuitOpen), a\<lparr>cb := snd (Allow (clock env w) (cb a))\<rparr>, w)
      else (Ret (fst (call w)),
            a\<lparr>cb := (case fst (call w) of
               Inl e \<Rightarrow> RecordFailure (clock env (snd (call w))) (snd (Allow (clock env w) (cb a)))
             | Inr r \<Rightarrow> RecordSuccess (snd (Allow (clock env w) (cb a))))\<rparr>, snd (call w)))"
  by (auto simp: with_breaker_def Let_def split: prod.splits sum.splits)

lemma safe_with_breaker:
  assumes "\<And>w. Q (fst (call w))" and "Q (Inl ErrCircuitOpen)"
  shows "safe (with_breaker env call) Q"
  using assms by (auto simp: safe_def with_breaker_run)

lemma with_breaker_rejects:
  "state (cb a) = StateOpen \<Longrightarrow> clock env w \<le> openUntil (cb a) \<Longrightarrow>
   with_breaker env call (a, w) = (Ret (Inl ErrCircuitOpen), a, w)"
  by (cases a) (simp add: with_breaker_run Allow_def)

section \<open>Answers have a choice\<close>

lemma good_completion [simp]: "good_response (Inr (completion i m c f))"
  by (simp add: good_response_def completion_def)

lemma good_Inl [simp]: "good_response (Inl e)"
  by (simp add: good_response_def)

lemma good_ollama: "good_response (fst (ollama_doGenerate env base req w))"
  by (auto simp: ollama_doGenerate_def Let_def split: prod.splits sum.splits)

lemma good_llamacpp: "good_response (fst (llamacpp_doGenerate env base req w))"
  by (auto simp: llamacpp_doGenerate_def Let_def split: prod.splits sum.splits)

lemma good_bitnet: "good_response (fst (bitnet_doGenerate env base req w))"
  by (auto simp: bitnet_doGenerate_def Let_def split: prod.splits sum.splits list.splits)

lemma safe_adapter:
  assumes "\<And>base w. good_response (fst (call base w))"
  shows "safe (\<lambda>(a, w). with_breaker env (call (baseURL a)) (a, w)) good_response"
proof (rule safeI)
  fix aw :: "adapter \<times> 'a"
  obtain a w where aw: "aw = (a, w)" by (cases aw)
  have "safe (with_breaker env (call (baseURL a))) good_response"
    using assms by (intro safe_with_breaker) simp_all
  then show "\<exists>r w'. (\<lambda>(a, w). with_breaker env (call (baseURL a)) (a, w)) aw = (Ret r, w') \<and> good_response r"
    unfolding aw prod.case by (metis safeE)
qed

interpretation ollama: inference_backend "ollama_Generate env" for env :: "'w adapter_env"
  by unfold_locales (unfold ollama_Generate_def, rule safe_adapter, rule good_ollama)

interpretation llamacpp: inference_backend "llamacpp_Generate env" for env :: "'w adapter_env"
  by unfold_locales (unfold llamacpp_Generate_def, rule safe_adapter, rule good_llamacpp)

interpretation bitnet: inference_backend "bitnet_Generate env" for env :: "'w adapter_env"
  by unfold_locales (unfold bitnet_Generate_def, rule safe_adapter, rule good_bitnet)

section \<open>An outage\<close>

text \<open>Requests sent one after the other.\<close>

fun run_requests :: "'s generate \<Rightarrow> generate_request list \<Rightarrow> 's \<Rightarrow> generate_response result go list \<times> 's" where
  "run_requests gen [] s = ([], s)"
| "run_requests gen (r # rs) s =
     (let (x, s1) = gen r s; (xs, s2) = run_requests gen rs s1 in (x # xs, s2))"

lemma backend_post:
  "\<exists>name url body f. backend_doGenerate k env base req w =
     (case post_json env name url body w of (Inl e, w1) \<Rightarrow> (Inl e, w1) | (Inr s, w1) \<Rightarrow> f s w1)"
proof (cases k)
  case OllamaKind
  show ?thesis
    unfolding OllamaKind backend_doGenerate_def backend_kind.case ollama_doGenerate_def Let_def
    by (intro exI, rule refl)
next
  case LlamaCppKind
  show ?thesis
    unfolding LlamaCppKind backend_doGenerate_def backend_kind.case llamacpp_doGenerate_def Let_def
    by (intro exI, rule refl)
next
  case VLLMKind
  show ?thesis
    unfolding VLLMKind backend_doGenerate_def backend_kind.case vllm_doGenerate_def Let_def
    by (intro exI, rule refl)
next
  case BitNetKind
  show ?thesis
    unfolding BitNetKind backend_doGenerate_def backend_kind.case bitnet_doGenerate_def Let_def
    by (intro exI, rule refl)
qed

lemma post_json_down:
  assumes "\<And>req w. \<exists>e. fst (http_do env req w) = Inl e"
  shows "\<exists>e hreq. post_json env name url body w = (Inl e, snd (http_do env hreq w))"
proof -
  let ?r = "\<lparr>Method = ''POST'', Url = url, Headers = [(''Content-Type'', ''application/json'')], ReqBody = body\<rparr>"
  obtain e w1 where "http_do env ?r w = (Inl e, w1)"
    using assms [of ?r w] by (cases "http_do env ?r w") auto
  then show ?thesis by (intro exI [of _ e] exI [of _ ?r]) (simp add: post_json_def)
qed

lemma backend_down:
  assumes "\<And>req w. \<exists>e. fst (http_do env req w) = Inl e"
  shows "\<exists>e hreq. backend_doGenerate k env base req w = (Inl e, snd (http_do env hreq w))"
proof -
  obtain name url body f where "backend_doGenerate k env base req w =
     (case post_json env name url body w of (Inl e, w1) \<Rightarrow> (Inl e, w1) | (Inr s, w1) \<Rightarrow> f s w1)"
    using backend_post [of k env base req w] by (elim exE)
  moreover obtain e hreq where "post_json env name url body w = (Inl e, snd (http_do env hreq w))"
    using post_json_down [OF assms] by blast
  ultimately show ?thesis by auto
qed

lemma run_requests_rejected:
  assumes "state (cb a) = StateOpen" and "clock env w \<le> openUntil (cb a)"
  shows "run_requests (backend_Generate k env) rs (a, w)
       = (replicate (length rs) (Ret (Inl ErrCircuitOpen)), a, w)"
  by (induction rs) (simp_all add: backend_Generate_eq with_breaker_rejects [OF assms])

lemma down_request:
  fixes hits :: "'w \<Rightarrow> nat"
  assumes down: "\<And>req w. \<exists>e. fst (http_do env req w) = Inl e"
    and hits: "\<And>req w. hits (snd (http_do env req w)) = hits w + 1"
    and st: "state (cb a) = StateClosed"
  obtains e w1 where "backend_Generate k env r (a, w)
      = (Ret (Inl e), a\<lparr>cb := RecordFailure (clock env w1) (cb a)\<rparr>, w1)" and "hits w1 = hits w + 1"
proof -
  from backend_down [OF down] obtain e hreq
    where "backend_doGenerate k env (baseURL a) r w = (Inl e, snd (http_do env hreq w))" by blast
  with st hits that show thesis
    by (simp add: backend_Generate_eq with_breaker_run Allow_def)
qed

lemma outage_requests:
  fixes hits :: "'w \<Rightarrow> nat"
  assumes down: "\<And>req w. \<exists>e. fst (http_do env req w) = Inl e"
    and hits: "\<And>req w. hits (snd (http_do env req w)) = hits w + 1"
    and window: "\<And>w. t0 \<le> clock env w \<and> clock env w < t0 + 30 * second"
  shows "state (cb a) = StateClosed \<Longrightarrow> failures (cb a) = 3 - int n \<Longrightarrow> 0 < n \<Longrightarrow> threshold (cb a) = 3 \<Longrightarrow>
    cooldown (cb a) = 30 * second \<Longrightarrow>
    hits (snd (snd (run_requests (backend_Generate k env) rs (a, w)))) = hits w + min n (length rs)
    \<and> drop n (fst (run_requests (backend_Generate k env) rs (a, w)))
        = replicate (length rs - n) (Ret (Inl ErrCircuitOpen))"
proof (induction rs arbitrary: a w n)
  case Nil
  then show ?case by simp
next
  case (Cons r rs)
  obtain e w1 where step: "backend_Generate k env r (a, w)
      = (Ret (Inl e), a\<lparr>cb := RecordFailure (clock env w1) (cb a)\<rparr>, w1)" and h: "hits w1 = hits w + 1"
    using down_request [OF down hits Cons.prems(1)] by blast
  let ?a = "a\<lparr>cb := RecordFailure (clock env w1) (cb a)\<rparr>"
  obtain m where n: "n = Suc m" using Cons.prems(3) gr0_conv_Suc by blast
  show ?case
  proof (cases "m = 0")
    case True
    then have "state (cb ?a) = StateOpen" and "clock env w1 \<le> openUntil (cb ?a)"
      using Cons.prems n by (simp_all add: RecordFailure_def second_def Let_def)
    from run_requests_rejected [OF this, of k rs] True step h n show ?thesis
      by (simp add: Let_def)
  next
    case False
    have "state (cb ?a) = StateClosed \<and> failures (cb ?a) = 3 - int m \<and> threshold (cb ?a) = 3
        \<and> cooldown (cb ?a) = 30 * second"
      using Cons.prems n False by (simp add: RecordFailure_def Let_def)
    moreover obtain xs a2 w2 where "run_requests (backend_Generate k env) rs (?a, w1) = (xs, a2, w2)"
      by (cases "run_requests (backend_Generate k env) rs (?a, w1)") auto
    ultimately show ?thesis
      using Cons.IH [of ?a m w1] False step h n by (simp add: Let_def)
  qed
qed

section \<open>Token streams\<close>

lemma split_on_line: "c \<notin> set l \<Longrightarrow> split_on c (l @ c # s) = l # split_on c s"
  using split_by_none [of l "\<lambda>x. x = c"] by (auto simp: split_on_def split_by_append)

lemma split_on_lines:
  "(\<And>l. l \<in> set ls \<Longrightarrow> c \<notin> set l) \<Longrightarrow> split_on c (concat (map (\<lambda>l. l @ [c]) ls)) = ls @ [[]]"
  by (induction ls) (simp_all add: split_on_line, simp add: split_on_def)

lemma scan_lines_lines:
  assumes "\<And>l. l \<in> set ls \<Longrightarrow> CHR 0x0A \<notin> set l \<and> length l < 65536 \<and> (l = [] \<or> last l \<noteq> CHR 0x0D)"
  shows "scan_lines (concat (map (\<lambda>l. l @ [CHR 0x0A]) ls)) = ls"
proof -
  have "split_on (CHR 0x0A) (concat (map (\<lambda>l. l @ [CHR 0x0A]) ls)) = ls @ [[]]"
    using assms by (intro split_on_lines) blast
  moreover have "takeWhile (\<lambda>l. length l < 65536) ls = ls"
    using assms takeWhile_all [of ls "\<lambda>l. length l < 65536"] by blast
  moreover have "map drop_cr ls = ls"
    using assms by (intro map_idI) (auto simp: drop_cr_def)
  ultimately show ?thesis by (simp add: scan_lines_def Let_def del: takeWhile_eq_all_conv)
qed


text \<open>The chunks' texts, in the order the channel carries them.\<close>

definition chunk_text :: "generate_response \<Rightarrow> string" where
  "chunk_text r = concat (map (\<lambda>c. case Delta c of None \<Rightarrow> [] | Some m \<Rightarrow> Content m) (Choices r))"

lemma chunk_text_chunk [simp]: "chunk_text (chunk i m t) = t"
  by (simp add: chunk_text_def chunk_def)

text \<open>What an Ollama server sends for one token, and for the end of the stream.\<close>

definition ollama_line :: "string \<Rightarrow> string \<Rightarrow> bool \<Rightarrow> string" where
  "ollama_line model t done =
     json_print (JObj [(''model'', JStr model), (''response'', JStr t), (''done'', JBool done)]) @ [CHR 0x0A]"

lemma skip_ws_newline [simp]: "skip_ws (CHR 0x0A # s) = skip_ws s"
  by (simp add: skip_ws_def is_ws_def)

lemma json_value_newline: "json_value n (CHR 0x0A # s) = json_value n s"
  by (cases n) simp_all

lemma json_decode_newline_print:
  assumes "wf_json v" and "delim r"
  shows "json_decode (CHR 0x0A # json_print v @ r) = Some (v, r)"
proof -
  have "2 * length (json_print v) \<le> json_fuel (CHR 0x0A # json_print v @ r)"
    by (simp add: json_fuel_def)
  with json_roundtrip_value [OF assms(1)] assms(2) show ?thesis
    by (auto simp: json_decode_def json_value_newline)
qed

lemma jm_ollama [simp]:
  "jmatches ''response'' [(''model'', a), (''response'', b), (''done'', c)] = [b]"
  "jmatches ''model'' [(''model'', a), (''response'', b), (''done'', c)] = [a]"
  "jmatches ''done'' [(''model'', a), (''response'', b), (''done'', c)] = [c]"
  by code_simp+

abbreviation ollama_obj :: "string \<Rightarrow> string \<Rightarrow> bool \<Rightarrow> json" where
  "ollama_obj model t done \<equiv>
     JObj [(''model'', JStr model), (''response'', JStr t), (''done'', JBool done)]"

lemma json_decode_ollama_line:
  assumes "p = [] \<or> p = [CHR 0x0A]"
  shows "json_decode (p @ ollama_line model t done @ s) = Some (ollama_obj model t done, CHR 0x0A # s)"
proof -
  have "json_decode (json_print (ollama_obj model t done) @ CHR 0x0A # s)
      = Some (ollama_obj model t done, CHR 0x0A # s)"
    by (rule json_decode_print) simp_all
  moreover have "json_decode (CHR 0x0A # json_print (ollama_obj model t done) @ CHR 0x0A # s)
      = Some (ollama_obj model t done, CHR 0x0A # s)"
    by (rule json_decode_newline_print) simp_all
  ultimately show ?thesis using assms unfolding ollama_line_def by auto
qed

lemma ollama_chunk_step:
  assumes "p = [] \<or> p = [CHR 0x0A]"
  shows "ollama_chunks env (p @ ollama_line model t done @ s) w =
    (let (out, w1) = (if t = [] then ([], w) else let (i, w') = uuid env w in ([chunk i model t], w'))
     in if done then (out, w1)
        else let (more, w2) = ollama_chunks env (CHR 0x0A # s) w1 in (out @ more, w2))"
  by (subst ollama_chunks.simps)
    (simp add: json_decode_ollama_line [OF assms] as_obj_def str_field_def bool_field_def as_str_def as_bool_def)

lemma ollama_chunks_body:
  "p = [] \<or> p = [CHR 0x0A] \<Longrightarrow>
   map (\<lambda>r. (RespModel r, chunk_text r)) (fst (ollama_chunks env
     (p @ concat (map (\<lambda>t. ollama_line model t False) ts) @ ollama_line model [] True @ junk) w))
   = map (Pair model) (filter (\<lambda>t. t \<noteq> []) ts)"
proof (induction ts arbitrary: p w)
  case Nil
  then show ?case
    using ollama_chunk_step [OF Nil, of env model "[]" True junk w] by simp
next
  case (Cons t ts)
  let ?rest = "concat (map (\<lambda>t. ollama_line model t False) ts) @ ollama_line model [] True @ junk"
  have IH: "map (\<lambda>r. (RespModel r, chunk_text r)) xs = map (Pair model) (filter (\<lambda>t. t \<noteq> []) ts)"
    if "ollama_chunks env (CHR 0x0A # ?rest) w = (xs, w')" for w xs w'
    using Cons.IH [of "[CHR 0x0A]" w] that by simp
  have [simp]: "RespModel (chunk i model t) = model" for i by (simp add: chunk_def)
  show ?case
    using ollama_chunk_step [OF Cons.prems, of env model t False ?rest w]
    by (auto simp: Let_def split: prod.splits dest: IH)
qed

text \<open>What a llama.cpp server sends for one token: an event line and a blank line.\<close>

definition llamacpp_event :: "string \<Rightarrow> bool \<Rightarrow> string" where
  "llamacpp_event t stop = ''data: '' @ json_print (JObj [(''content'', JStr t), (''stop'', JBool stop)])"

definition sse_body :: "string list \<Rightarrow> string" where
  "sse_body lines = concat (map (\<lambda>l. l @ [CHR 0x0A]) (concat (map (\<lambda>l. [l, []]) lines)))"

lemma jm_llamacpp [simp]:
  "jmatches ''content'' [(''content'', a), (''stop'', b)] = [a]"
  "jmatches ''stop'' [(''content'', a), (''stop'', b)] = [b]"
  by code_simp+

lemma unmarshal_event:
  "has_prefix (llamacpp_event t stop) ''data: ''"
  "unmarshal_obj (drop 6 (llamacpp_event t stop)) = Inr [(''content'', JStr t), (''stop'', JBool stop)]"
  using json_parse_print [of "JObj [(''content'', JStr t), (''stop'', JBool stop)]"]
  by (simp_all add: llamacpp_event_def unmarshal_obj_def as_obj_def del: json_print.simps)

lemma llamacpp_chunks_events:
  "map (\<lambda>r. (RespModel r, chunk_text r)) (fst (llamacpp_chunks env model
     (concat (map (\<lambda>l. [l, []]) (map (\<lambda>t. llamacpp_event t False) ts @ [llamacpp_event [] True]))) w))
   = map (Pair model) (filter (\<lambda>t. t \<noteq> []) ts)"
proof (induction ts arbitrary: w)
  case Nil
  then show ?case
    by (simp add: unmarshal_event str_field_def bool_field_def as_str_def as_bool_def)
next
  case (Cons t ts)
  have [simp]: "RespModel (chunk i model t) = model" for i by (simp add: chunk_def)
  let ?rest = "concat (map (\<lambda>l. [l, []]) (map (\<lambda>t. llamacpp_event t False) ts @ [llamacpp_event [] True]))"
  have IH: "map (\<lambda>r. (RespModel r, chunk_text r)) xs = map (Pair model) (filter (\<lambda>t. t \<noteq> []) ts)"
    if "llamacpp_chunks env model ?rest w = (xs, w')" for w xs w'
    using Cons.IH [of w] that by simp
  have "concat (map (\<lambda>l. [l, []]) (map (\<lambda>t. llamacpp_event t False) (t # ts) @ [llamacpp_event [] True]))
      = llamacpp_event t False # [] # ?rest" by simp
  then show ?case
    using Cons.IH [of w]
    by (auto simp: unmarshal_event str_field_def bool_field_def as_str_def as_bool_def Let_def
        simp del: map_append concat_append split: prod.splits dest: IH)
qed

lemma event_line_ok:
  "CHR 0x0A \<notin> set (llamacpp_event t stop) \<and> last (llamacpp_event t stop) \<noteq> CHR 0x0D"
proof -
  have "CHR 0x0A \<notin> set (json_print (JObj [(''content'', JStr t), (''stop'', JBool stop)]))"
    by (rule json_print_no_newline) simp
  moreover have "CHR 0x0A \<notin> set ''data: ''" by simp
  moreover have "last (llamacpp_event t stop) = CHR 0x7D"
    by (simp add: llamacpp_event_def)
  ultimately show ?thesis by (simp add: llamacpp_event_def del: json_print.simps)
qed

lemma scan_sse_body:
  assumes "\<And>l. l \<in> set ls \<Longrightarrow> CHR 0x0A \<notin> set l \<and> length l < 65536 \<and> last l \<noteq> CHR 0x0D"
  shows "scan_lines (sse_body ls) = concat (map (\<lambda>l. [l, []]) ls)"
  unfolding sse_body_def using assms by (intro scan_lines_lines) auto

text \<open>A line of 64 KiB or more ends the scan: nothing from it on is seen.\<close>

lemma scan_lines_too_long:
  assumes "\<And>l. l \<in> set ls \<Longrightarrow> CHR 0x0A \<notin> set l \<and> length l < 65536 \<and> (l = [] \<or> last l \<noteq> CHR 0x0D)"
    and "CHR 0x0A \<notin> set big" and "65536 \<le> length big"
  shows "scan_lines (concat (map (\<lambda>l. l @ [CHR 0x0A]) ls) @ big @ CHR 0x0A # rest) = ls"
proof -
  define tl where "tl = split_on (CHR 0x0A) rest"
  have sp: "split_on (CHR 0x0A) (concat (map (\<lambda>l. l @ [CHR 0x0A]) ls) @ big @ CHR 0x0A # rest)
      = ls @ big # tl"
    using assms(1)
  proof (induction ls)
    case Nil
    then show ?case using assms(2) by (simp add: split_on_line tl_def)
  next
    case (Cons l ls)
    then show ?case by (simp add: split_on_line)
  qed
  define ls1 where "ls1 = (if last (ls @ big # tl) = [] then butlast (ls @ big # tl) else ls @ big # tl)"
  have ne: "tl \<noteq> []" by (simp add: tl_def)
  then have "ls1 = ls @ big # (if last tl = [] then butlast tl else tl)"
    by (simp add: ls1_def butlast_append)
  then obtain u where "ls1 = ls @ big # u" by blast
  moreover have "takeWhile (\<lambda>l. length l < 65536) (ls @ big # u) = ls" for u
    using assms(1,3) by (simp add: takeWhile_append2)
  moreover have "map drop_cr ls = ls"
    using assms(1) by (intro map_idI) (auto simp: drop_cr_def)
  ultimately show ?thesis unfolding scan_lines_def sp Let_def ls1_def [symmetric] by simp
qed

section \<open>Properties\<close>

text \<open>
  Ollama, llama.cpp and BitNet keep the contract the orchestration code needs: a call never
  panics, and an answer without an error has at least one choice.
\<close>

theorem adapters_answer_with_a_choice:
  "safe (ollama_Generate env req) good_response \<and> safe (llamacpp_Generate env req) good_response
   \<and> safe (bitnet_Generate env req) good_response"
  using ollama.generate_good llamacpp.generate_good bitnet.generate_good by blast

text \<open>
  C9. The vLLM adapter does not: a server that answers with no choices makes the adapter succeed,
  and the caller's \<open>resp.Choices[0]\<close> panics.
\<close>

theorem vllm_empty_choices_panic:
  assumes "state (cb a) = StateClosed"
    and "\<And>r. http_do env r w = (Inr \<lparr>Status = 200, Body = json_print (JObj [(''choices'', JArr [])])\<rparr>, w)"
  shows "\<exists>m s. ask (vllm_Generate env) req (a, w) = (Panic m, s)"
proof -
  have "json_decode (json_print (JObj [(''choices'', JArr [])]))
      = Some (JObj [(''choices'', JArr [])], [])"
    using json_decode_print [of "JObj [(''choices'', JArr [])]" "[]"] by simp
  moreover have "jmatches k [(''choices'', v)] = []" if "to_lower k \<noteq> to_lower ''choices''" for k v
    using that by (simp add: jmatches_def)
  moreover have "to_lower ''id'' \<noteq> to_lower ''choices''" "to_lower ''object'' \<noteq> to_lower ''choices''"
    "to_lower ''model'' \<noteq> to_lower ''choices''" by code_simp+
  moreover have "jmatches ''choices'' [(''choices'', v)] = [v]" for v
    by (simp add: jmatches_def)
  ultimately have "fst (vllm_doGenerate env (baseURL a) req w) =
      Inr \<lparr>RespID = [], RespObject = [], RespModel = [], Choices = []\<rparr>"
    by (simp add: vllm_doGenerate_def post_json_def assms(2) decode_obj_def as_obj_def str_field_def
        list_field_def as_list_def del: json_print.simps)
  with assms(1) show ?thesis
    by (simp add: ask_def gbind_def vllm_Generate_def with_breaker_run Allow_def first_content_def glift_def)
qed

definition empty_vllm :: "unit adapter_env" where
  "empty_vllm = \<lparr>http_do = (\<lambda>r w. (Inr \<lparr>Status = 200, Body = json_print (JObj [(''choices'', JArr [])])\<rparr>, w)),
     clock = (\<lambda>w. 0), uuid = (\<lambda>w. ([], w))\<rparr>"

lemma vllm_empty_choices_panic_witness:
  "\<exists>m s. ask (vllm_Generate empty_vllm) (gen_request ''m'' []) (NewVLLMAdapter (\<lambda>_. []), ()) = (Panic m, s)"
  by (rule vllm_empty_choices_panic)
    (simp_all add: empty_vllm_def NewVLLMAdapter_def NewCircuitBreaker_def del: json_print.simps)

text \<open>
  C10. While its breaker is open no adapter calls its server, blocking or streaming: the call fails
  with \<open>ErrCircuitOpen\<close>, and neither the adapter nor the world changes.
\<close>

theorem open_breaker_isolates:
  assumes "state (cb a) = StateOpen" and "clock env w \<le> openUntil (cb a)"
  shows "backend_Generate k env req (a, w) = (Ret (Inl ErrCircuitOpen), a, w)
    \<and> ollama_Stream env req (a, w) = (Ret (Inl ErrCircuitOpen), a, w)
    \<and> llamacpp_Stream env req (a, w) = (Ret (Inl ErrCircuitOpen), a, w)
    \<and> bitnet_Stream env req (a, w) = (Ret (Inl ErrCircuitOpen), a, w)
    \<and> vllm_Stream env req (a, w) = (Ret (Inl ErrCircuitOpen), a, w)"
  by (simp add: assms with_breaker_rejects backend_Generate_eq ollama_Stream_def llamacpp_Stream_def bitnet_Stream_def vllm_Stream_def)

lemma open_breaker_isolates_witness:
  "backend_Generate BitNetKind empty_vllm (gen_request ''m'' [])
     (\<lparr>baseURL = [], cb = NewCircuitBreaker\<lparr>state := StateOpen, openUntil := 5\<rparr>\<rparr>, ())
   = (Ret (Inl ErrCircuitOpen), \<lparr>baseURL = [], cb = NewCircuitBreaker\<lparr>state := StateOpen, openUntil := 5\<rparr>\<rparr>, ())"
  by (rule open_breaker_isolates [THEN conjunct1]) (simp_all add: empty_vllm_def)

text \<open>
  C3. An outage costs three requests: from a new adapter whose server fails every request, however
  many calls are made within the 30 second window, exactly the first three reach the server and
  every later one is rejected by the breaker.
\<close>

theorem outage_costs_three_requests:
  fixes hits :: "'w \<Rightarrow> nat"
  assumes "\<And>req w. \<exists>e. fst (http_do env req w) = Inl e"
    and "\<And>req w. hits (snd (http_do env req w)) = hits w + 1"
    and "\<And>w. t0 \<le> clock env w \<and> clock env w < t0 + 30 * second"
    and "cb a = NewCircuitBreaker"
  shows "hits (snd (snd (run_requests (backend_Generate k env) rs (a, w)))) = hits w + min 3 (length rs)
    \<and> drop 3 (fst (run_requests (backend_Generate k env) rs (a, w)))
        = replicate (length rs - 3) (Ret (Inl ErrCircuitOpen))"
  by (rule outage_requests [OF assms(1-3)]) (simp_all add: assms(4) NewCircuitBreaker_def)

definition down_env :: "nat adapter_env" where
  "down_env = \<lparr>http_do = (\<lambda>r n. (Inl ''connection refused'', n + 1)), clock = (\<lambda>w. 7), uuid = (\<lambda>w. ([], w))\<rparr>"

lemma outage_costs_three_requests_witness:
  "snd (snd (run_requests (backend_Generate OllamaKind down_env)
      (replicate 5 (gen_request ''m'' [])) (NewOllamaAdapter (\<lambda>_. []), 0))) = 3"
  using outage_costs_three_requests [of down_env id 0 "NewOllamaAdapter (\<lambda>_. [])" OllamaKind
      "replicate 5 (gen_request ''m'' [])" 0]
  by (simp add: down_env_def NewOllamaAdapter_def second_def)

text \<open>
  C7. A token stream of an Ollama server arrives complete and in order: the channel carries one
  chunk per non-empty token, and nothing after the line that says done.
\<close>

theorem ollama_stream_tokens:
  "map (\<lambda>r. (RespModel r, chunk_text r)) (fst (ollama_chunks env
     (concat (map (\<lambda>t. ollama_line model t False) ts) @ ollama_line model [] True @ junk) w))
   = map (Pair model) (filter (\<lambda>t. t \<noteq> []) ts)"
  using ollama_chunks_body [of "[]" env model ts junk w] by simp

text \<open>
  So does the event stream of a llama.cpp server whose event lines fit the scanner's buffer.
\<close>

theorem llamacpp_stream_tokens:
  assumes "\<And>t. t \<in> set ts \<Longrightarrow> length (llamacpp_event t False) < 65536"
  shows "map (\<lambda>r. (RespModel r, chunk_text r)) (fst (llamacpp_chunks env model
     (scan_lines (sse_body (map (\<lambda>t. llamacpp_event t False) ts @ [llamacpp_event [] True]))) w))
   = map (Pair model) (filter (\<lambda>t. t \<noteq> []) ts)"
proof -
  have "length (llamacpp_event [] True) < 65536"
    by (simp add: llamacpp_event_def json_quote_def json_esc_def)
  with assms event_line_ok
  have "scan_lines (sse_body (map (\<lambda>t. llamacpp_event t False) ts @ [llamacpp_event [] True]))
      = concat (map (\<lambda>l. [l, []]) (map (\<lambda>t. llamacpp_event t False) ts @ [llamacpp_event [] True]))"
    by (intro scan_sse_body) auto
  then show ?thesis using llamacpp_chunks_events [of env model ts w] by simp
qed

lemma llamacpp_stream_tokens_witness:
  "map (\<lambda>r. (RespModel r, chunk_text r)) (fst (llamacpp_chunks empty_vllm ''m''
     (scan_lines (sse_body (map (\<lambda>t. llamacpp_event t False) [''a'', [], ''b''] @ [llamacpp_event [] True]))) ()))
   = [(''m'', ''a''), (''m'', ''b'')]"
  by (subst llamacpp_stream_tokens)
    (auto simp: llamacpp_event_def json_quote_def json_esc_def)

end
