(* ===== verification/Pipeline.thy ===== *)
theory Pipeline
  imports Context_Manager Self_Critique Code_Feedback Web_Augmenter Adapter_Props
begin

text \<open>
  The orchestration pass (\<open>internal/orchestration/pipeline.go\<close>), composed of the context manager, the
  web augmenter, the planner, the formatter, the code-feedback loop and the critique loop, all over
  one backend. \<open>search\<close> is \<open>None\<close> when no web augmenter is attached.
\<close>

record 'w pipeline_env =
  p_redis :: "'w redis"
  p_timer :: "'w timer"
  p_python :: "'w python"
  p_search :: "'w web_searcher option"

definition augment_step :: "'w pipeline_env \<Rightarrow> message list \<Rightarrow> ('w, message list \<times> bool) prog" where
  "augment_step E ms =
     (case p_search E of
        None \<Rightarrow> gret (ms, False)
      | Some search \<Rightarrow> gbind (Augment search ms) (\<lambda>(augmented, searched).
          gret (if searched then (augmented, True) else (ms, False))))"

text \<open>
  The generation step for one intent: the content, the format-error flag and the four result fields
  it sets (CoTApplied, CodeFeedback, PEVApplied, PEVScore).
\<close>

type_synonym step_result = "(string \<times> bool \<times> bool \<times> bool \<times> bool \<times> int) result"

definition direct_step :: "'w generate \<Rightarrow> string \<Rightarrow> generate_request \<Rightarrow> intent \<Rightarrow> ('w, step_result) prog" where
  "direct_step gen complaint genReq i =
     gbind (Format_output gen genReq i) (\<lambda>f. case f of
        Inl e \<Rightarrow> gret (Inl (complaint @ e))
      | Inr (content, fe) \<Rightarrow> gret (Inr (content, fe, False, False, False, 0)))"

definition cot_step :: "'w generate \<Rightarrow> generate_request \<Rightarrow> ('w, step_result) prog" where
  "cot_step gen genReq =
     gbind (Decompose gen genReq) (\<lambda>d. case d of
        Inr content \<Rightarrow> gret (Inr (content, False, True, False, False, 0))
      | Inl _ \<Rightarrow> direct_step gen ''fallback generate: '' genReq IntentSimpleGenerate)"

definition code_step :: "'w pipeline_env \<Rightarrow> 'w generate \<Rightarrow> generate_request \<Rightarrow> ('w, step_result) prog" where
  "code_step E gen genReq =
     gbind (Format_output gen genReq IntentCodeGeneration) (\<lambda>f. case f of
        Inl e \<Rightarrow> gret (Inl (''code generate: '' @ e))
      | Inr (content, fe) \<Rightarrow> gbind (feedback_Run (p_python E) gen content genReq) (\<lambda>(improved, ran).
          gret (Inr (if ran then improved else content, fe, False, ran, False, 0))))"

definition generate_step ::
  "'w pipeline_env \<Rightarrow> 'w generate \<Rightarrow> intent \<Rightarrow> generate_request \<Rightarrow> ('w, step_result) prog" where
  "generate_step E gen i genReq =
     (if i = IntentComplexReasoning \<or> i = IntentCodeGeneration then
        gbind (pev_Run gen genReq) (\<lambda>p. case p of
          Inr (content, score) \<Rightarrow> gret (Inr (content, False, False, False, True, score))
        | Inl _ \<Rightarrow> if i = IntentComplexReasoning then cot_step gen genReq else code_step E gen genReq)
      else direct_step gen ''output formatter: '' genReq i)"

definition should_critique :: "intent \<Rightarrow> orchestration_request \<Rightarrow> bool" where
  "should_critique i req =
     (i = IntentComplexReasoning \<or> i = IntentCodeGeneration \<or> fst (ShouldCritique req))"

definition critique_step ::
  "'w generate \<Rightarrow> orchestration_request \<Rightarrow> orchestration_result \<Rightarrow> ('w, orchestration_result) prog" where
  "critique_step gen req res =
     (let maxRounds = (if MaxCritique req \<le> 0 then defaultMaxCritiqueRounds else MaxCritique req)
      in if should_critique (RIntent res) req
         then gbind (CritiqueLoop gen (RContent res) req maxRounds) (\<lambda>(improved, score, rounds).
                gret (res\<lparr>RContent := improved, CritiqueApplied := True, CritiqueRounds := rounds,
                  CritiqueScore := score\<rparr>))
         else gret res)"

definition pipeline_Run ::
  "'w pipeline_env \<Rightarrow> 'w generate \<Rightarrow> orchestration_request \<Rightarrow> ('w, orchestration_result result) prog" where
  "pipeline_Run E gen req =
     gbind (LoadAndManage max_polls (p_redis E) (p_timer E) gen (SessionID req)) (\<lambda>c. case c of
        Inl e \<Rightarrow> gret (Inl (''context manager: '' @ e))
      | Inr messages \<Rightarrow>
        gbind (augment_step E (messages @ OMessages req)) (\<lambda>(allMessages, webSearched).
          let (i, isFallback) = ClassifyIntent req;
              genReq = (gen_request (OModel req) allMessages)\<lparr>Stream := OStream req\<rparr>
          in gbind (generate_step E gen i genReq) (\<lambda>g. case g of
               Inl e \<Rightarrow> gret (Inl e)
             | Inr (content, fe, cot, fb, pev, pevScore) \<Rightarrow>
               gbind (critique_step gen req
                 \<lparr>RContent = content, RIntent = i, IntentFallback = isFallback, FormatError = fe,
                  RRAGDegraded = RAGDegraded req, CritiqueApplied = False, CritiqueRounds = 0,
                  CoTApplied = cot, CodeFeedback = fb, CritiqueScore = 0, WebSearched = webSearched,
                  PEVApplied = pev, PEVScore = pevScore\<rparr>) (\<lambda>res. gret (Inr res)))))"

section \<open>The pass never panics\<close>

text \<open>
  What a pass returns: the intent and the flags follow the request, and critique was applied exactly
  when the request calls for it.
\<close>

definition pass_ok :: "orchestration_request \<Rightarrow> orchestration_result result \<Rightarrow> bool" where
  "pass_ok req r = (case r of Inl _ \<Rightarrow> True | Inr res \<Rightarrow>
     RIntent res = fst (ClassifyIntent req)
     \<and> (CritiqueApplied res \<longleftrightarrow> should_critique (fst (ClassifyIntent req)) req)
     \<and> (\<not> CritiqueApplied res \<longrightarrow> CritiqueRounds res = 0))"

definition search_ok :: "'w pipeline_env \<Rightarrow> bool" where
  "search_ok E \<longleftrightarrow> (\<forall>search q k. p_search E = Some search \<longrightarrow> safe (search q k) (\<lambda>_. True))"

context inference_backend
begin

lemma safe_direct_step: "safe (direct_step Generate complaint genReq i) (\<lambda>_. True)"
  unfolding direct_step_def
  by (rule safe_gbind [OF safe_Format_output]) (auto intro!: safe_gret split: sum.splits)

lemma safe_cot_step: "safe (cot_step Generate genReq) (\<lambda>_. True)"
  unfolding cot_step_def
  by (rule safe_gbind [OF safe_Decompose]) (auto intro!: safe_gret safe_direct_step split: sum.splits)

lemma safe_code_step: "safe (code_step E Generate genReq) (\<lambda>_. True)"
  unfolding code_step_def
  by (rule safe_gbind [OF safe_Format_output])
    (auto intro!: safe_gret safe_gbind [OF safe_feedback_Run] split: sum.splits)

lemma safe_generate_step: "safe (generate_step E Generate i genReq) (\<lambda>_. True)"
  unfolding generate_step_def
  by (intro safe_if safe_gbind [OF safe_pev_Run] safe_direct_step)
    (auto intro!: safe_gret safe_cot_step safe_code_step split: sum.splits)

lemma safe_critique_step:
  "safe (critique_step Generate req res)
     (\<lambda>r. RIntent r = RIntent res
        \<and> (CritiqueApplied r \<longleftrightarrow> CritiqueApplied res \<or> should_critique (RIntent res) req)
        \<and> (\<not> should_critique (RIntent res) req \<longrightarrow> CritiqueRounds r = CritiqueRounds res))"
  unfolding critique_step_def Let_def
  by (intro safe_if safe_gbind [OF safe_CritiqueLoop]) (auto intro!: safe_gret)

lemma safe_augment_step:
  assumes "search_ok E"
  shows "safe (augment_step E ms) (\<lambda>_. True)"
  unfolding augment_step_def
  using assms unfolding search_ok_def
  by (auto intro!: safe_gret safe_gbind [OF safe_Augment] split: option.splits)

lemma safe_pipeline_Run:
  assumes "search_ok E"
  shows "safe (pipeline_Run E Generate req) (pass_ok req)"
proof -
  obtain i isFallback where i: "ClassifyIntent req = (i, isFallback)" by (cases "ClassifyIntent req")
  have fin: "safe (gbind (critique_step Generate req
                 \<lparr>RContent = content, RIntent = i, IntentFallback = isFallback, FormatError = fe,
                  RRAGDegraded = RAGDegraded req, CritiqueApplied = False, CritiqueRounds = 0,
                  CoTApplied = cot, CodeFeedback = fb, CritiqueScore = 0, WebSearched = ws,
                  PEVApplied = pev, PEVScore = ps\<rparr>) (\<lambda>res. gret (Inr res))) (pass_ok req)"
    for content fe cot fb pev ps ws
    by (rule safe_gbind [OF safe_critique_step]) (auto intro!: safe_gret simp: pass_ok_def i)
  show ?thesis
    unfolding pipeline_Run_def Let_def i prod.case
    by (rule safe_gbind [OF safe_LoadAndManage])
      (auto intro!: safe_gret safe_gbind [OF safe_augment_step [OF assms]] safe_gbind [OF safe_generate_step] fin
        split: sum.splits simp: pass_ok_def [of req "Inl _"])
qed

end

section \<open>Properties\<close>

text \<open>
  C2. A pass over any of the three well-behaved adapters never panics, whatever the model, Redis,
  Python and the search engine answer: it returns an error or a result whose intent is the one the
  request classifies to, with critique applied exactly when the intent or the request asks for it.
\<close>

theorem pipeline_total:
  assumes "search_ok E"
  shows "safe (pipeline_Run E (ollama_Generate env) req) (pass_ok req)
    \<and> safe (pipeline_Run E (llamacpp_Generate env) req) (pass_ok req)
    \<and> safe (pipeline_Run E (bitnet_Generate env) req) (pass_ok req)"
  using ollama.safe_pipeline_Run [OF assms] llamacpp.safe_pipeline_Run [OF assms]
    bitnet.safe_pipeline_Run [OF assms] by blast

definition idle_env :: "'w pipeline_env" where
  "idle_env = \<lparr>p_redis = \<lparr>pipelined = (\<lambda>_ w. (None, w)), lrange = (\<lambda>_ _ _ w. (Inr [], w)), del = (\<lambda>_ w. (None, w)),
       setnx = (\<lambda>_ _ _ w. (Inr False, w)), exists = (\<lambda>_ w. (Inr 0, w))\<rparr>,
     p_timer = \<lparr>time_now = (\<lambda>_. 0), sleep = (\<lambda>_ w. w)\<rparr>, p_python = (\<lambda>_ w. (None, w)), p_search = None\<rparr>"

definition plain_request :: orchestration_request where
  "plain_request = \<lparr>SessionID = ''s'', OMessages = [msg ''user'' ''hello''], OModel = ''m'', OStream = False,
     ResponseFormat = None, AgentMode = False, RAGEnabled = False, Domain = [], Critique = False,
     RAGDegraded = False, SideEffect = False, CoTEnabled = False, MaxCritique = 0\<rparr>"

lemma pipeline_total_witness:
  "safe (pipeline_Run idle_env (ollama_Generate empty_vllm) plain_request) (pass_ok plain_request)"
  by (rule pipeline_total [THEN conjunct1]) (simp add: search_ok_def idle_env_def)

text \<open>
  When PEV fails for a coding request, the code-feedback loop may lose the answer: if the code
  it found does not run and the request for a fix fails, the generation step returns the empty
  content, with no error, in place of the answer the model had given.
\<close>

theorem failed_fix_loses_answer:
  assumes "pev_Run gen genReq w = (Ret (Inl e0), w1)"
    and "Format_output gen genReq IntentCodeGeneration w1 = (Ret (Inr (content, fe)), w2)"
    and "extractFirstCodeBlock content = (''python'', code)" and "code \<noteq> []"
    and "p_python E code w2 = (Some e1, w3)"
    and "ask gen (gen_request (Model genReq) [msg ''user'' (fix_prompt ''python'' code e1)]) w3 = (Ret (Inl e2), w4)"
  shows "generate_step E gen IntentCodeGeneration genReq w = (Ret (Inr ([], fe, False, True, False, 0)), w4)"
  using assms
  by (simp add: generate_step_def code_step_def feedback_Run_def maxCodeFeedbackRounds_def numeral_eq_Suc
      check_code_def runCode_def requestFix_failure)

text \<open>
  A backend that answers the third question and no other: PEV fails at its plan and at its fallback,
  the direct call succeeds, the fix request fails.
\<close>

definition third_only :: "nat generate" where
  "third_only req n =
     (if n = 2 then (Ret (Inr (completion [] [] ''```python x```'' [])), n + 1)
      else (Ret (Inl ''down''), n + 1))"

definition crash_env :: "nat pipeline_env" where
  "crash_env = idle_env\<lparr>p_python := (\<lambda>c w. (Some ''NameError'', w))\<rparr>"

lemma failed_fix_loses_answer_witness:
  "generate_step crash_env third_only IntentCodeGeneration (gen_request ''m'' []) 0
   = (Ret (Inr ([], False, False, True, False, 0)), 4)"
proof (rule failed_fix_loses_answer)
  have a: "ask third_only r n = (Ret (if n = 2 then Inr ''```python x```'' else Inl ''down''), n + 1)" for r n
    by (simp add: ask_def gbind_def third_only_def completion_def first_content_def glift_def)
  show "pev_Run third_only (gen_request ''m'' []) 0 = (Ret (Inl ''pev fallback generate: down''), 2)"
    unfolding pev_Run_def runPlanPhase_def by (subst plan_loop.simps) (simp add: a gbind_def)
  show "Format_output third_only (gen_request ''m'' []) IntentCodeGeneration 2 = (Ret (Inr (''```python x```'', False)), 3)"
    by (simp add: Format_output_def a)
  show "ask third_only (gen_request (Model (gen_request ''m'' [])) [msg ''user'' (fix_prompt ''python'' ''x'' ''NameError'')]) 3
      = (Ret (Inl ''down''), 4)"
    by (simp add: a)
  show "extractFirstCodeBlock ''```python x```'' = (''python'', ''x'')" by code_simp
qed (simp_all add: crash_env_def)

end
