(* ===== verification/Go_Floats.thy ===== *)
theory Go_Floats
  imports Go_Strings
begin

text \<open>
  Floating-point arithmetic as a parameter. A float32 is its JSON literal, as elsewhere in the model; a
  float64 is a value of an unknown type \<open>'d\<close>. The record names the operations of the language that the
  source uses; what a proof needs of them is a hypothesis of its theorem.
\<close>

record 'd floats =
  widen :: "string \<Rightarrow> 'd"
  narrow :: "'d \<Rightarrow> string"
  f_zero :: 'd
  f_add :: "'d \<Rightarrow> 'd \<Rightarrow> 'd"
  f_mul :: "'d \<Rightarrow> 'd \<Rightarrow> 'd"
  f_div :: "'d \<Rightarrow> 'd \<Rightarrow> 'd"
  f_sqrt :: "'d \<Rightarrow> 'd"
  f_less :: "'d \<Rightarrow> 'd \<Rightarrow> bool"
  f_eq :: "'d \<Rightarrow> 'd \<Rightarrow> bool"
  s_of_int :: "int \<Rightarrow> string"
  s_div :: "string \<Rightarrow> string \<Rightarrow> string"
  s_le :: "string \<Rightarrow> string \<Rightarrow> bool"

text \<open>The loop of a sum of products.\<close>

definition f_dot :: "'d floats \<Rightarrow> string list \<Rightarrow> string list \<Rightarrow> 'd" where
  "f_dot F a b = fold (\<lambda>(x, y) acc. f_add F acc (f_mul F (widen F x) (widen F y))) (zip a b) (f_zero F)"

lemma zip_swap: "zip b a = map (\<lambda>(x, y). (y, x)) (zip a b)"
proof (induction a arbitrary: b)
  case (Cons x a)
  then show ?case by (cases b) auto
qed simp

lemma f_dot_commute:
  assumes "\<And>x y. f_mul F x y = f_mul F y x"
  shows "f_dot F a b = f_dot F b a"
proof -
  have "(\<lambda>(x, y) acc. f_add F acc (f_mul F (widen F x) (widen F y))) \<circ> (\<lambda>(x, y). (y, x))
      = (\<lambda>(x, y) acc. f_add F acc (f_mul F (widen F x) (widen F y)))"
    using assms by (auto simp: fun_eq_iff)
  then show ?thesis by (simp add: f_dot_def zip_swap [of b a] fold_map)
qed

end
