(* ===== verification/Gateway_Core.thy ===== *)
theory Gateway_Core
  imports Backend Sessions Web_Augmenter Go_Floats
begin

text \<open>
  What the handlers of \<open>internal/gateway\<close> share: the worker pool (\<open>workerpool.go\<close>), the semantic
  cache (\<open>semantic_cache.go\<close>) and HTTP replies. The web framework is reduced to the request's body and
  headers and to a reply of a status, headers and a body.
\<close>

section \<open>The worker pool\<close>

record worker_pool =
  sem_len :: nat
  maxSize :: nat

definition NewWorkerPool :: "nat \<Rightarrow> worker_pool" where
  "NewWorkerPool psize = \<lparr>sem_len = 0, maxSize = psize\<rparr>"

definition Acquire :: "worker_pool \<Rightarrow> bool \<times> worker_pool" where
  "Acquire p = (if sem_len p < maxSize p then (True, p\<lparr>sem_len := sem_len p + 1\<rparr>) else (False, p))"

text \<open>Receiving from an empty channel blocks, which is \<open>None\<close>.\<close>

definition Release :: "worker_pool \<Rightarrow> worker_pool option" where
  "Release p = (if sem_len p = 0 then None else Some (p\<lparr>sem_len := sem_len p - 1\<rparr>))"

definition InFlight :: "worker_pool \<Rightarrow> nat" where
  "InFlight p = sem_len p"

definition MaxSize :: "worker_pool \<Rightarrow> nat" where
  "MaxSize p = maxSize p"

text \<open>
  Requests that run at the same time: the state is the pool and the number of handlers that hold a
  slot. A handler enters, is turned away, or leaves and releases its slot.
\<close>

inductive pool_step :: "worker_pool \<times> nat \<Rightarrow> worker_pool \<times> nat \<Rightarrow> bool" where
  enter: "Acquire p = (True, p') \<Longrightarrow> pool_step (p, n) (p', n + 1)"
| turned_away: "Acquire p = (False, p') \<Longrightarrow> pool_step (p, n) (p', n)"
| leave: "Release p = Some p' \<Longrightarrow> pool_step (p, n + 1) (p', n)"

inductive_cases pool_stepE: "pool_step (p, n) q"

inductive pool_reachable :: "nat \<Rightarrow> worker_pool \<times> nat \<Rightarrow> bool" for psize where
  pool_new: "pool_reachable psize (NewWorkerPool psize, 0)"
| pool_next: "pool_reachable psize q \<Longrightarrow> pool_step q q' \<Longrightarrow> pool_reachable psize q'"

lemma pool_invariant: "pool_reachable psize q \<Longrightarrow> sem_len (fst q) = snd q \<and> snd q \<le> psize \<and> maxSize (fst q) = psize"
proof (induction rule: pool_reachable.induct)
  case pool_new
  then show ?case by (simp add: NewWorkerPool_def)
next
  case (pool_next q q')
  then show ?case
    by (auto simp: Acquire_def Release_def elim!: pool_step.cases split: if_splits)
qed

section \<open>The semantic cache\<close>

text \<open>
  Entries from the oldest to the newest. Whether two embeddings are similar enough is a parameter of the
  lookup; the code's choice is \<open>cosine_similar\<close>.
\<close>

record 'e semantic_cache =
  entries :: "('e \<times> string) list"
  cacheSize :: int

definition NewSemanticCache :: "int \<Rightarrow> 'e semantic_cache go" where
  "NewSemanticCache n =
     (if n < 0 then Panic ''makeslice: cap out of range'' else Ret \<lparr>entries = [], cacheSize = n\<rparr>)"

definition CosineSimilarity :: "'d floats \<Rightarrow> string list \<Rightarrow> string list \<Rightarrow> string" where
  "CosineSimilarity F a b =
     (if length a \<noteq> length b \<or> a = [] then ''0''
      else let normA = f_sqrt F (f_dot F a a); normB = f_sqrt F (f_dot F b b)
           in if f_eq F normA (f_zero F) \<or> f_eq F normB (f_zero F) then ''0''
              else narrow F (f_div F (f_dot F a b) (f_mul F normA normB)))"

definition cosine_similar :: "'d floats \<Rightarrow> string \<Rightarrow> string list \<Rightarrow> string list \<Rightarrow> bool" where
  "cosine_similar F threshold emb e = s_le F threshold (CosineSimilarity F emb e)"

lemma CosineSimilarity_commute:
  assumes "\<And>x y. f_mul F x y = f_mul F y x"
  shows "CosineSimilarity F a b = CosineSimilarity F b a"
  unfolding CosineSimilarity_def Let_def f_dot_commute [OF assms, of a b] assms [of "f_sqrt F (f_dot F a a)"]
  by auto

definition sem_Lookup :: "('e \<Rightarrow> 'e \<Rightarrow> bool) \<Rightarrow> 'e \<Rightarrow> 'e semantic_cache \<Rightarrow> string option" where
  "sem_Lookup similar emb c = map_option snd (find (\<lambda>(e, _). similar emb e) (entries c))"

definition sem_Store :: "'e \<Rightarrow> string \<Rightarrow> 'e semantic_cache \<Rightarrow> 'e semantic_cache go" where
  "sem_Store emb response c =
     (if cacheSize c \<le> int (length (entries c)) then
        (case entries c of
           [] \<Rightarrow> Panic ''slice bounds out of range [1:0]''
         | _ # es \<Rightarrow> Ret (c\<lparr>entries := es @ [(emb, response)]\<rparr>))
      else Ret (c\<lparr>entries := entries c @ [(emb, response)]\<rparr>))"

definition sem_Len :: "'e semantic_cache \<Rightarrow> nat" where
  "sem_Len c = length (entries c)"

text \<open>A run of stores, if none panics.\<close>

fun store_all :: "('e \<times> string) list \<Rightarrow> 'e semantic_cache \<Rightarrow> 'e semantic_cache go" where
  "store_all [] c = Ret c"
| "store_all ((e, r) # xs) c = (case sem_Store e r c of Ret c' \<Rightarrow> store_all xs c' | Panic m \<Rightarrow> Panic m)"

lemma store_all_last:
  "0 < n \<Longrightarrow> cacheSize c = int n \<Longrightarrow> entries c = last_n n old \<Longrightarrow>
   \<exists>c'. store_all xs c = Ret c' \<and> entries c' = last_n n (old @ xs) \<and> cacheSize c' = int n"
proof (induction xs arbitrary: c old)
  case Nil
  then show ?case by simp
next
  case (Cons x xs)
  obtain e r where x: "x = (e, r)" by (cases x)
  have len: "length (last_n n old) \<le> n" by (simp add: last_n_def)
  have "\<exists>c1. sem_Store e r c = Ret c1 \<and> entries c1 = last_n n (old @ [x]) \<and> cacheSize c1 = int n"
  proof (cases "length (entries c) < n")
    case True
    then have "length old < n" using Cons.prems by (simp add: last_n_def)
    with Cons.prems True show ?thesis by (simp add: sem_Store_def x last_n_def)
  next
    case False
    with Cons.prems len have l: "length (entries c) = n" by simp
    then obtain y es where y: "entries c = y # es" using Cons.prems(1) by (cases "entries c") auto
    have "last_n n (old @ [x]) = es @ [x]"
    proof -
      have "last_n n (last_n n old @ [x]) = last_n n (old @ [x])"
        by (rule last_n_snoc [OF Cons.prems(1)])
      moreover have "last_n n ((y # es) @ [x]) = es @ [x]"
        using l y by (simp add: last_n_def)
      moreover have "last_n n old = y # es" using Cons.prems(3) y by simp
      ultimately show ?thesis by metis
    qed
    with Cons.prems(2) l y show ?thesis by (simp add: sem_Store_def x)
  qed
  then obtain c1 where c1: "sem_Store e r c = Ret c1" "entries c1 = last_n n (old @ [x])" "cacheSize c1 = int n"
    by blast
  from Cons.IH [OF Cons.prems(1) c1(3,2)] c1(1) show ?case by (simp add: x)
qed

section \<open>Replies\<close>

datatype reply_body = JSONBody json | TextBody string | StreamBody string

record reply =
  ReplyStatus :: int
  ReplyHeaders :: "(string \<times> string) list"
  ReplyBody :: reply_body

definition reply_json :: "int \<Rightarrow> json \<Rightarrow> reply" where
  "reply_json status v = \<lparr>ReplyStatus = status, ReplyHeaders = [], ReplyBody = JSONBody v\<rparr>"

definition with_header :: "string \<Rightarrow> string \<Rightarrow> reply \<Rightarrow> reply" where
  "with_header k v r = r\<lparr>ReplyHeaders := (k, v) # ReplyHeaders r\<rparr>"

definition errResp :: "string \<Rightarrow> json" where
  "errResp m = JObj [(''error'', JObj [(''message'', JStr m), (''type'', JStr ''invalid_request_error'')])]"

section \<open>The state of the gateway\<close>

text \<open>The process state that the handlers change: the pool, the semantic cache and the tool ids.\<close>

record 'e gateway_state =
  gw_pool :: worker_pool
  gw_cache :: "'e semantic_cache option"
  gw_ids :: nat

record ('w, 'e) gateway_env =
  gw_generate :: "'w generate"
  gw_stream :: "generate_request \<Rightarrow> ('w, generate_response list result) prog"
  gw_embed :: "(string \<Rightarrow> 'w \<Rightarrow> 'e result \<times> 'w) option"
  gw_similar :: "'e \<Rightarrow> 'e \<Rightarrow> bool"
  gw_redis :: "'w redis"
  gw_history :: bool
  gw_search :: "'w web_searcher option"
  gw_unix_now :: "'w \<Rightarrow> int"
  gw_nano_now :: "'w \<Rightarrow> int"

text \<open>A program of the outside world inside a handler.\<close>

definition outside :: "('w, 'a) prog \<Rightarrow> ('e gateway_state \<times> 'w, 'a) prog" where
  "outside m = (\<lambda>(g, w). case m w of (r, w') \<Rightarrow> (r, (g, w')))"

text \<open>
  Claim a slot, run the handler, release the slot: \<open>defer\<close> releases it on every path, a panic included.
  Without a slot the reply is \<open>busy\<close>.
\<close>

definition release_slot :: "'e gateway_state \<Rightarrow> 'e gateway_state" where
  "release_slot g = (case Release (gw_pool g) of Some p \<Rightarrow> g\<lparr>gw_pool := p\<rparr> | None \<Rightarrow> g)"

definition with_slot ::
  "reply \<Rightarrow> ('e gateway_state \<times> 'w, reply) prog \<Rightarrow> ('e gateway_state \<times> 'w, reply) prog" where
  "with_slot busy m = (\<lambda>(g, w).
     let (ok, p) = Acquire (gw_pool g); g1 = g\<lparr>gw_pool := p\<rparr>
     in if \<not> ok then (Ret busy, (g1, w))
        else case m (g1, w) of (r, (g2, w2)) \<Rightarrow> (r, (release_slot g2, w2)))"

text \<open>
  The streaming handlers release the slot inside the stream writer: a panic before the writer runs
  keeps it. \<open>prepare\<close> runs before, \<open>writer\<close> is the stream.
\<close>

definition with_stream_slot ::
  "reply \<Rightarrow> ('e gateway_state \<times> 'w, 'a) prog \<Rightarrow> ('a \<Rightarrow> ('e gateway_state \<times> 'w, reply) prog)
   \<Rightarrow> ('e gateway_state \<times> 'w, reply) prog" where
  "with_stream_slot busy prepare writer = (\<lambda>(g, w).
     let (ok, p) = Acquire (gw_pool g); g1 = g\<lparr>gw_pool := p\<rparr>
     in if \<not> ok then (Ret busy, (g1, w))
        else case prepare (g1, w) of
          (Panic m, s) \<Rightarrow> (Panic m, s)
        | (Ret a, s) \<Rightarrow> (case writer a s of (r, (g2, w2)) \<Rightarrow> (r, (release_slot g2, w2))))"

definition gw_augment ::
  "('w, 'e) gateway_env \<Rightarrow> message list \<Rightarrow> ('e gateway_state \<times> 'w, message list \<times> bool) prog" where
  "gw_augment G ms =
     (case gw_search G of
        None \<Rightarrow> gret (ms, False)
      | Some search \<Rightarrow> gbind (outside (Augment search ms)) (\<lambda>(augmented, searched).
          gret (if searched then (augmented, True) else (ms, False))))"

section \<open>Slots are given back\<close>

text \<open>A program that does not touch the pool.\<close>

definition keeps_pool :: "('e gateway_state \<times> 'w, 'a) prog \<Rightarrow> bool" where
  "keeps_pool m \<longleftrightarrow> (\<forall>s. gw_pool (fst (snd (m s))) = gw_pool (fst s))"

named_theorems pool_intros

lemma keeps_gret [pool_intros]: "keeps_pool (gret a)"
  by (simp add: keeps_pool_def)

lemma keeps_Pair [simp, pool_intros]: "keeps_pool (Pair r)"
  by (simp add: keeps_pool_def)

lemma keeps_glift [pool_intros]: "keeps_pool (glift r)"
  by (simp add: keeps_pool_def)

lemma keeps_outside [pool_intros]: "keeps_pool (outside m)"
  by (auto simp: keeps_pool_def outside_def split: prod.splits)

lemma keeps_gbind [pool_intros]: "keeps_pool m \<Longrightarrow> (\<And>a. keeps_pool (f a)) \<Longrightarrow> keeps_pool (gbind m f)"
  unfolding keeps_pool_def gbind_def
  by (auto split: prod.splits go.splits) (metis fst_conv snd_conv)+

lemma keeps_if [pool_intros]: "keeps_pool m \<Longrightarrow> keeps_pool n \<Longrightarrow> keeps_pool (if b then m else n)"
  by simp

lemma keeps_sum [pool_intros]:
  "(\<And>e. keeps_pool (f e)) \<Longrightarrow> (\<And>a. keeps_pool (g a)) \<Longrightarrow> keeps_pool (case r of Inl e \<Rightarrow> f e | Inr a \<Rightarrow> g a)"
  by (cases r) simp_all

lemma keeps_option [pool_intros]:
  "keeps_pool m \<Longrightarrow> (\<And>a. keeps_pool (f a)) \<Longrightarrow> keeps_pool (case r of None \<Rightarrow> m | Some a \<Rightarrow> f a)"
  by (cases r) simp_all

lemma keeps_prod [pool_intros]: "(\<And>a b. keeps_pool (f a b)) \<Longrightarrow> keeps_pool (case p of (a, b) \<Rightarrow> f a b)"
  by (cases p) simp

lemma keeps_augment [pool_intros]: "keeps_pool (gw_augment G ms)"
  unfolding gw_augment_def by (intro pool_intros)

lemma Release_Acquire: "Acquire p = (True, q) \<Longrightarrow> Release q = Some p"
  by (auto simp: Acquire_def Release_def split: if_splits)

lemma release_acquired:
  "Acquire (gw_pool g) = (True, p) \<Longrightarrow> gw_pool g2 = p \<Longrightarrow> gw_pool (release_slot g2) = gw_pool g"
  using Release_Acquire [of "gw_pool g" p] by (simp add: release_slot_def)

lemma rejected_pool: "Acquire p = (False, p') \<Longrightarrow> p' = p"
  by (simp add: Acquire_def split: if_splits)

lemma with_slot_balanced: "keeps_pool m \<Longrightarrow> keeps_pool (with_slot busy m)"
  unfolding keeps_pool_def with_slot_def
  by (auto simp: Let_def rejected_pool release_acquired split: prod.splits) (metis fst_conv snd_conv gateway_state.select_convs(1) gateway_state.surjective gateway_state.update_convs(1) release_acquired)+

lemma stream_slot_balanced:
  assumes "keeps_pool prepare" and "\<And>a. keeps_pool (writer a)"
    and "with_stream_slot busy prepare writer s = (Ret r, s')"
  shows "gw_pool (fst s') = gw_pool (fst s)"
proof -
  obtain g w where s: "s = (g, w)" by (cases s)
  obtain ok p where a: "Acquire (gw_pool g) = (ok, p)" by (cases "Acquire (gw_pool g)")
  show ?thesis
  proof (cases ok)
    case False
    with assms(3) a s show ?thesis by (auto simp: with_stream_slot_def rejected_pool)
  next
    case True
    obtain x t where x: "prepare (g\<lparr>gw_pool := p\<rparr>, w) = (x, t)" by (cases "prepare (g\<lparr>gw_pool := p\<rparr>, w)")
    with assms(3) a s True obtain y where y: "x = Ret y" by (cases x) (auto simp: with_stream_slot_def)
    obtain z g2 w2 where z: "writer y t = (z, (g2, w2))" by (metis prod_cases3)
    have "gw_pool (fst t) = p"
      using assms(1) x unfolding keeps_pool_def by (metis fst_conv snd_conv gateway_state.select_convs(1) gateway_state.surjective gateway_state.update_convs(1))
    moreover have "gw_pool g2 = gw_pool (fst t)"
      using assms(2) [of y] z unfolding keeps_pool_def by (metis fst_conv snd_conv)
    moreover have "s' = (release_slot g2, w2)"
      using assms(3) a s True x y z by (simp add: with_stream_slot_def)
    ultimately show ?thesis using a True s release_acquired by simp
  qed
qed

end
