(* ===== verification/Chat.thy ===== *)
theory Chat
  imports Gateway_Core Adapters
begin

text \<open>
  The OpenAI chat endpoint (\<open>internal/gateway/chat.go\<close>, with the schemas of \<open>types.go\<close>). The request is
  its JSON body. The reply of the streaming path is the text of the event stream, written while
  \<open>client k\<close> says that the flush after the \<open>k\<close>-th chunk reaches the client.
\<close>

record chat_request =
  ChatModel :: string
  ChatMessages :: "message list"
  ChatStream :: bool
  ChatTemperature :: float64
  ChatMaxTokens :: int
  ChatSessionID :: string

text \<open>The extension fields the handler never reads are decoded for their types only.\<close>

definition parse_chat :: "string \<Rightarrow> chat_request result" where
  "parse_chat body =
     result_bind (unmarshal_obj body) (\<lambda>ms.
     result_bind (str_field ''model'' ms) (\<lambda>model.
     result_bind (list_field as_message ''messages'' ms) (\<lambda>msgs.
     result_bind (bool_field ''stream'' ms) (\<lambda>stream.
     result_bind (num_field ''temperature'' ms) (\<lambda>temp.
     result_bind (int_field ''max_tokens'' ms) (\<lambda>mt.
     result_bind (result_bind (obj_field ''response_format'' ms) (str_field ''type'')) (\<lambda>_.
     result_bind (bool_field ''agent_mode'' ms) (\<lambda>_.
     result_bind (bool_field ''rag_enabled'' ms) (\<lambda>_.
     result_bind (str_field ''domain'' ms) (\<lambda>_.
     result_bind (str_field ''session_id'' ms) (\<lambda>sid.
       Inr \<lparr>ChatModel = model, ChatMessages = msgs, ChatStream = stream, ChatTemperature = temp,
         ChatMaxTokens = mt, ChatSessionID = sid\<rparr>)))))))))))"

definition gw_lastUserMessage :: "message list \<Rightarrow> string" where
  "gw_lastUserMessage ms =
     (case find (\<lambda>m. Role m = ''user'') (rev ms) of
        Some m \<Rightarrow> Content m
      | None \<Rightarrow> if ms = [] then [] else Content (last ms))"

section \<open>Response schemas\<close>

definition toChatResponse :: "int \<Rightarrow> generate_response \<Rightarrow> json" where
  "toChatResponse now resp = JObj [
     (''id'', JStr (RespID resp)), (''object'', JStr ''chat.completion''), (''created'', JInt now),
     (''model'', JStr (RespModel resp)),
     (''choices'', JArr (map (\<lambda>c. JObj [
        (''index'', JInt (Index c)), (''message'', json_of_message (Message c)),
        (''finish_reason'', JStr (FinishReason c))]) (Choices resp)))]"

definition toStreamChunk :: "int \<Rightarrow> generate_response \<Rightarrow> json" where
  "toStreamChunk now resp = JObj [
     (''id'', JStr (RespID resp)), (''object'', JStr ''chat.completion.chunk''), (''created'', JInt now),
     (''model'', JStr (RespModel resp)),
     (''choices'', JArr (map (\<lambda>c. JObj (
        [(''index'', JInt (Index c))]
        @ (case Delta c of None \<Rightarrow> [] | Some d \<Rightarrow> [(''delta'', json_of_message d)])
        @ [(''finish_reason'', if FinishReason c = [] then JNull else JStr (FinishReason c))])) (Choices resp)))]"

section \<open>The complete path\<close>

definition busy_chat :: reply where
  "busy_chat = reply_json 429 (errResp ''server busy'')"

text \<open>The embedding of the last user message, and what the cache has for it.\<close>

definition cache_lookup ::
  "('w, 'e) gateway_env \<Rightarrow> message list \<Rightarrow> ('e gateway_state \<times> 'w, 'e option \<times> string option) prog" where
  "cache_lookup G ms = (\<lambda>(g, w).
     case (gw_embed G, gw_cache g) of
       (Some emb_fn, Some cache) \<Rightarrow>
         if gw_lastUserMessage ms = [] then (Ret (None, None), (g, w))
         else (case emb_fn (gw_lastUserMessage ms) w of
             (Inl _, w1) \<Rightarrow> (Ret (None, None), (g, w1))
           | (Inr emb, w1) \<Rightarrow> (Ret (Some emb, sem_Lookup (gw_similar G) emb cache), (g, w1)))
     | _ \<Rightarrow> (Ret (None, None), (g, w)))"

definition cache_store :: "'e option \<Rightarrow> string \<Rightarrow> ('e gateway_state \<times> 'w, unit) prog" where
  "cache_store emb data = (\<lambda>(g, w).
     case (emb, gw_cache g) of
       (Some e, Some cache) \<Rightarrow>
         (case sem_Store e data cache of
            Ret cache1 \<Rightarrow> (Ret (), (g\<lparr>gw_cache := Some cache1\<rparr>, w))
          | Panic m \<Rightarrow> (Panic m, (g, w)))
     | _ \<Rightarrow> (Ret (), (g, w)))"

definition with_history ::
  "('w, 'e) gateway_env \<Rightarrow> chat_request \<Rightarrow> ('e gateway_state \<times> 'w, message list) prog" where
  "with_history G req =
     (if ChatSessionID req \<noteq> [] \<and> gw_history G then
        gbind (outside (LoadAndTrim (gw_redis G) (gw_unix_now G) (gw_generate G) (ChatSessionID req))) (\<lambda>r. case r of
          Inl _ \<Rightarrow> gret (ChatMessages req)
        | Inr h \<Rightarrow> gret (map (\<lambda>m. msg (MRole m) (MContent m)) h @ ChatMessages req))
      else gret (ChatMessages req))"

definition chat_generate ::
  "('w, 'e) gateway_env \<Rightarrow> chat_request \<Rightarrow> 'e option \<Rightarrow> ('e gateway_state \<times> 'w, reply) prog" where
  "chat_generate G req emb =
     gbind (with_history G req) (\<lambda>ms0.
     gbind (gw_augment G ms0) (\<lambda>(ms, searched).
       let mark = (\<lambda>r. if searched then with_header ''X-CAW-Web-Searched'' ''true'' r else r);
           genReq = (gen_request (ChatModel req) ms)\<lparr>Temperature := ChatTemperature req, MaxTokens := ChatMaxTokens req\<rparr>
       in gbind (outside (gw_generate G genReq)) (\<lambda>r. case r of
            Inl e \<Rightarrow> gret (mark (reply_json 500 (errResp e)))
          | Inr resp \<Rightarrow>
            gbind (outside (grun (\<lambda>w. (gw_unix_now G w, w)))) (\<lambda>now.
            gbind (cache_store emb (json_print (toChatResponse now resp))) (\<lambda>_.
              gret (mark (reply_json 200 (toChatResponse now resp))))))))"

definition chatComplete :: "('w, 'e) gateway_env \<Rightarrow> chat_request \<Rightarrow> ('e gateway_state \<times> 'w, reply) prog" where
  "chatComplete G req =
     with_slot busy_chat
       (gbind (cache_lookup G (ChatMessages req)) (\<lambda>(emb, cached). case cached of
          Some data \<Rightarrow> gret (with_header ''X-CAW-Cache-Hit'' ''semantic''
             (with_header ''Content-Type'' ''application/json''
               \<lparr>ReplyStatus = 200, ReplyHeaders = [], ReplyBody = TextBody data\<rparr>))
        | None \<Rightarrow> chat_generate G req emb))"

section \<open>The streaming path\<close>

definition data_frame :: "string \<Rightarrow> string" where
  "data_frame s = ''data: '' @ s @ ''\<newline>\<newline>''"

text \<open>The frames of the chunks, the first one numbered \<open>k\<close>, and whether the client stayed to the end.\<close>

fun chunk_frames :: "(nat \<Rightarrow> bool) \<Rightarrow> nat \<Rightarrow> int \<Rightarrow> generate_response list \<Rightarrow> string \<times> bool" where
  "chunk_frames client k now [] = ([], True)"
| "chunk_frames client k now (r # rs) =
     (if client k
      then (let (s, ok) = chunk_frames client (Suc k) now rs
            in (data_frame (json_print (toStreamChunk now r)) @ s, ok))
      else (data_frame (json_print (toStreamChunk now r)), False))"

definition stream_headers :: "(string \<times> string) list" where
  "stream_headers = [(''Content-Type'', ''text/event-stream''), (''Cache-Control'', ''no-cache''),
     (''Connection'', ''keep-alive'')]"

definition chat_writer ::
  "('w, 'e) gateway_env \<Rightarrow> (nat \<Rightarrow> bool) \<Rightarrow> bool \<Rightarrow> generate_request \<Rightarrow> ('e gateway_state \<times> 'w, reply) prog" where
  "chat_writer G client searched genReq =
     (let reply = (\<lambda>s. \<lparr>ReplyStatus = 200,
            ReplyHeaders = stream_headers @ (if searched then [(''X-CAW-Web-Searched'', ''true'')] else []),
            ReplyBody = StreamBody s\<rparr>)
      in gbind (outside (gw_stream G genReq)) (\<lambda>r. case r of
           Inl e \<Rightarrow> gret (reply (data_frame (''{\"error\": \"'' @ e @ ''\"}'')))
         | Inr chunks \<Rightarrow>
           gbind (outside (grun (\<lambda>w. (gw_unix_now G w, w)))) (\<lambda>now.
             let (s, ok) = chunk_frames client 0 now chunks
             in gret (reply (if ok then s @ data_frame ''[DONE]'' else s)))))"

definition chatStream ::
  "('w, 'e) gateway_env \<Rightarrow> (nat \<Rightarrow> bool) \<Rightarrow> chat_request \<Rightarrow> ('e gateway_state \<times> 'w, reply) prog" where
  "chatStream G client req =
     with_stream_slot busy_chat (gw_augment G (ChatMessages req)) (\<lambda>(ms, searched).
       chat_writer G client searched ((gen_request (ChatModel req) ms)\<lparr>Stream := True,
         Temperature := ChatTemperature req, MaxTokens := ChatMaxTokens req\<rparr>))"

section \<open>Dispatch\<close>

definition ChatHandler ::
  "('w, 'e) gateway_env \<Rightarrow> (nat \<Rightarrow> bool) \<Rightarrow> string \<Rightarrow> ('e gateway_state \<times> 'w, reply) prog" where
  "ChatHandler G client body =
     (case parse_chat body of
        Inl _ \<Rightarrow> gret (reply_json 422 (errResp ''invalid request body''))
      | Inr req \<Rightarrow>
          if ChatMessages req = [] then gret (reply_json 422 (errResp ''messages field is required''))
          else if ChatModel req = [] then gret (reply_json 400 (errResp ''model is required''))
          else if ChatStream req then chatStream G client req
          else chatComplete G req)"

section \<open>Lemmas\<close>

lemma keeps_cache_lookup [pool_intros]: "keeps_pool (cache_lookup G ms)"
  by (auto simp: keeps_pool_def cache_lookup_def split: option.splits prod.splits sum.splits)

lemma keeps_cache_store [pool_intros]: "keeps_pool (cache_store emb data)"
  by (auto simp: keeps_pool_def cache_store_def split: option.splits prod.splits go.splits)

lemma keeps_with_history [pool_intros]: "keeps_pool (with_history G req)"
  unfolding with_history_def by (intro pool_intros)

lemma keeps_chat_generate [pool_intros]: "keeps_pool (chat_generate G req emb)"
  unfolding chat_generate_def Let_def by (intro pool_intros)

lemma keeps_chat_writer [pool_intros]: "keeps_pool (chat_writer G client searched genReq)"
  unfolding chat_writer_def Let_def by (intro pool_intros)

lemma keeps_chatComplete: "keeps_pool (chatComplete G req)"
  unfolding chatComplete_def by (intro with_slot_balanced pool_intros)

lemma chat_pool_balanced:
  assumes "ChatHandler G client body s = (Ret r, s')"
  shows "gw_pool (fst s') = gw_pool (fst s)"
proof -
  have c: "gw_pool (fst s') = gw_pool (fst s)" if "chatComplete G req s = (Ret r, s')" for req
    using keeps_chatComplete [of G req] that unfolding keeps_pool_def by (metis snd_conv)
  have d: "gw_pool (fst s') = gw_pool (fst s)" if "chatStream G client req s = (Ret r, s')" for req
    using that unfolding chatStream_def by (rule stream_slot_balanced [rotated 2]) (intro pool_intros)+
  show ?thesis
    using assms c d by (auto simp: ChatHandler_def split: sum.splits if_splits)
qed

end
