(* ===== verification/Virtual_Tools.thy ===== *)
theory Virtual_Tools
  imports Go_Regexp Go_JSON_Roundtrip
begin

text \<open>
  Tool calls for models without tool support (\<open>internal/gateway/virtual_tools.go\<close>): the injected
  instruction, the parser of the model's text and the helpers around them. A \<open>json.RawMessage\<close> is its
  text. The global counter of tool ids is an argument that is returned updated.
\<close>

record anthropic_tool =
  ToolName :: string
  ToolDescription :: string
  ToolInputSchema :: string

record tool_call =
  CallName :: string
  CallInput :: string
  CallID :: string

section \<open>The instruction prompt\<close>

definition buildToolSystemPrompt :: "anthropic_tool list \<Rightarrow> string" where
  "buildToolSystemPrompt tools =
     (if list_ex (\<lambda>t. ToolName t = ''bash'' \<or> ToolName t = ''shell'' \<or> ToolName t = ''sh'') tools then
        ''When you need to run a shell command, write ONLY a bash code block with the command. Example:\<newline>''
        @ ''```bash\<newline>echo hello\<newline>```\<newline>''
        @ ''Do not add explanation. Just the code block.''
      else trim_space (
        ''You have tools. To call a tool respond with:\<newline>''
        @ ''TOOL: tool_name\<newline>INPUT: {\"key\": \"value\"}\<newline>\<newline>''
        @ ''Tools:\<newline>''
        @ concat (map (\<lambda>t. ''- '' @ ToolName t @ '': '' @ ToolDescription t @ ''\<newline>'') tools)))"

definition buildToolResultPrompt :: "string \<Rightarrow> string \<Rightarrow> string" where
  "buildToolResultPrompt toolName res =
     ''Tool '' @ [CHR 0x27] @ toolName @ [CHR 0x27] @ '' returned:\<newline>'' @ res
     @ ''\<newline>\<newline>Now provide your final answer.''"

section \<open>Utilities\<close>

definition newToolID :: "nat \<Rightarrow> string \<times> nat" where
  "newToolID n = (''toolu_'' @ hex_pad 16 (n + 1), n + 1)"

definition shellQuote :: "string \<Rightarrow> string" where
  "shellQuote s = [CHR 0x27] @ replace_all s [CHR 0x27] [CHR 0x27, CHR 0x22, CHR 0x27, CHR 0x22, CHR 0x27] @ [CHR 0x27]"

definition toolInputField :: "string \<Rightarrow> string" where
  "toolInputField name =
     (if name = ''bash'' \<or> name = ''shell'' \<or> name = ''sh'' then ''command''
      else if name = ''read_file'' then ''path''
      else if name = ''write_file'' \<or> name = ''create_file'' then ''path''
      else if name = ''str_replace_editor'' \<or> name = ''editor'' then ''command''
      else ''input'')"

definition is_json_object :: "string \<Rightarrow> bool" where
  "is_json_object s = (case json_parse s of Some (JObj _) \<Rightarrow> True | _ \<Rightarrow> False)"

definition normalizeInput :: "string \<Rightarrow> string \<Rightarrow> string" where
  "normalizeInput toolName raw0 =
     (let raw = trim_space raw0
      in if has_prefix raw ''{'' \<and> is_json_object raw then raw
         else json_print (JObj [(toolInputField toolName, JStr raw)]))"

section \<open>The parser\<close>

definition lazy_any :: re where
  "lazy_any = RStar False (RSet rany)"

definition spaces :: re where
  "spaces = RStar True (RSet rspace)"

definition reXMLToolCall :: re where
  "reXMLToolCall = rseq [rlit ''<tool_call>'', lazy_any, rlit ''<name>'',
     RCap 1 (rplus (RSet (\<lambda>c. c \<noteq> CHR ''<''))), rlit ''</name>'', lazy_any, rlit ''<input>'',
     RCap 2 lazy_any, rlit ''</input>'', lazy_any, rlit ''</tool_call>'']"

definition reXMLToolCallBare :: re where
  "reXMLToolCallBare = rseq [rlit ''<tool_call>'', spaces, RCap 1 (rplus (RSet rword)), spaces, rlit ''\<newline>'',
     RCap 2 lazy_any, spaces, rlit ''</tool_call>'']"

definition reBashBlock :: re where
  "reBashBlock = rseq [rlit ''```'', ralts [rlit ''bash'', rlit ''sh'', rlit ''shell'', rlit ''zsh''],
     spaces, rlit ''\<newline>'', RCap 1 lazy_any, rlit ''```'']"

definition rePythonBlock :: re where
  "rePythonBlock = rseq [rlit ''```'', ralts [rlit ''python'', rlit ''py''],
     spaces, rlit ''\<newline>'', RCap 1 lazy_any, rlit ''```'']"

definition reFishStyle :: re where
  "reFishStyle = rseq [rlit_ci ''TOOL'', RSet (\<lambda>c. c = CHR ''_'' \<or> rspace c), rlit_ci ''CALL:'', spaces,
     RCap 1 (rplus (RSet rword)), spaces, rlit ''\<newline>'',
     ralts [rlit_ci ''COMMAND'', rlit_ci ''INPUT'', RSeq (rlit_ci ''ARG'') (ropt (rlit_ci ''S''))],
     rlit '':'', spaces, RCap 2 (rplus (RSet rdot))]"

definition quote_mark :: "char \<Rightarrow> bool" where
  "quote_mark c \<longleftrightarrow> c = CHR 0x27 \<or> c = CHR 0x22 \<or> c = CHR 0x60"

definition reWriteFile :: re where
  "reWriteFile = rseq [ralts [rlit_ci ''write'', rlit_ci ''create'', rlit_ci ''save''],
     RStar False (RSet rdot), RSet quote_mark, RCap 1 (rplus (RSet (\<lambda>c. \<not> quote_mark c))), RSet quote_mark,
     RStar False (RSet rdot), rlit ''\<newline>```'', RStar True (RSet (\<lambda>c. is_lower c \<or> is_upper c)), rlit ''\<newline>'',
     RCap 2 (RStar False (RSet rdot)), rlit ''```'']"

definition command_input :: "string \<Rightarrow> string" where
  "command_input cmd = json_print (JObj [(''command'', JStr cmd)])"

text \<open>The six patterns in order; the first that yields a call wins. The pair is (name, input).\<close>

definition xml_call :: "string \<Rightarrow> (string \<times> string) option" where
  "xml_call t =
     (case re_find reXMLToolCall t of
        None \<Rightarrow> None
      | Some g \<Rightarrow>
        (let name0 = trim_space (g 1);
             name = (if name0 = ''TOOL_NAME'' \<or> name0 = ''TOOL'' then
                       (case re_find reXMLToolCallBare t of Some g2 \<Rightarrow> trim_space (g2 1) | None \<Rightarrow> ''bash'')
                     else name0)
         in Some (name, normalizeInput name (trim_space (g 2)))))"

definition bare_call :: "string \<Rightarrow> (string \<times> string) option" where
  "bare_call t =
     (case re_find reXMLToolCallBare t of
        None \<Rightarrow> None
      | Some g \<Rightarrow>
          if contains (g 2) ''<name>'' then None
          else Some (trim_space (g 1), normalizeInput (trim_space (g 1)) (trim_space (g 2))))"

definition bash_call :: "string \<Rightarrow> (string \<times> string) option" where
  "bash_call t =
     (case re_find reBashBlock t of
        None \<Rightarrow> None
      | Some g \<Rightarrow> if trim_space (g 1) = [] then None else Some (''bash'', command_input (trim_space (g 1))))"

definition python_call :: "string \<Rightarrow> (string \<times> string) option" where
  "python_call t =
     (case re_find rePythonBlock t of
        None \<Rightarrow> None
      | Some g \<Rightarrow>
          if trim_space (g 1) = [] then None
          else Some (''bash'', command_input (''python3 -c '' @ shellQuote (trim_space (g 1)))))"

definition fish_call :: "string \<Rightarrow> (string \<times> string) option" where
  "fish_call t =
     (case re_find reFishStyle t of
        None \<Rightarrow> None
      | Some g \<Rightarrow>
          Some (to_lower (trim_space (g 1)), normalizeInput (to_lower (trim_space (g 1))) (trim_space (g 2))))"

definition write_call :: "string \<Rightarrow> (string \<times> string) option" where
  "write_call t =
     (case re_find reWriteFile t of
        None \<Rightarrow> None
      | Some g \<Rightarrow> Some (''bash'', command_input (''cat > '' @ trim_space (g 1) @ '' << '' @ [CHR 0x27] @ ''HEREDOC''
          @ [CHR 0x27] @ ''\<newline>'' @ g 2 @ ''\<newline>HEREDOC'')))"

fun first_some :: "('a \<Rightarrow> 'b option) list \<Rightarrow> 'a \<Rightarrow> 'b option" where
  "first_some [] x = None"
| "first_some (f # fs) x = (case f x of Some y \<Rightarrow> Some y | None \<Rightarrow> first_some fs x)"

definition call_patterns :: "(string \<Rightarrow> (string \<times> string) option) list" where
  "call_patterns = [xml_call, bare_call, bash_call, python_call, fish_call, write_call]"

definition parseToolCall :: "string \<Rightarrow> nat \<Rightarrow> tool_call option \<times> nat" where
  "parseToolCall t ids =
     (case first_some call_patterns (trim_space t) of
        None \<Rightarrow> (None, ids)
      | Some (name, input) \<Rightarrow>
        (let (i, ids1) = newToolID ids in (Some \<lparr>CallName = name, CallInput = input, CallID = i\<rparr>, ids1)))"

section \<open>Tool results\<close>

definition result_block_texts :: "(string \<times> json) list \<Rightarrow> string list" where
  "result_block_texts ms =
     (case jfold Inr JNull (jmatches ''content'' ms) of
        Inr (JStr s) \<Rightarrow> [s]
      | Inr (JArr vs) \<Rightarrow>
          concat (map (\<lambda>v. case v of
              JObj o' \<Rightarrow> (case map_get ''text'' o' of Some (JStr t) \<Rightarrow> [t] | _ \<Rightarrow> [])
            | _ \<Rightarrow> []) vs)
      | _ \<Rightarrow> [])"

text \<open>The blocks of an array, typed: a block whose type or id is no string fails the whole array.\<close>

definition extractToolResults :: "string \<Rightarrow> string" where
  "extractToolResults raw =
     (case json_parse raw of
        None \<Rightarrow> []
      | Some v \<Rightarrow>
        (case (if v = JNull then Inr [] else as_list as_obj v) of
           Inl _ \<Rightarrow> []
         | Inr blocks \<Rightarrow>
           (case traverse (\<lambda>b. result_bind (str_field ''type'' b) (\<lambda>t.
                    result_bind (str_field ''tool_use_id'' b) (\<lambda>_. Inr (t, b)))) blocks of
              Inl _ \<Rightarrow> []
            | Inr typed \<Rightarrow>
                join ''\<newline>'' (concat (map (\<lambda>(t, b). if t = ''tool_result'' then result_block_texts b else []) typed)))))"

section \<open>Lemmas\<close>

lemma first_some_cases:
  "first_some fs x = Some y \<Longrightarrow> \<exists>f \<in> set fs. f x = Some y"
  by (induction fs) (auto split: option.splits)

lemma is_json_object_print: "list_all (\<lambda>(k, v). wf_json v) ms \<Longrightarrow> is_json_object (json_print (JObj ms))"
  using json_parse_print [of "JObj ms"] by (simp add: is_json_object_def del: json_print.simps)

lemma normalizeInput_object: "is_json_object (normalizeInput name raw)"
  by (auto simp: normalizeInput_def Let_def simp del: json_print.simps intro: is_json_object_print)

lemma command_input_object: "is_json_object (command_input cmd)"
  unfolding command_input_def by (rule is_json_object_print) simp

lemma call_object:
  "xml_call t = Some (name, input) \<Longrightarrow> is_json_object input"
  "bare_call t = Some (name, input) \<Longrightarrow> is_json_object input"
  "bash_call t = Some (name, input) \<Longrightarrow> is_json_object input"
  "python_call t = Some (name, input) \<Longrightarrow> is_json_object input"
  "fish_call t = Some (name, input) \<Longrightarrow> is_json_object input"
  "write_call t = Some (name, input) \<Longrightarrow> is_json_object input"
  unfolding xml_call_def bare_call_def bash_call_def python_call_def fish_call_def write_call_def Let_def
  by (simp_all only: normalizeInput_object command_input_object prod.inject option.inject option.distinct
      split: option.splits if_split_asm) (blast intro: normalizeInput_object command_input_object)+

lemma call_patterns_object:
  assumes "first_some call_patterns t = Some (name, input)"
  shows "is_json_object input"
  using first_some_cases [OF assms] call_object unfolding call_patterns_def
  by (auto simp only: list.set insert_iff empty_iff)

text \<open>
  How a POSIX shell reads a word made of quoted parts: between single quotes every byte stands for
  itself; between double quotes too, but for the four special ones, which are refused here.
\<close>

fun sh_single :: "string \<Rightarrow> (string \<times> string) option" where
  "sh_single [] = None"
| "sh_single (c # s) = (if c = CHR 0x27 then Some ([], s) else map_option (\<lambda>(x, r). (c # x, r)) (sh_single s))"

fun sh_double :: "string \<Rightarrow> (string \<times> string) option" where
  "sh_double [] = None"
| "sh_double (c # s) =
     (if c = CHR 0x22 then Some ([], s)
      else if c = CHR ''$'' \<or> c = CHR 0x60 \<or> c = CHR 0x5C then None
      else map_option (\<lambda>(x, r). (c # x, r)) (sh_double s))"

lemma sh_single_length: "sh_single s = Some (x, r) \<Longrightarrow> length r < length s"
  by (induction s arbitrary: x r) (fastforce split: if_splits)+

lemma sh_double_length: "sh_double s = Some (x, r) \<Longrightarrow> length r < length s"
  by (induction s arbitrary: x r) (fastforce split: if_splits)+

function sh_word :: "string \<Rightarrow> string option" where
  "sh_word [] = Some []"
| "sh_word (c # s) =
     (if c = CHR 0x27 then (case sh_single s of None \<Rightarrow> None | Some (x, r) \<Rightarrow> map_option (append x) (sh_word r))
      else if c = CHR 0x22 then (case sh_double s of None \<Rightarrow> None | Some (x, r) \<Rightarrow> map_option (append x) (sh_word r))
      else None)"
  by pat_completeness auto
termination
  by (relation "measure length") (auto dest: sh_single_length sh_double_length less_SucI)

lemma replace_quote_simps:
  "replace_all (c # s) [CHR 0x27] new = (if c = CHR 0x27 then new @ replace_all s [CHR 0x27] new
     else c # replace_all s [CHR 0x27] new)"
  by (simp add: replace_all.simps)

abbreviation quoted :: "string \<Rightarrow> string" where
  "quoted s \<equiv> replace_all s [CHR 0x27] [CHR 0x27, CHR 0x22, CHR 0x27, CHR 0x22, CHR 0x27] @ [CHR 0x27]"

lemma sh_single_plain:
  "(\<forall>c \<in> set p. c \<noteq> CHR 0x27) \<Longrightarrow> sh_single (p @ CHR 0x27 # r) = Some (p, r)"
  by (induction p) auto

lemma sh_word_quoted: "sh_word (CHR 0x27 # quoted s) = Some s"
proof (induction "length s" arbitrary: s rule: less_induct)
  case less
  define p where "p = takeWhile (\<lambda>c. c \<noteq> CHR 0x27) s"
  define q where "q = dropWhile (\<lambda>c. c \<noteq> CHR 0x27) s"
  have s: "s = p @ q" by (simp add: p_def q_def)
  have p: "\<forall>c \<in> set p. c \<noteq> CHR 0x27" by (auto simp: p_def dest: set_takeWhileD)
  have rep: "replace_all (p @ q) [CHR 0x27] new = p @ replace_all q [CHR 0x27] new" for new
    using p by (induction p) (simp_all add: replace_quote_simps)
  show ?case
  proof (cases q)
    case Nil
    then have sp: "s = p" using s by simp
    have "quoted p = p @ [CHR 0x27]" using rep unfolding Nil by simp
    moreover have "sh_word (CHR 0x27 # p @ [CHR 0x27]) = Some p"
      using sh_single_plain [OF p, of "[]"] by simp
    ultimately show ?thesis unfolding sp by metis
  next
    case (Cons c t)
    have "dropWhile (\<lambda>c. c \<noteq> CHR 0x27) s = c # t" using Cons by (simp add: q_def)
    then have c: "c = CHR 0x27" using hd_dropWhile [of "\<lambda>c. c \<noteq> CHR 0x27" s] by simp
    have "length t < length s" using s Cons by simp
    from less [OF this] have IH: "sh_word (CHR 0x27 # quoted t) = Some t" .
    have "quoted s = p @ CHR 0x27 # CHR 0x22 # CHR 0x27 # CHR 0x22 # CHR 0x27 # quoted t"
      using rep unfolding s Cons c by (simp add: replace_quote_simps)
    then have "sh_word (CHR 0x27 # quoted s)
        = map_option (append p) (sh_word (CHR 0x22 # CHR 0x27 # CHR 0x22 # CHR 0x27 # quoted t))"
      by (simp add: sh_single_plain [OF p])
    also have "sh_word (CHR 0x22 # CHR 0x27 # CHR 0x22 # CHR 0x27 # quoted t)
        = map_option (append [CHR 0x27]) (sh_word (CHR 0x27 # quoted t))"
      by simp
    finally show ?thesis using IH s Cons c by simp
  qed
qed

section \<open>Properties\<close>

text \<open>
  C9. Whatever text the model writes, a tool call read from it has a valid JSON object as its input,
  a fresh id of the counter, and the counter advances by one exactly when a call is found.
\<close>

theorem tool_call_well_formed:
  "case parseToolCall t ids of
     (None, ids') \<Rightarrow> ids' = ids
   | (Some tc, ids') \<Rightarrow> ids' = ids + 1 \<and> CallID tc = ''toolu_'' @ hex_pad 16 ids' \<and> is_json_object (CallInput tc)"
  using call_patterns_object [of "trim_space t"]
  by (auto simp: parseToolCall_def newToolID_def split: option.splits)

text \<open>
  C10. \<open>shellQuote\<close> is exact: a POSIX shell reads the quoted text as one word, which is the text
  itself, so no Python code can escape from the command the gateway builds around it.
\<close>

theorem shell_quote_exact: "sh_word (shellQuote s) = Some s"
  using sh_word_quoted [of s] by (simp add: shellQuote_def)

end
