(* ===== verification/Agent.thy ===== *)
theory Agent
  imports Backend Virtual_Tools
begin

text \<open>
  The server-side agent loop (\<open>internal/gateway/agentic_executor.go\<close>): ask the model, run the tool it
  asks for, feed the output back, for at most 20 rounds.

  Running a command and touching files are parameters (\<open>exec_env\<close>); a run's result is its combined
  output. The model keeps the program's counter of tool ids in the loop's state.
\<close>

record 'w exec_env =
  run_bash :: "string \<Rightarrow> string \<Rightarrow> 'w \<Rightarrow> string \<times> 'w"
  run_python_file :: "string \<Rightarrow> string \<Rightarrow> 'w \<Rightarrow> string result \<times> 'w"
  write_path :: "string \<Rightarrow> string \<Rightarrow> 'w \<Rightarrow> goerr option \<times> 'w"
  read_path :: "string \<Rightarrow> 'w \<Rightarrow> string result \<times> 'w"

definition maxAgentSteps :: nat where
  "maxAgentSteps = 20"

definition maxOutputBytes :: nat where
  "maxOutputBytes = 8 * 1024"

record agent_step =
  StepNo :: nat
  StepTool :: string
  StepInput :: string
  StepOutput :: string
  StepError :: string

section \<open>Paths\<close>

text \<open>\<open>filepath.IsAbs\<close>, \<open>filepath.Clean\<close> and \<open>filepath.Join\<close> on Unix.\<close>

definition is_abs :: "string \<Rightarrow> bool" where
  "is_abs p = has_prefix p ''/''"

fun clean_segments :: "bool \<Rightarrow> string list \<Rightarrow> string list \<Rightarrow> string list" where
  "clean_segments rooted acc [] = rev acc"
| "clean_segments rooted acc (s # ss) =
     (if s = [] \<or> s = ''.'' then clean_segments rooted acc ss
      else if s = ''..'' then
        (case acc of
           [] \<Rightarrow> if rooted then clean_segments rooted [] ss else clean_segments rooted [''..''] ss
         | t # acc' \<Rightarrow> if t = ''..'' then clean_segments rooted (''..'' # acc) ss
                      else clean_segments rooted acc' ss)
      else clean_segments rooted (s # acc) ss)"

definition clean_path :: "string \<Rightarrow> string" where
  "clean_path p =
     (let segs = clean_segments (is_abs p) [] (split_on (CHR ''/'') p)
      in if is_abs p then CHR ''/'' # join ''/'' segs
         else if segs = [] then ''.'' else join ''/'' segs)"

definition join_path :: "string \<Rightarrow> string \<Rightarrow> string" where
  "join_path a b =
     (if a = [] \<and> b = [] then [] else if a = [] then clean_path b
      else if b = [] then clean_path a else clean_path (a @ ''/'' @ b))"

section \<open>Running a tool\<close>

text \<open>The arguments: an object, or null, which is an empty one.\<close>

definition json_args :: "string \<Rightarrow> (string \<times> json) list result" where
  "json_args input = (case json_parse input of None \<Rightarrow> Inl ErrJSONSyntax | Some v \<Rightarrow> as_obj v)"

definition trim_quotes :: "string \<Rightarrow> string" where
  "trim_quotes s =
     rev (dropWhile (\<lambda>c. c = CHR 0x22) (rev (dropWhile (\<lambda>c. c = CHR 0x22) s)))"

fun first_key :: "(string \<times> json) list \<Rightarrow> string list \<Rightarrow> string" where
  "first_key args [] = []"
| "first_key args (k # ks) = (case map_get k args of Some v \<Rightarrow> fmt_v v | None \<Rightarrow> first_key args ks)"

fun stringField :: "(string \<times> json) list \<Rightarrow> string list \<Rightarrow> string" where
  "stringField args [] = []"
| "stringField args (k # ks) =
     (case map_get k args of
        Some v \<Rightarrow> if fmt_v v \<noteq> [] \<and> fmt_v v \<noteq> ''<nil>'' then fmt_v v else stringField args ks
      | None \<Rightarrow> stringField args ks)"

definition pythonOnlyRe :: re where
  "pythonOnlyRe = RSeq RBol (ralts [rlit ''def '', rlit ''class '', rlit ''import '', rlit ''from '',
     rlit ''async def '', RSeq (rlit ''@'') (rplus (RSet rword))])"

definition bashOnlyRe :: re where
  "bashOnlyRe = RSeq RBol (ralts [rlit ''echo '', rlit ''cat '', rlit ''ls '', rlit ''cd '', rlit ''mkdir '',
     rseq [rlit ''python'', ropt (rlit ''3''), rlit '' ''], rlit ''pip '', rlit ''apt'', rlit ''curl'', rlit ''wget'',
     rlit ''chmod'', rlit ''export''])"

definition isPythonScript :: "string \<Rightarrow> bool" where
  "isPythonScript cmd =
     (let trimmed = trim_space cmd
      in has_prefix trimmed ''#!/usr/bin/env python'' \<or> has_prefix trimmed ''#!/usr/bin/python''
         \<or> re_test pythonOnlyRe trimmed \<and> \<not> re_test bashOnlyRe trimmed)"

definition cap_output :: "string \<Rightarrow> string \<Rightarrow> string" where
  "cap_output note out = (if maxOutputBytes < length out then take maxOutputBytes out @ note else out)"

definition executeBash :: "'w exec_env \<Rightarrow> string \<Rightarrow> string \<Rightarrow> 'w \<Rightarrow> string result \<times> 'w" where
  "executeBash X input workdir w =
     (let args = (case json_args input of Inr a \<Rightarrow> a | Inl _ \<Rightarrow> [(''command'', JStr (trim_quotes input))]);
          command = first_key args [''command'', ''cmd'', ''input'', ''code'']
      in if command = [] then (Inl (''no command found in input: '' @ input), w)
         else case (if isPythonScript command then run_python_file X command workdir w
                    else (let (out, w1) = run_bash X command workdir w in (Inr out, w1))) of
           (Inl e, w1) \<Rightarrow> (Inl e, w1)
         | (Inr out0, w1) \<Rightarrow>
             (let out = cap_output ''\<newline>[output truncated]'' out0
              in (Inr (if out = [] then ''(no output)'' else out), w1)))"

definition executeWriteFile :: "'w exec_env \<Rightarrow> string \<Rightarrow> string \<Rightarrow> 'w \<Rightarrow> string result \<times> 'w" where
  "executeWriteFile X input workdir w =
     (case json_args input of
        Inl e \<Rightarrow> (Inl (''invalid write_file input: '' @ e), w)
      | Inr args \<Rightarrow>
        (let path0 = stringField args [''path'', ''file'', ''filename'', ''name''];
             content = stringField args [''content'', ''text'', ''body'', ''code'']
         in if path0 = [] then (Inl (''write_file: no path specified in '' @ input), w)
            else let path = (if is_abs path0 then path0 else join_path workdir path0)
                 in case write_path X path content w of
                      (Some e, w1) \<Rightarrow> (Inl e, w1)
                    | (None, w1) \<Rightarrow>
                        (Inr (''Written '' @ dec_of_nat (length content) @ '' bytes to '' @ path), w1)))"

definition executeReadFile :: "'w exec_env \<Rightarrow> string \<Rightarrow> string \<Rightarrow> 'w \<Rightarrow> string result \<times> 'w" where
  "executeReadFile X input workdir w =
     (case json_args input of
        Inl e \<Rightarrow> (Inl (''invalid read_file input: '' @ e), w)
      | Inr args \<Rightarrow>
        (let path0 = stringField args [''path'', ''file'', ''filename'']
         in if path0 = [] then (Inl ''read_file: no path specified'', w)
            else let path = (if is_abs path0 then path0 else join_path workdir path0)
                 in case read_path X path w of
                      (Inl e, w1) \<Rightarrow> (Inl e, w1)
                    | (Inr data, w1) \<Rightarrow> (Inr (cap_output ''\<newline>[truncated]'' data), w1)))"

definition executeTool :: "'w exec_env \<Rightarrow> tool_call \<Rightarrow> string \<Rightarrow> 'w \<Rightarrow> string result \<times> 'w" where
  "executeTool X tc workdir =
     (let name = to_lower (CallName tc)
      in if name \<in> {''bash'', ''shell'', ''sh'', ''computer''} then executeBash X (CallInput tc) workdir
         else if name \<in> {''write_file'', ''create_file'', ''str_replace_editor'', ''editor''}
           then executeWriteFile X (CallInput tc) workdir
         else if name = ''read_file'' then executeReadFile X (CallInput tc) workdir
         else executeBash X (CallInput tc) workdir)"

section \<open>Signals of completion\<close>

definition codeBlockRe :: re where
  "codeBlockRe = rseq [rlit ''```'', RStar True (RSet is_lower), RStar True (RSet rspace), rlit ''\<newline>'',
     RStar False (RSet rany), rlit ''```'']"

definition stripCodeBlocks :: "string \<Rightarrow> string" where
  "stripCodeBlocks t = trim_space (re_replace_all (length t) codeBlockRe [] [] t)"

fun done_prefix :: "string \<Rightarrow> string list \<Rightarrow> string option" where
  "done_prefix t [] = None"
| "done_prefix t (p # ps) =
     (case index_of (to_upper t) p of
        None \<Rightarrow> done_prefix t ps
      | Some idx \<Rightarrow>
        (let lineStart = (case last_index_of (take idx t) ''\<newline>'' of Some i \<Rightarrow> i | None \<Rightarrow> 0)
         in if idx - lineStart \<le> 40 then
              (let summary = trim_space (drop (idx + length p) t);
                   line = (case index_of summary ''\<newline>'' of Some nl \<Rightarrow> take nl summary | None \<Rightarrow> summary)
               in Some (trim_space line))
            else done_prefix t ps))"

definition extractDone :: "string \<Rightarrow> string option" where
  "extractDone t = done_prefix t [''DONE:'', ''DONE '', ''COMPLETE:'', ''FINISHED:'', ''ALL DONE'']"

definition done_line :: "string \<Rightarrow> bool" where
  "done_line line =
     (let upper = to_upper (trim_space line)
      in has_prefix upper ''DONE'' \<or> has_prefix upper ''COMPLETE'' \<or> has_prefix upper ''FINISHED'')"

fun done_message :: "string \<Rightarrow> string list \<Rightarrow> string" where
  "done_message m [] = m"
| "done_message m (line # ls) =
     (if done_line line
      then done_message (case index_of line '':'' of Some i \<Rightarrow> trim_space (drop (i + 1) line) | None \<Rightarrow> m) ls
      else done_message m ls)"

text \<open>(call, whether a line said done, its message).\<close>

definition cleanToolCallWithDone :: "tool_call \<Rightarrow> tool_call \<times> bool \<times> string" where
  "cleanToolCallWithDone tc =
     (case json_args (CallInput tc) of
        Inl _ \<Rightarrow> (tc, False, [])
      | Inr args \<Rightarrow>
        (case map_get ''command'' args of
           Some (JStr cmd) \<Rightarrow>
             (let ls = split_on (CHR 0x0A) cmd;
                  newCmd = trim_space (join ''\<newline>'' (filter (\<lambda>l. \<not> done_line l) ls));
                  hasDone = list_ex done_line ls;
                  doneMsg = done_message [] ls
              in if newCmd = [] then (tc, hasDone, doneMsg)
                 else (tc\<lparr>CallInput := json_print (canon (JObj (map_set ''command'' (JStr newCmd) args)))\<rparr>,
                       hasDone, doneMsg))
         | _ \<Rightarrow> (tc, False, [])))"

definition cleanToolCall :: "tool_call \<Rightarrow> tool_call" where
  "cleanToolCall tc = fst (cleanToolCallWithDone tc)"

section \<open>The final answer\<close>

definition ellipsis :: string where
  "ellipsis = [CHR 0xE2, CHR 0x80, CHR 0xA6]"

definition warning_sign :: string where
  "warning_sign = [CHR 0xE2, CHR 0x9A, CHR 0xA0, CHR 0xEF, CHR 0xB8, CHR 0x8F]"

definition step_text :: "agent_step \<Rightarrow> string" where
  "step_text s =
     ''**Step '' @ dec_of_nat (StepNo s) @ '' '' @ em_dash @ '' `'' @ StepTool s @ ''`**\<newline>''
     @ (case json_args (StepInput s) of
          Inr args \<Rightarrow> (case map_get ''command'' args of
              Some cmd \<Rightarrow> ''```bash\<newline>'' @ fmt_v cmd @ ''\<newline>```\<newline>'' | None \<Rightarrow> [])
        | Inl _ \<Rightarrow> [])
     @ (if StepOutput s = [] then []
        else let ls = split_on (CHR 0x0A) (trim_space (StepOutput s));
                 shown = (if 8 < length ls then take 8 ls @ [ellipsis] else ls)
             in ''Output: `'' @ join '' | '' shown @ ''`\<newline>'')
     @ (if StepError s = [] then [] else warning_sign @ ''  Error: '' @ StepError s @ ''\<newline>'')
     @ ''\<newline>''"

definition buildFinalAnswer :: "string \<Rightarrow> agent_step list \<Rightarrow> string" where
  "buildFinalAnswer summary steps =
     (if steps = [] then summary
      else ''**Completed in '' @ dec_of_nat (length steps) @ '' step(s)**\<newline>\<newline>''
        @ concat (map step_text steps) @ ''---\<newline>'' @ summary)"

section \<open>The loop\<close>

record agent_state =
  LoopMsgs :: "message list"
  AgentSteps :: "agent_step list"
  Nudges :: nat
  LastCmd :: string
  ToolIDs :: nat

text \<open>The answer, the log, the error, and the counter of tool ids.\<close>

type_synonym agent_result = "string \<times> agent_step list \<times> goerr option \<times> nat"

definition agent_instruction :: string where
  "agent_instruction =
     ''Complete this task step by step using non-interactive bash commands.\<newline>''
     @ ''Rules:\<newline>''
     @ ''- Write files with: echo 'content' > file.txt  (NOT nano, vim, or editors)\<newline>''
     @ ''- Run Python with: python3 script.py\<newline>''
     @ ''- For each step, write ONLY a single ```bash code block. No explanation.\<newline>''
     @ ''- When fully done, write ONLY: DONE: <one sentence summary>''"

definition nudge_text :: string where
  "nudge_text = ''Write the next bash command as a ```bash``` block. Or write DONE: <summary> if finished.''"

definition output_text :: "string \<Rightarrow> string" where
  "output_text out = ''Output:\<newline>```\<newline>'' @ out @ ''\<newline>```\<newline>Next ```bash``` command, or DONE: <summary>.''"

definition finish :: "string \<Rightarrow> agent_state \<Rightarrow> ('w, agent_result) prog" where
  "finish summary st = gret (buildFinalAnswer summary (AgentSteps st), AgentSteps st, None, ToolIDs st)"

text \<open>
  One tool call of round \<open>i\<close>: run it, log the step, and either end or continue with its output.
\<close>

definition run_step ::
  "'w exec_env \<Rightarrow> string \<Rightarrow> nat \<Rightarrow> string \<Rightarrow> tool_call \<Rightarrow> agent_state
   \<Rightarrow> (agent_state \<Rightarrow> ('w, agent_result) prog) \<Rightarrow> ('w, agent_result) prog" where
  "run_step X workdir i t tc0 st next_round =
     (let (tc, hasDone, doneMsg) = cleanToolCallWithDone tc0
      in gbind (grun (executeTool X tc workdir)) (\<lambda>r.
           let output = (case r of Inl e \<Rightarrow> ''error: '' @ e | Inr out \<Rightarrow> out);
               step = \<lparr>StepNo = i + 1, StepTool = CallName tc, StepInput = CallInput tc,
                  StepOutput = (case r of Inl _ \<Rightarrow> [] | Inr out \<Rightarrow> out),
                  StepError = (case r of Inl e \<Rightarrow> e | Inr _ \<Rightarrow> [])\<rparr>;
               st1 = st\<lparr>AgentSteps := AgentSteps st @ [step]\<rparr>
           in if hasDone then finish doneMsg st1
              else next_round (st1\<lparr>LoopMsgs := LoopMsgs st1 @ [msg ''assistant'' t, msg ''user'' (output_text output)]\<rparr>)))"

fun agent_loop ::
  "'w exec_env \<Rightarrow> 'w generate \<Rightarrow> string \<Rightarrow> int \<Rightarrow> string \<Rightarrow> nat \<Rightarrow> nat \<Rightarrow> agent_state \<Rightarrow> ('w, agent_result) prog" where
  "agent_loop X gen model maxTokens workdir 0 i st = finish [] st"
| "agent_loop X gen model maxTokens workdir (Suc n) i st =
     gbind (ask gen ((gen_request model (LoopMsgs st))\<lparr>MaxTokens := maxTokens\<rparr>)) (\<lambda>r. case r of
        Inl e \<Rightarrow> gret (buildFinalAnswer [] (AgentSteps st), AgentSteps st,
                      Some (''step '' @ dec_of_nat (i + 1) @ '': '' @ e), ToolIDs st)
      | Inr raw \<Rightarrow>
        (let t = trim_space raw
         in case (if AgentSteps st = [] then None else extractDone (stripCodeBlocks t)) of
              Some doneMsg \<Rightarrow> finish doneMsg st
            | None \<Rightarrow>
              (case parseToolCall t (ToolIDs st) of
                 (None, ids) \<Rightarrow>
                   if 2 \<le> Nudges st + 1 then finish t st
                   else agent_loop X gen model maxTokens workdir n (i + 1)
                     (st\<lparr>Nudges := Nudges st + 1, ToolIDs := ids,
                       LoopMsgs := LoopMsgs st @ [msg ''assistant'' t, msg ''user'' nudge_text]\<rparr>)
               | (Some tc, ids) \<Rightarrow>
                   if CallInput tc = LastCmd st then finish ''(stopped: same command repeated)'' (st\<lparr>ToolIDs := ids\<rparr>)
                   else run_step X workdir i t tc (st\<lparr>Nudges := 0, LastCmd := CallInput tc, ToolIDs := ids\<rparr>)
                     (agent_loop X gen model maxTokens workdir n (i + 1)))))"

definition RunAgentLoop ::
  "'w exec_env \<Rightarrow> 'w generate \<Rightarrow> string \<Rightarrow> string \<Rightarrow> nat \<Rightarrow> message list \<Rightarrow> int \<Rightarrow> string \<Rightarrow> ('w, agent_result) prog" where
  "RunAgentLoop X gen tempdir model ids msgs maxTokens workdir =
     agent_loop X gen model maxTokens (if workdir = [] then tempdir else workdir) maxAgentSteps 0
       \<lparr>LoopMsgs = msgs @ [msg ''user'' agent_instruction], AgentSteps = [], Nudges = 0, LastCmd = [], ToolIDs = ids\<rparr>"

section \<open>The loop is bounded\<close>

definition steps_ok :: "nat \<Rightarrow> agent_step list \<Rightarrow> bool" where
  "steps_ok i steps \<longleftrightarrow> sorted_wrt (<) (map StepNo steps) \<and> (\<forall>s \<in> set steps. 0 < StepNo s \<and> StepNo s \<le> i)"

lemma steps_ok_mono: "steps_ok i steps \<Longrightarrow> i \<le> j \<Longrightarrow> steps_ok j steps"
  unfolding steps_ok_def using order_trans by blast

lemma steps_ok_snoc: "steps_ok i steps \<Longrightarrow> StepNo s = i + 1 \<Longrightarrow> steps_ok (i + 1) (steps @ [s])"
  by (auto simp: steps_ok_def sorted_wrt_append)

text \<open>An answer is the summary with the log it returns, and the log has at most \<open>k\<close> steps, in order.\<close>

definition answer_ok :: "nat \<Rightarrow> agent_result \<Rightarrow> bool" where
  "answer_ok k r \<longleftrightarrow> (case r of (answer, steps, err, ids) \<Rightarrow>
     steps_ok k steps \<and> (\<exists>summary. answer = buildFinalAnswer summary steps))"

lemma safe_finish: "steps_ok k (AgentSteps st) \<Longrightarrow> safe (finish summary st) (answer_ok k)"
  unfolding finish_def answer_ok_def by (auto intro!: safe_gret)

lemma safe_run_step:
  assumes next_ok: "\<And>st'. steps_ok (i + 1) (AgentSteps st') \<Longrightarrow> safe (next_round st') (answer_ok k)"
    and st: "steps_ok i (AgentSteps st)" and k: "i + 1 \<le> k"
  shows "safe (run_step X workdir i t tc0 st next_round) (answer_ok k)"
proof -
  obtain tc hasDone doneMsg where c: "cleanToolCallWithDone tc0 = (tc, hasDone, doneMsg)"
    by (cases "cleanToolCallWithDone tc0")
  have "steps_ok (i + 1) (AgentSteps st @ [\<lparr>StepNo = i + 1, StepTool = CallName tc, StepInput = CallInput tc,
      StepOutput = out, StepError = err\<rparr>])" for out err
    by (rule steps_ok_snoc [OF st]) simp
  then show ?thesis
    unfolding run_step_def c prod.case Let_def
    by (intro safe_gbind [where P = "\<lambda>_. True", OF safe_grun] safe_if safe_finish next_ok)
      (auto intro: steps_ok_mono [OF _ k])
qed

context inference_backend
begin

lemma safe_agent_loop:
  "steps_ok i (AgentSteps st) \<Longrightarrow> safe (agent_loop X Generate model mt workdir n i st) (answer_ok (i + n))"
proof (induction n arbitrary: i st)
  case 0
  then show ?case by (simp add: safe_finish)
next
  case (Suc n)
  have fin: "safe (finish summary st') (answer_ok (i + Suc n))" if "AgentSteps st' = AgentSteps st" for summary st'
    by (rule safe_finish) (use that steps_ok_mono [OF Suc.prems] in simp)
  have rec: "safe (agent_loop X Generate model mt workdir n (i + 1) st') (answer_ok (i + Suc n))"
    if "steps_ok (i + 1) (AgentSteps st')" for st'
    using Suc.IH [OF that] by simp
  have rec0: "safe (agent_loop X Generate model mt workdir n (i + 1) st') (answer_ok (i + Suc n))"
    if "AgentSteps st' = AgentSteps st" for st'
    by (rule rec) (use that steps_ok_mono [OF Suc.prems] in simp)
  have step: "safe (run_step X workdir i t tc st' (agent_loop X Generate model mt workdir n (i + 1))) (answer_ok (i + Suc n))"
    if "AgentSteps st' = AgentSteps st" for t tc st'
    by (rule safe_run_step [OF rec]) (use that Suc.prems in simp_all)
  have err: "answer_ok (i + Suc n) (buildFinalAnswer [] (AgentSteps st), AgentSteps st, e, ids)" for e ids
    using steps_ok_mono [OF Suc.prems, of "i + Suc n"] by (auto simp: answer_ok_def)
  have round: "safe (case parseToolCall t (ToolIDs st) of
      (None, ids) \<Rightarrow>
        if 2 \<le> Nudges st + 1 then finish t st
        else agent_loop X Generate model mt workdir n (i + 1)
          (st\<lparr>Nudges := Nudges st + 1, ToolIDs := ids,
            LoopMsgs := LoopMsgs st @ [msg ''assistant'' t, msg ''user'' nudge_text]\<rparr>)
    | (Some tc, ids) \<Rightarrow>
        if CallInput tc = LastCmd st then finish ''(stopped: same command repeated)'' (st\<lparr>ToolIDs := ids\<rparr>)
        else run_step X workdir i t tc (st\<lparr>Nudges := 0, LastCmd := CallInput tc, ToolIDs := ids\<rparr>)
          (agent_loop X Generate model mt workdir n (i + 1))) (answer_ok (i + Suc n))" for t
    by (intro safe_prod safe_option safe_if fin step rec0) simp_all
  show ?case
    unfolding agent_loop.simps Let_def
    by (intro safe_gbind [OF safe_ask] safe_sum safe_gret safe_option fin round err) simp_all
qed

lemma safe_RunAgentLoop:
  "safe (RunAgentLoop X Generate tempdir model ids msgs mt workdir) (answer_ok maxAgentSteps)"
  unfolding RunAgentLoop_def
  by (rule safe_mono [OF safe_agent_loop]) (simp_all add: steps_ok_def)

end

lemma cost_run_step:
  assumes "\<And>st'. cost calls k (next_round st')" and "\<And>tc w. calls (snd (executeTool X tc workdir w)) = calls w"
  shows "cost calls k (run_step X workdir i t tc0 st next_round)"
proof -
  have "cost calls 0 (grun (executeTool X tc workdir))" for tc
    by (rule cost_grun) (simp add: assms(2))
  then show ?thesis
    unfolding run_step_def Let_def finish_def
    by (intro cost_prod cost_gbind_le [where j = 0 and k = k]) (auto intro!: cost_if cost_gret assms(1))
qed

lemma cost_agent_loop:
  assumes gen: "\<forall>r. cost calls (Suc 0) (gen r)"
    and run: "\<And>tc w. calls (snd (executeTool X tc workdir w)) = calls w"
  shows "cost calls n (agent_loop X gen model mt workdir n i st)"
proof (induction n arbitrary: i st)
  case 0
  show ?case by (simp add: finish_def cost_gret)
next
  case (Suc n)
  have ask: "cost calls (Suc 0) (ask gen req)" for req
    using gen by (simp add: cost_ask)
  have step: "cost calls n (run_step X workdir i t tc st' (agent_loop X gen model mt workdir n (i + 1)))" for t tc st'
    by (rule cost_run_step) (rule Suc.IH, rule run)
  show ?case
    unfolding agent_loop.simps Let_def finish_def
    by (rule cost_gbind_le [where j = "Suc 0" and k = n, OF ask])
      (auto intro!: cost_sum cost_gret cost_option cost_prod cost_if step Suc.IH)
qed

section \<open>Lines that look done\<close>

lemma json_args_command: "json_args (command_input cmd) = Inr [(''command'', JStr cmd)]"
  using json_parse_print [of "JObj [(''command'', JStr cmd)]"]
  by (simp add: json_args_def command_input_def as_obj_def del: json_print.simps)

lemma clean_command:
  assumes "CallInput tc = command_input cmd"
    and "trim_space (join ''\<newline>'' (filter (\<lambda>l. \<not> done_line l) (split_on (CHR 0x0A) cmd))) \<noteq> []"
  shows "cleanToolCallWithDone tc =
     (tc\<lparr>CallInput := command_input (trim_space (join ''\<newline>'' (filter (\<lambda>l. \<not> done_line l) (split_on (CHR 0x0A) cmd))))\<rparr>,
      list_ex done_line (split_on (CHR 0x0A) cmd), done_message [] (split_on (CHR 0x0A) cmd))"
  using assms
  by (simp add: cleanToolCallWithDone_def json_args_command map_get_def Let_def map_set_def sort_members_def
      command_input_def [of "trim_space _"] del: json_print.simps)

section \<open>Properties\<close>


definition echo_env :: "nat exec_env" where
  "echo_env = \<lparr>run_bash = (\<lambda>c d w. (c, w)), run_python_file = (\<lambda>c d w. (Inr c, w)),
     write_path = (\<lambda>p c w. (None, w)), read_path = (\<lambda>p w. (Inl ''no such file'', w))\<rparr>"

lemma echo_env_still: "snd (executeTool echo_env tc dir w) = w"
  by (auto simp: executeTool_def executeBash_def executeWriteFile_def executeReadFile_def echo_env_def Let_def
      split: sum.splits)


text \<open>
  A line of a shell command that only looks like the word done, as the end of every \<open>for\<close> and
  \<open>while\<close> loop does, is taken for the model's signal of completion: the line is removed from the
  command that is run, and the agent stops after it.
\<close>

theorem shell_done_stops_agent:
  assumes "CallInput tc = command_input cmd" and "l \<in> set (split_on (CHR 0x0A) cmd)" and "done_line l"
    and "trim_space (join ''\<newline>'' (filter (\<lambda>l. \<not> done_line l) (split_on (CHR 0x0A) cmd))) = rest" and "rest \<noteq> []"
  shows "run_step X workdir i t tc st next_round w =
     (let (r, w1) = executeTool X (tc\<lparr>CallInput := command_input rest\<rparr>) workdir w;
          step = \<lparr>StepNo = i + 1, StepTool = CallName tc, StepInput = command_input rest,
             StepOutput = (case r of Inl _ \<Rightarrow> [] | Inr out \<Rightarrow> out), StepError = (case r of Inl e \<Rightarrow> e | Inr _ \<Rightarrow> [])\<rparr>
      in (Ret (buildFinalAnswer (done_message [] (split_on (CHR 0x0A) cmd)) (AgentSteps st @ [step]),
             AgentSteps st @ [step], None, ToolIDs st), w1))"
proof -
  have "list_ex done_line (split_on (CHR 0x0A) cmd)"
    using assms(2,3) by (auto simp: list_ex_iff)
  with clean_command [OF assms(1)] assms(4,5)
  have "cleanToolCallWithDone tc =
      (tc\<lparr>CallInput := command_input rest\<rparr>, True, done_message [] (split_on (CHR 0x0A) cmd))" by simp
  then show ?thesis
    by (simp add: run_step_def finish_def Let_def gbind_def split: prod.splits)
qed

lemma shell_done_stops_agent_witness:
  "\<exists>step. run_step echo_env ''/tmp'' 0 [] \<lparr>CallName = ''bash'', CallInput = command_input ''for i in 1 2\<newline>do echo x\<newline>done'', CallID = []\<rparr>
     \<lparr>LoopMsgs = [], AgentSteps = [], Nudges = 0, LastCmd = [], ToolIDs = 0\<rparr> (\<lambda>_ w. (Panic ''unreached'', w)) 0
   = (Ret (buildFinalAnswer [] [step], [step], None, 0), 0)"
proof -
  have cmd: "''done'' \<in> set (split_on (CHR 0x0A) ''for i in 1 2\<newline>do echo x\<newline>done'')" by code_simp
  have d: "done_line ''done''" by code_simp
  have rest: "trim_space (join ''\<newline>'' (filter (\<lambda>l. \<not> done_line l)
      (split_on (CHR 0x0A) ''for i in 1 2\<newline>do echo x\<newline>done''))) = ''for i in 1 2\<newline>do echo x''" by code_simp
  have m: "done_message [] (split_on (CHR 0x0A) ''for i in 1 2\<newline>do echo x\<newline>done'') = []" by code_simp
  have w: "executeTool echo_env tc dir 0 = (a, b) \<Longrightarrow> b = 0" for tc dir a b
    using echo_env_still [of tc dir 0] by simp
  show ?thesis
    by (subst shell_done_stops_agent [OF _ cmd d rest]) (auto simp: m Let_def split: prod.split dest: w)
qed

end
