(* ===== verification/Anthropic.thy ===== *)
theory Anthropic
  imports Gateway_Core Adapters Agent
begin

text \<open>
  The Anthropic Messages endpoint (\<open>internal/gateway/anthropic.go\<close>): decoding, the four handlers, the
  event stream and the model list. An event is its name and its JSON payload; the reply of a streaming
  handler is the text of its events. A \<open>json.RawMessage\<close> member is the value, printed in compact form.
\<close>

section \<open>Runes and token estimates\<close>

text \<open>
  A byte lies in a range; the length of the encoded rune at the front of a text, 0 when there is none.
\<close>

definition byte_in :: "nat \<Rightarrow> nat \<Rightarrow> char \<Rightarrow> bool" where
  "byte_in lo hi c \<longleftrightarrow> lo \<le> (of_char c :: nat) \<and> (of_char c :: nat) \<le> hi"

definition second_ok :: "char \<Rightarrow> char \<Rightarrow> bool" where
  "second_ok a b \<longleftrightarrow>
     byte_in (if a = CHR 0xE0 then 160 else if a = CHR 0xF0 then 144 else 128)
       (if a = CHR 0xED then 159 else if a = CHR 0xF4 then 143 else 191) b"

fun rune_width :: "string \<Rightarrow> nat" where
  "rune_width [] = 0"
| "rune_width (a # s) =
     (let n = (if byte_in 0 127 a then 1 else if byte_in 194 223 a then 2 else if byte_in 224 239 a then 3
               else if byte_in 240 244 a then 4 else 0)
      in if n \<le> length (a # s) \<and> (n \<le> 1 \<or> second_ok a (hd s)) \<and> (\<forall>c \<in> set (take (n - 2) (tl s)). byte_in 128 191 c)
         then n else 0)"

text \<open>The conversion to a slice of runes: a byte that starts no rune becomes U+FFFD.\<close>

function runes :: "string \<Rightarrow> string list" where
  "runes [] = []"
| "runes (c # s) =
     (let n = rune_width (c # s)
      in if n = 0 then utf8 65533 # runes s else take n (c # s) # runes (drop (n - 1) s))"
  by pat_completeness auto
termination
  by (relation "measure length") auto

function valid_utf8 :: "string \<Rightarrow> bool" where
  "valid_utf8 [] \<longleftrightarrow> True"
| "valid_utf8 (c # s) \<longleftrightarrow> 0 < rune_width (c # s) \<and> valid_utf8 (drop (rune_width (c # s) - 1) s)"
  by pat_completeness auto
termination
  by (relation "measure length") auto

declare rune_width.simps [simp del]

lemma concat_runes: "valid_utf8 s \<Longrightarrow> concat (runes s) = s"
proof (induction s rule: valid_utf8.induct)
  case 1
  then show ?case by simp
next
  case (2 c s)
  obtain k where k: "rune_width (c # s) = Suc k" using 2(2) by (cases "rune_width (c # s)") simp_all
  with 2 have "concat (runes (drop k s)) = drop k s" by simp
  with k show ?case by simp
qed

definition estimateTokens :: "message list \<Rightarrow> int" where
  "estimateTokens ms = sum_list (map (\<lambda>m. int (length (runes (Content m))) div 4) ms)"

definition text_tokens :: "string \<Rightarrow> int" where
  "text_tokens s = int (length (runes s)) div 4"

section \<open>Decoding a request\<close>

definition last_value :: "string \<Rightarrow> (string \<times> json) list \<Rightarrow> json option" where
  "last_value k ms = (case rev (jmatches k ms) of [] \<Rightarrow> None | v # _ \<Rightarrow> Some v)"

record content_block =
  BlockType :: string
  BlockText :: string
  BlockName :: string
  BlockInput :: "json option"

definition as_block :: "json \<Rightarrow> content_block result" where
  "as_block v =
     result_bind (as_obj v) (\<lambda>ms. result_bind (str_field ''type'' ms) (\<lambda>ty.
       result_bind (str_field ''text'' ms) (\<lambda>tx. result_bind (str_field ''id'' ms) (\<lambda>_.
       result_bind (str_field ''name'' ms) (\<lambda>n. result_bind (str_field ''tool_use_id'' ms) (\<lambda>_.
         Inr \<lparr>BlockType = ty, BlockText = tx, BlockName = n, BlockInput = last_value ''input'' ms\<rparr>))))))"

text \<open>
  The loop over the blocks. A block of type tool_result ends the whole method with the text it found
  not yet stored: the receiver keeps its zero value, the empty text.
\<close>

fun block_parts :: "content_block list \<Rightarrow> string list option" where
  "block_parts [] = Some []"
| "block_parts (b # bs) =
     (if BlockType b = ''text'' then
        (if BlockText b \<noteq> [] then map_option ((#) (BlockText b)) (block_parts bs) else block_parts bs)
      else if BlockType b = ''tool_use'' then
        (case BlockInput b of
           Some v \<Rightarrow> if v \<noteq> JNull
             then map_option ((#) (''[tool_use: '' @ BlockName b @ '' '' @ json_print v @ '']'')) (block_parts bs)
             else block_parts bs
         | None \<Rightarrow> block_parts bs)
      else if BlockType b = ''tool_result'' then None
      else block_parts bs)"

definition content_UnmarshalJSON :: "json \<Rightarrow> string result" where
  "content_UnmarshalJSON v =
     (case as_str v of
        Inr s \<Rightarrow> Inr s
      | Inl _ \<Rightarrow>
        (case as_list as_block v of
           Inl e \<Rightarrow> Inl e
         | Inr blocks \<Rightarrow> Inr (case block_parts blocks of None \<Rightarrow> [] | Some parts \<Rightarrow> join ''\<newline>'' parts)))"

definition content_field :: "string \<Rightarrow> (string \<times> json) list \<Rightarrow> string result" where
  "content_field k ms =
     (case traverse content_UnmarshalJSON (jmatches k ms) of
        Inl e \<Rightarrow> Inl e | Inr [] \<Rightarrow> Inr [] | Inr (t # ts) \<Rightarrow> Inr (last (t # ts)))"

definition as_anthropic_message :: "json \<Rightarrow> message result" where
  "as_anthropic_message v =
     result_bind (as_obj v) (\<lambda>ms. result_bind (str_field ''role'' ms) (\<lambda>r.
       result_bind (content_field ''content'' ms) (\<lambda>c. Inr (msg r c))))"

definition as_tool :: "json \<Rightarrow> anthropic_tool result" where
  "as_tool v =
     result_bind (as_obj v) (\<lambda>ms. result_bind (str_field ''name'' ms) (\<lambda>n.
       result_bind (str_field ''description'' ms) (\<lambda>d.
         Inr \<lparr>ToolName = n, ToolDescription = d,
           ToolInputSchema = (case last_value ''input_schema'' ms of Some s \<Rightarrow> json_print s | None \<Rightarrow> [])\<rparr>)))"

record anthropic_request =
  AModel :: string
  AMaxTokens :: int
  AMessages :: "message list"
  ASystem :: string
  AStream :: bool
  ATools :: "anthropic_tool list"

definition parse_anthropic :: "string \<Rightarrow> anthropic_request result" where
  "parse_anthropic body =
     result_bind (unmarshal_obj body) (\<lambda>ms.
     result_bind (str_field ''model'' ms) (\<lambda>model.
     result_bind (int_field ''max_tokens'' ms) (\<lambda>mt.
     result_bind (list_field as_anthropic_message ''messages'' ms) (\<lambda>msgs.
     result_bind (content_field ''system'' ms) (\<lambda>sys.
     result_bind (bool_field ''stream'' ms) (\<lambda>stream.
     result_bind (list_field as_tool ''tools'' ms) (\<lambda>tools.
     result_bind (obj_field ''tool_choice'' ms) (\<lambda>tc.
     result_bind (str_field ''type'' tc) (\<lambda>_. result_bind (str_field ''name'' tc) (\<lambda>_.
       Inr \<lparr>AModel = model, AMaxTokens = mt, AMessages = msgs, ASystem = sys, AStream = stream, ATools = tools\<rparr>))))))))))"

section \<open>Payloads\<close>

definition anthropicError :: "string \<Rightarrow> string \<Rightarrow> json" where
  "anthropicError ty m = JObj [(''error'', JObj [(''message'', JStr m), (''type'', JStr ty)]), (''type'', JStr ''error'')]"

definition usage_json :: "int \<Rightarrow> int \<Rightarrow> json" where
  "usage_json i out = JObj [(''input_tokens'', JInt i), (''output_tokens'', JInt out)]"

text \<open>An empty text is left out (\<open>omitempty\<close>).\<close>

definition text_content :: "string \<Rightarrow> json" where
  "text_content t = JObj ((''type'', JStr ''text'') # (if t = [] then [] else [(''text'', JStr t)]))"

definition tool_use_content :: "tool_call \<Rightarrow> json" where
  "tool_use_content tc = JObj ([(''type'', JStr ''tool_use''), (''id'', JStr (CallID tc))]
     @ (if CallName tc = [] then [] else [(''name'', JStr (CallName tc))])
     @ (case json_parse (CallInput tc) of Some v \<Rightarrow> [(''input'', v)] | None \<Rightarrow> []))"

definition anthropic_response :: "string \<Rightarrow> json list \<Rightarrow> string \<Rightarrow> string \<Rightarrow> json \<Rightarrow> json" where
  "anthropic_response i content model stop usage = JObj [
     (''id'', JStr i), (''type'', JStr ''message''), (''role'', JStr ''assistant''), (''content'', JArr content),
     (''model'', JStr model), (''stop_reason'', JStr stop), (''stop_sequence'', JNull), (''usage'', usage)]"

type_synonym event = "string \<times> json"

definition message_start :: "string \<Rightarrow> string \<Rightarrow> int \<Rightarrow> event" where
  "message_start msgID model inTokens = (''message_start'', JObj [(''type'', JStr ''message_start''),
     (''message'', anthropic_response msgID [] model [] (usage_json inTokens 1))])"

definition content_block_start :: event where
  "content_block_start = (''content_block_start'', JObj [(''type'', JStr ''content_block_start''),
     (''index'', JInt 0), (''content_block'', text_content [])])"

definition ping :: event where
  "ping = (''ping'', JObj [(''type'', JStr ''ping'')])"

definition content_block_delta :: "string \<Rightarrow> event" where
  "content_block_delta t = (''content_block_delta'', JObj [(''type'', JStr ''content_block_delta''),
     (''index'', JInt 0), (''delta'', JObj [(''type'', JStr ''text_delta''), (''text'', JStr t)])])"

definition content_block_stop :: event where
  "content_block_stop = (''content_block_stop'', JObj [(''type'', JStr ''content_block_stop''), (''index'', JInt 0)])"

definition message_delta :: "string \<Rightarrow> int \<Rightarrow> event" where
  "message_delta stop out = (''message_delta'', JObj [(''type'', JStr ''message_delta''),
     (''delta'', JObj [(''stop_reason'', JStr stop), (''stop_sequence'', JNull)]), (''usage'', usage_json 0 out)])"

definition message_stop :: event where
  "message_stop = (''message_stop'', JObj [(''type'', JStr ''message_stop'')])"

definition error_event :: "string \<Rightarrow> event" where
  "error_event m = (''error'', JObj [(''error'', JObj [(''message'', JStr m), (''type'', JStr ''api_error'')]),
     (''type'', JStr ''error'')])"

definition writeSSE :: "event \<Rightarrow> string" where
  "writeSSE ev = ''event: '' @ fst ev @ ''\<newline>data: '' @ json_print (snd ev) @ ''\<newline>\<newline>''"

definition sse_text :: "event list \<Rightarrow> string" where
  "sse_text evs = concat (map writeSSE evs)"

section \<open>The environment of the handlers\<close>

record 'w agent_env =
  ag_exec :: "'w exec_env"
  ag_tempdir :: string
  ag_mkdir :: "string \<Rightarrow> 'w \<Rightarrow> 'w"
  ag_getenv :: "string \<Rightarrow> string"

definition localModel :: "'w agent_env \<Rightarrow> string" where
  "localModel A = (let m = ag_getenv A ''CAW_DEFAULT_MODEL'' in if m \<noteq> [] then m else ''gemma:2b'')"

definition agentWorkdir :: "('w, 'e) gateway_env \<Rightarrow> 'w agent_env \<Rightarrow> 'w \<Rightarrow> string \<times> 'w" where
  "agentWorkdir G A w =
     (let dir = join_path (ag_tempdir A) (''caw_agent_'' @ dec_of_int (gw_nano_now G w)) in (dir, ag_mkdir A dir w))"

definition busy_anthropic :: reply where
  "busy_anthropic = reply_json 429 (anthropicError ''rate_limit_error'' ''server busy'')"

definition mark_searched :: "bool \<Rightarrow> reply \<Rightarrow> reply" where
  "mark_searched searched r = (if searched then with_header ''X-CAW-Web-Searched'' ''true'' r else r)"

text \<open>Run the agent in a fresh directory, with the process's counter of tool ids.\<close>

definition run_agent ::
  "('w, 'e) gateway_env \<Rightarrow> 'w agent_env \<Rightarrow> string \<Rightarrow> message list \<Rightarrow> int
   \<Rightarrow> ('e gateway_state \<times> 'w, string \<times> agent_step list \<times> goerr option) prog" where
  "run_agent G A model ms maxTokens = (\<lambda>(g, w).
     let (workdir, w1) = agentWorkdir G A w
     in case RunAgentLoop (ag_exec A) (gw_generate G) (ag_tempdir A) model (gw_ids g) ms maxTokens workdir w1 of
          (Panic m, w2) \<Rightarrow> (Panic m, (g, w2))
        | (Ret (answer, steps, err, ids), w2) \<Rightarrow> (Ret (answer, steps, err), (g\<lparr>gw_ids := ids\<rparr>, w2)))"

definition msg_id :: "('w, 'e) gateway_env \<Rightarrow> ('e gateway_state \<times> 'w, string) prog" where
  "msg_id G = outside (grun (\<lambda>w. (''msg_'' @ dec_of_int (gw_nano_now G w), w)))"

definition steps_header :: "agent_step list \<Rightarrow> (string \<times> string) list" where
  "steps_header steps = (if steps = [] then [] else [(''X-CAW-Agent-Steps'', dec_of_nat (length steps))])"

section \<open>Agent requests\<close>

definition messagesAgent ::
  "('w, 'e) gateway_env \<Rightarrow> 'w agent_env \<Rightarrow> string \<Rightarrow> message list \<Rightarrow> int \<Rightarrow> ('e gateway_state \<times> 'w, reply) prog" where
  "messagesAgent G A model ms0 maxTokens =
     with_slot busy_anthropic
       (gbind (gw_augment G ms0) (\<lambda>(ms, searched).
        gbind (run_agent G A model ms maxTokens) (\<lambda>(answer, steps, err). case err of
          Some e \<Rightarrow> gret (mark_searched searched (reply_json 500 (anthropicError ''api_error'' e)))
        | None \<Rightarrow> gbind (msg_id G) (\<lambda>i.
            gret (mark_searched searched
              \<lparr>ReplyStatus = 200, ReplyHeaders = steps_header steps,
               ReplyBody = JSONBody (anthropic_response i [text_content answer] model ''end_turn''
                 (usage_json (estimateTokens ms) (text_tokens answer)))\<rparr>)))))"

definition step_prefix :: "agent_step \<Rightarrow> string" where
  "step_prefix s =
     ''**Step '' @ dec_of_nat (StepNo s) @ '' '' @ em_dash @ '' '' @ StepTool s @ ''**\<newline>''
     @ (if StepOutput s = [] then []
        else let ls = split_on (CHR 0x0A) (trim_space (StepOutput s));
                 shown = (if 5 < length ls then take 5 ls @ [ellipsis] else ls)
             in ''```\<newline>'' @ join ''\<newline>'' shown @ ''\<newline>```\<newline>'')
     @ (if StepError s = [] then [] else warning_sign @ ''  '' @ StepError s @ ''\<newline>'')"

definition steps_prefix :: "agent_step list \<Rightarrow> string" where
  "steps_prefix steps =
     (if steps = [] then []
      else ''*(CAW executed '' @ dec_of_nat (length steps) @ '' step(s) server-side)*\<newline>\<newline>''
        @ concat (map step_prefix steps) @ ''\<newline>---\<newline>\<newline>'')"

text \<open>The runes of a text in groups of 40.\<close>

function rune_chunks :: "string list \<Rightarrow> string list list" where
  "rune_chunks rs = (if rs = [] then [] else take 40 rs # rune_chunks (drop 40 rs))"
  by pat_completeness auto
termination
  by (relation "measure length") auto

declare rune_chunks.simps [simp del]

definition agent_events :: "string \<Rightarrow> string \<Rightarrow> message list \<Rightarrow> string \<Rightarrow> event list" where
  "agent_events msgID model ms fullText =
     (let chunks = rune_chunks (runes fullText);
          outputTokens = sum_list (map (\<lambda>c. int (length c) div 4) chunks)
      in [message_start msgID model (estimateTokens ms), content_block_start, ping]
         @ map (\<lambda>c. content_block_delta (concat c)) chunks
         @ [content_block_stop, message_delta ''end_turn'' outputTokens, message_stop])"

definition stream_reply :: "(string \<times> string) list \<Rightarrow> event list \<Rightarrow> reply" where
  "stream_reply headers evs = \<lparr>ReplyStatus = 200,
     ReplyHeaders = [(''Content-Type'', ''text/event-stream''), (''Cache-Control'', ''no-cache''),
       (''Connection'', ''keep-alive'')] @ headers,
     ReplyBody = StreamBody (sse_text evs)\<rparr>"

definition messagesAgentStream ::
  "('w, 'e) gateway_env \<Rightarrow> 'w agent_env \<Rightarrow> string \<Rightarrow> message list \<Rightarrow> int \<Rightarrow> ('e gateway_state \<times> 'w, reply) prog" where
  "messagesAgentStream G A model ms0 maxTokens =
     with_stream_slot busy_anthropic
       (gbind (gw_augment G ms0) (\<lambda>(ms, searched).
        gbind (run_agent G A model ms maxTokens) (\<lambda>r. gret (ms, searched, r))))
       (\<lambda>(ms, searched, answer, steps, err).
          gbind (msg_id G) (\<lambda>i.
            gret (mark_searched searched (stream_reply (steps_header steps)
              (case err of
                 Some e \<Rightarrow> [error_event e]
               | None \<Rightarrow> agent_events i model ms (steps_prefix steps @ answer))))))"

section \<open>Plain requests\<close>

definition messagesComplete ::
  "('w, 'e) gateway_env \<Rightarrow> string \<Rightarrow> message list \<Rightarrow> int \<Rightarrow> bool \<Rightarrow> ('e gateway_state \<times> 'w, reply) prog" where
  "messagesComplete G model ms0 maxTokens hasTools =
     with_slot busy_anthropic
       (gbind (gw_augment G ms0) (\<lambda>(ms, searched).
        gbind (outside (gw_generate G ((gen_request model ms)\<lparr>MaxTokens := maxTokens\<rparr>))) (\<lambda>r. case r of
          Inl e \<Rightarrow> gret (mark_searched searched (reply_json 500 (anthropicError ''api_error'' e)))
        | Inr resp \<Rightarrow> (\<lambda>(g, w).
            let t = (case Choices resp of [] \<Rightarrow> [] | c # _ \<Rightarrow> Content (Message c));
                usage = usage_json (estimateTokens ms) (text_tokens t);
                plain = reply_json 200 (anthropic_response (RespID resp) [text_content t] model ''end_turn'' usage)
            in if \<not> hasTools then (Ret (mark_searched searched plain), (g, w))
               else case parseToolCall t (gw_ids g) of
                 (None, ids) \<Rightarrow> (Ret (mark_searched searched plain), (g\<lparr>gw_ids := ids\<rparr>, w))
               | (Some tc, ids) \<Rightarrow>
                   (Ret (mark_searched searched (reply_json 200
                      (anthropic_response (RespID resp) [tool_use_content tc] model ''tool_use'' usage))),
                    (g\<lparr>gw_ids := ids\<rparr>, w))))))"

text \<open>
  The tokens that reach the client: the non-empty deltas of the first choices. \<open>client k\<close> says that
  the flush after the \<open>k\<close>-th of them works; the stream ends at the first that does not.
\<close>

fun stream_tokens :: "generate_response list \<Rightarrow> string list" where
  "stream_tokens [] = []"
| "stream_tokens (r # rs) =
     (case Choices r of
        [] \<Rightarrow> stream_tokens rs
      | c # _ \<Rightarrow> (case Delta c of
          Some d \<Rightarrow> if Content d = [] then stream_tokens rs else Content d # stream_tokens rs
        | None \<Rightarrow> stream_tokens rs))"

fun delta_events :: "(nat \<Rightarrow> bool) \<Rightarrow> nat \<Rightarrow> string list \<Rightarrow> event list \<times> bool" where
  "delta_events client k [] = ([], True)"
| "delta_events client k (t # ts) =
     (if client k then (let (evs, ok) = delta_events client (Suc k) ts in (content_block_delta t # evs, ok))
      else ([content_block_delta t], False))"

definition stream_events ::
  "(nat \<Rightarrow> bool) \<Rightarrow> string \<Rightarrow> string \<Rightarrow> message list \<Rightarrow> string \<Rightarrow> generate_response list result \<Rightarrow> event list" where
  "stream_events client msgID model ms stop r =
     [message_start msgID model (estimateTokens ms), content_block_start, ping]
     @ (case r of
          Inl e \<Rightarrow> [error_event e]
        | Inr chunks \<Rightarrow>
          (let toks = stream_tokens chunks; (evs, ok) = delta_events client 0 toks
           in if ok then evs @ [content_block_stop, message_delta stop (sum_list (map text_tokens toks)), message_stop]
              else evs))"

definition messagesStream ::
  "('w, 'e) gateway_env \<Rightarrow> (nat \<Rightarrow> bool) \<Rightarrow> string \<Rightarrow> message list \<Rightarrow> int \<Rightarrow> bool \<Rightarrow> ('e gateway_state \<times> 'w, reply) prog" where
  "messagesStream G client model ms0 maxTokens hasTools =
     with_stream_slot busy_anthropic (gw_augment G ms0) (\<lambda>(ms, searched).
       gbind (msg_id G) (\<lambda>i.
       gbind (outside (gw_stream G ((gen_request model ms)\<lparr>Stream := True, MaxTokens := maxTokens\<rparr>))) (\<lambda>r. (\<lambda>(g, w).
         let full = (case r of Inl _ \<Rightarrow> [] | Inr chunks \<Rightarrow> concat (stream_tokens chunks));
             (tc, ids) = (if hasTools \<and> (case r of Inl _ \<Rightarrow> False | Inr chunks \<Rightarrow> snd (delta_events client 0 (stream_tokens chunks)))
                          then parseToolCall full (gw_ids g) else (None, gw_ids g));
             stop = (if tc = None then ''end_turn'' else ''tool_use'')
         in (Ret (mark_searched searched (stream_reply [] (stream_events client i model ms stop r))),
             (g\<lparr>gw_ids := ids\<rparr>, w))))))"

section \<open>Dispatch\<close>

definition resolve_model :: "'w agent_env \<Rightarrow> string \<Rightarrow> string \<Rightarrow> string" where
  "resolve_model A header requested =
     (let model = (if header = [] then requested else header)
      in if has_prefix model ''claude-'' \<or> model = [] then localModel A else model)"

definition anthropic_messages :: "anthropic_request \<Rightarrow> message list" where
  "anthropic_messages req =
     (if ASystem req \<noteq> [] then [msg ''system'' (ASystem req)] else [])
     @ (if ATools req \<noteq> [] then [msg ''system'' (buildToolSystemPrompt (ATools req))] else [])
     @ AMessages req"

definition MessagesHandler ::
  "('w, 'e) gateway_env \<Rightarrow> 'w agent_env \<Rightarrow> (nat \<Rightarrow> bool) \<Rightarrow> string \<Rightarrow> string \<Rightarrow> ('e gateway_state \<times> 'w, reply) prog" where
  "MessagesHandler G A client model_header body =
     (case parse_anthropic body of
        Inl _ \<Rightarrow> gret (reply_json 422 (anthropicError ''invalid_request_error'' ''invalid request body''))
      | Inr req \<Rightarrow>
        if AMessages req = [] then
          gret (reply_json 422 (anthropicError ''invalid_request_error'' ''messages is required''))
        else
          let model = resolve_model A model_header (AModel req); ms = anthropic_messages req
          in if ATools req \<noteq> [] then
               (if AStream req then messagesAgentStream G A model ms (AMaxTokens req)
                else messagesAgent G A model ms (AMaxTokens req))
             else if AStream req then messagesStream G client model ms (AMaxTokens req) False
             else messagesComplete G model ms (AMaxTokens req) False)"

section \<open>The model list\<close>

definition arrow :: string where
  "arrow = [CHR 0xE2, CHR 0x86, CHR 0x92]"

definition model_entry :: "string \<Rightarrow> string \<Rightarrow> json" where
  "model_entry i display = JObj [(''id'', JStr i), (''type'', JStr ''model''),
     (''display_name'', JStr display), (''created_at'', JStr ''2024-01-01T00:00:00Z'')]"

definition model_aliases :: "string list" where
  "model_aliases = [''claude-opus-4-5'', ''claude-sonnet-4-5'', ''claude-haiku-4-5'',
     ''claude-3-5-sonnet-20241022'', ''claude-3-opus-20240229'']"

definition ModelsHandler :: "'w agent_env \<Rightarrow> reply" where
  "ModelsHandler A =
     (let model = localModel A;
          entries = (model, model) # map (\<lambda>a. (a, a @ '' '' @ arrow @ '' '' @ model)) model_aliases
      in reply_json 200 (JObj [
           (''data'', JArr (map (\<lambda>(i, d). model_entry i d) entries)), (''first_id'', JStr (fst (hd entries))),
           (''last_id'', JStr (fst (last entries))), (''has_more'', JBool False)]))"

definition ModelDetailHandler :: "'w agent_env \<Rightarrow> string \<Rightarrow> reply" where
  "ModelDetailHandler A requested =
     reply_json 200 (model_entry requested (requested @ '' '' @ arrow @ '' '' @ localModel A @ '' (via CAW)''))"

section \<open>Lemmas\<close>

lemma concat_rune_chunks: "concat (concat (rune_chunks rs)) = concat rs"
proof (induction rs rule: rune_chunks.induct)
  case (1 rs)
  show ?case
  proof (cases "rs = []")
    case True
    then show ?thesis by (simp add: rune_chunks.simps)
  next
    case False
    then have "concat (concat (rune_chunks rs)) = concat (take 40 rs) @ concat (drop 40 rs)"
      using 1 by (subst rune_chunks.simps) simp
    also have "\<dots> = concat (take 40 rs @ drop 40 rs)" by (simp only: concat_append)
    finally show ?thesis by simp
  qed
qed

lemma rune_chunks_bound: "c \<in> set (rune_chunks rs) \<Longrightarrow> c \<noteq> [] \<and> length c \<le> 40"
proof (induction rs rule: rune_chunks.induct)
  case (1 rs)
  then show ?case
    by (subst (asm) (2) rune_chunks.simps) (auto split: if_splits)
qed

lemma delta_events_all: "(\<And>k. client k) \<Longrightarrow> delta_events client k ts = (map content_block_delta ts, True)"
  by (induction ts arbitrary: k) simp_all

lemma keeps_run_agent [pool_intros]: "keeps_pool (run_agent G A model ms mt)"
  by (auto simp: keeps_pool_def run_agent_def Let_def split: prod.splits go.splits)

lemma keeps_msg_id [pool_intros]: "keeps_pool (msg_id G)"
  unfolding msg_id_def by (intro pool_intros)

lemma keeps_messagesAgent: "keeps_pool (messagesAgent G A model ms mt)"
  unfolding messagesAgent_def by (intro with_slot_balanced pool_intros)

lemma keeps_messagesComplete: "keeps_pool (messagesComplete G model ms mt hasTools)"
proof -
  have "keeps_pool (\<lambda>(g, w). let t = (case Choices resp of [] \<Rightarrow> [] | c # _ \<Rightarrow> Content (Message c));
                usage = usage_json (estimateTokens ms) (text_tokens t);
                plain = reply_json 200 (anthropic_response (RespID resp) [text_content t] model ''end_turn'' usage)
            in if \<not> hasTools then (Ret (mark_searched searched plain), (g, w))
               else case parseToolCall t (gw_ids g) of
                 (None, ids) \<Rightarrow> (Ret (mark_searched searched plain), (g\<lparr>gw_ids := ids\<rparr>, w))
               | (Some tc, ids) \<Rightarrow>
                   (Ret (mark_searched searched (reply_json 200
                      (anthropic_response (RespID resp) [tool_use_content tc] model ''tool_use'' usage))),
                    (g\<lparr>gw_ids := ids\<rparr>, w)))" for resp ms searched
    by (auto simp: keeps_pool_def Let_def split: prod.splits option.splits)
  then show ?thesis
    unfolding messagesComplete_def by (intro with_slot_balanced pool_intros)
qed

lemma keeps_stream_end:
  "keeps_pool (\<lambda>(g, w). let full = f r; (tc, ids) = (if b then parseToolCall full (gw_ids g) else (None, gw_ids g));
       stop = s tc in (Ret (h stop), (g\<lparr>gw_ids := ids\<rparr>, w)))"
  by (auto simp: keeps_pool_def Let_def split: prod.splits)

end
