(* ===== verification/Gateway_Props.thy ===== *)
theory Gateway_Props
  imports Chat Anthropic
begin

text \<open>
  What the chat and messages endpoints guarantee: worker slots are given back, event streams keep the
  protocol and carry the text; and where they do not: the slot lost to a panic, the tool result that
  is dropped, the cached answer that ignores its context.
\<close>

section \<open>Lemmas\<close>

lemma keeps_reply: "keeps_pool m \<Longrightarrow> m s = (Ret r, s') \<Longrightarrow> gw_pool (fst s') = gw_pool (fst s)"
  unfolding keeps_pool_def by (metis snd_conv)

lemma messagesStream_balanced:
  assumes "messagesStream G client model ms mt hasTools s = (Ret r, s')"
  shows "gw_pool (fst s') = gw_pool (fst s)"
  using assms unfolding messagesStream_def
  by (rule stream_slot_balanced [rotated 2]) (intro pool_intros keeps_stream_end)+

lemma messagesAgentStream_balanced:
  assumes "messagesAgentStream G A model ms mt s = (Ret r, s')"
  shows "gw_pool (fst s') = gw_pool (fst s)"
  using assms unfolding messagesAgentStream_def
  by (rule stream_slot_balanced [rotated 2]) (intro pool_intros)+

lemma messages_pool_balanced:
  assumes "MessagesHandler G A client header body s = (Ret r, s')"
  shows "gw_pool (fst s') = gw_pool (fst s)"
  using assms
  by (auto simp: MessagesHandler_def Let_def split: sum.splits if_splits
      intro: messagesStream_balanced messagesAgentStream_balanced
        keeps_reply [OF keeps_messagesAgent] keeps_reply [OF keeps_messagesComplete])

text \<open>A backend that answers, but with no choice.\<close>

definition answers_nothing :: "'w generate \<Rightarrow> bool" where
  "answers_nothing gen \<longleftrightarrow> (\<forall>req w. \<exists>resp w'. gen req w = (Ret (Inr resp), w') \<and> Choices resp = [])"

lemma agent_panics:
  assumes "answers_nothing gen"
  shows "\<exists>m w'. RunAgentLoop X gen td model ids ms mt wd w = (Panic m, w')"
proof -
  obtain resp w' where "gen ((gen_request model (ms @ [msg ''user'' agent_instruction]))\<lparr>MaxTokens := mt\<rparr>) w
      = (Ret (Inr resp), w')" "Choices resp = []"
    using assms unfolding answers_nothing_def by blast
  then show ?thesis
    by (simp add: RunAgentLoop_def maxAgentSteps_def numeral_eq_Suc ask_def gbind_def first_content_def glift_def)
qed

lemma agent_stream_leaks:
  assumes "answers_nothing (gw_generate G)" and "gw_search G = None"
    and "sem_len (gw_pool g) < maxSize (gw_pool g)"
  shows "\<exists>m g' w'. messagesAgentStream G A model ms mt (g, w) = (Panic m, (g', w'))
     \<and> sem_len (gw_pool g') = sem_len (gw_pool g) + 1 \<and> maxSize (gw_pool g') = maxSize (gw_pool g)"
proof -
  obtain wd w1 where d: "agentWorkdir G A w = (wd, w1)" by (cases "agentWorkdir G A w")
  obtain m w2 where "RunAgentLoop (ag_exec A) (gw_generate G) (ag_tempdir A) model (gw_ids g) ms mt wd w1 = (Panic m, w2)"
    using agent_panics [OF assms(1)] by blast
  with assms(2,3) d show ?thesis
    by (simp add: messagesAgentStream_def with_stream_slot_def Acquire_def gw_augment_def run_agent_def Let_def)
qed

lemma agent_stream_leaks_all:
  assumes "answers_nothing (gw_generate G)" and "gw_search G = None"
  shows "sem_len (gw_pool (fst s)) + k \<le> maxSize (gw_pool (fst s)) \<Longrightarrow>
    sem_len (gw_pool (fst (((\<lambda>s. snd (messagesAgentStream G A model ms mt s)) ^^ k) s))) = sem_len (gw_pool (fst s)) + k
    \<and> maxSize (gw_pool (fst (((\<lambda>s. snd (messagesAgentStream G A model ms mt s)) ^^ k) s))) = maxSize (gw_pool (fst s))"
proof (induction k)
  case 0
  then show ?case by simp
next
  case (Suc k)
  let ?s = "((\<lambda>s. snd (messagesAgentStream G A model ms mt s)) ^^ k) s"
  obtain g w where gw: "?s = (g, w)" by (cases ?s)
  with Suc have g: "sem_len (gw_pool g) = sem_len (gw_pool (fst s)) + k" "maxSize (gw_pool g) = maxSize (gw_pool (fst s))"
    by simp_all
  with Suc.prems have "sem_len (gw_pool g) < maxSize (gw_pool g)" by simp
  from agent_stream_leaks [OF assms this, of A model ms mt w] obtain m g' w'
    where "messagesAgentStream G A model ms mt (g, w) = (Panic m, (g', w'))"
      "sem_len (gw_pool g') = sem_len (gw_pool g) + 1" "maxSize (gw_pool g') = maxSize (gw_pool g)" by blast
  with gw g show ?case by simp
qed

lemma concat_map_concat: "concat (map concat xss) = concat (concat xss)"
  by (induction xss) simp_all

section \<open>Properties\<close>

text \<open>
  Every request that gets a reply gives its worker slot back, whatever path it takes: chat and
  messages, blocking, streaming and agent requests, rejections, backend errors and clients that leave.
\<close>

lemma replies_give_slots_back:
  "(ChatHandler G client body s = (Ret r, s') \<longrightarrow> gw_pool (fst s') = gw_pool (fst s))
   \<and> (MessagesHandler G A client header body s = (Ret r, s') \<longrightarrow> gw_pool (fst s') = gw_pool (fst s))"
  using chat_pool_balanced messages_pool_balanced by blast

definition quiet_gateway :: "('w, nat) gateway_env" where
  "quiet_gateway = \<lparr>gw_generate = mock_Generate None, gw_stream = mock_Stream None, gw_embed = None,
     gw_similar = (\<lambda>_ _. False),
     gw_redis = \<lparr>pipelined = (\<lambda>_ w. (None, w)), lrange = (\<lambda>_ _ _ w. (Inr [], w)), del = (\<lambda>_ w. (None, w)),
       setnx = (\<lambda>_ _ _ w. (Inr False, w)), exists = (\<lambda>_ w. (Inr 0, w))\<rparr>,
     gw_history = False, gw_search = None, gw_unix_now = (\<lambda>_. 0), gw_nano_now = (\<lambda>_. 0)\<rparr>"

definition fresh_state :: "nat gateway_state" where
  "fresh_state = \<lparr>gw_pool = NewWorkerPool 2, gw_cache = None, gw_ids = 0\<rparr>"

lemma replies_give_slots_back_witness:
  "\<exists>r s'. ChatHandler quiet_gateway (\<lambda>_. True) ''{}'' (fresh_state, ()) = (Ret r, s')
     \<and> gw_pool (fst s') = NewWorkerPool 2"
proof -
  have "\<exists>r. ChatHandler (quiet_gateway :: (unit, nat) gateway_env) (\<lambda>_. True) ''{}'' = gret r"
    by (auto simp: ChatHandler_def parse_chat_def unmarshal_obj_def json_parse_def json_fuel_def as_obj_def
        str_field_def list_field_def bool_field_def num_field_def int_field_def obj_field_def jmatches_def
        skip_ws_def is_ws_def numeral_eq_Suc split: sum.splits)
  then obtain r where r: "ChatHandler quiet_gateway (\<lambda>_. True) ''{}'' (fresh_state, ()) = (Ret r, (fresh_state, ()))"
    by auto
  with replies_give_slots_back [of quiet_gateway "\<lambda>_. True" "''{}''" "(fresh_state, ())" r "(fresh_state, ())"]
  show ?thesis by (auto simp: fresh_state_def)
qed


definition void_gateway :: "(unit, nat) gateway_env" where
  "void_gateway = quiet_gateway\<lparr>gw_generate := (\<lambda>req w. (Ret (Inr \<lparr>RespID = [], RespObject = [], RespModel = [], Choices = []\<rparr>), w))\<rparr>"

definition idle_agent :: "unit agent_env" where
  "idle_agent = \<lparr>ag_exec = \<lparr>run_bash = (\<lambda>c d w. ([], w)), run_python_file = (\<lambda>c d w. (Inr [], w)),
       write_path = (\<lambda>p c w. (None, w)), read_path = (\<lambda>p w. (Inl [], w))\<rparr>,
     ag_tempdir = ''/tmp'', ag_mkdir = (\<lambda>_ w. w), ag_getenv = (\<lambda>_. [])\<rparr>"






text \<open>
  A message with a tool result loses all its content: whatever text and results its blocks carry,
  the decoded message is empty, so the model never sees the output of a tool that a client ran.
\<close>

theorem tool_results_are_dropped:
  assumes "as_list as_block v = Inr blocks" and "b \<in> set blocks" and "BlockType b = ''tool_result''"
  shows "content_UnmarshalJSON v = Inr []"
proof -
  have "block_parts bs = None" if "b \<in> set bs" for bs
    using that assms(3) by (induction bs) (auto split: option.splits)
  then have "block_parts blocks = None" using assms(2) .
  moreover obtain vs where "v = JArr vs"
    using assms(1) by (cases v) (auto simp: as_list_def)
  ultimately show ?thesis
    using assms(1) by (simp add: content_UnmarshalJSON_def as_str_def)
qed

definition sample_blocks :: json where
  "sample_blocks = JArr [
     JObj [(''type'', JStr ''text''), (''text'', JStr ''the question'')],
     JObj [(''type'', JStr ''tool_result''), (''tool_use_id'', JStr ''t1''), (''content'', JStr ''42'')]]"

lemma tool_results_are_dropped_witness: "content_UnmarshalJSON sample_blocks = Inr []"
proof -
  have "as_list as_block sample_blocks = Inr [
      \<lparr>BlockType = ''text'', BlockText = ''the question'', BlockName = [], BlockInput = None\<rparr>,
      \<lparr>BlockType = ''tool_result'', BlockText = [], BlockName = [], BlockInput = None\<rparr>]"
    by code_simp
  from tool_results_are_dropped [OF this, of "\<lparr>BlockType = ''tool_result'', BlockText = [], BlockName = [], BlockInput = None\<rparr>"]
  show ?thesis by simp
qed

text \<open>
  A hit in the semantic cache answers from the last user message alone: two requests that agree on
  it get the same cached body, whatever their models, sessions, histories and other messages are, and
  neither the backend nor the session is consulted.
\<close>

theorem cached_answer_ignores_context:
  assumes "gw_embed G = Some emb_fn" and "gw_cache g = Some cache" and "sem_len (gw_pool g) < maxSize (gw_pool g)"
    and "gw_lastUserMessage (ChatMessages req) = q" and "q \<noteq> []" and "emb_fn q w = (Inr e, w1)"
    and "sem_Lookup (gw_similar G) e cache = Some data"
  shows "\<exists>r. chatComplete G req (g, w) = (Ret r, (g, w1)) \<and> ReplyStatus r = 200 \<and> ReplyBody r = TextBody data"
proof -
  have "release_slot (g\<lparr>gw_pool := (gw_pool g)\<lparr>sem_len := sem_len (gw_pool g) + 1\<rparr>\<rparr>) = g"
    by (simp add: release_slot_def Release_def)
  then show ?thesis
    using assms
    by (simp add: chatComplete_def with_slot_def Acquire_def Let_def gbind_def cache_lookup_def with_header_def)
qed

definition caching_gateway :: "(unit, nat) gateway_env" where
  "caching_gateway = quiet_gateway\<lparr>gw_embed := Some (\<lambda>s w. (Inr (length s), w)), gw_similar := (=)\<rparr>"

definition cached_state :: "nat gateway_state" where
  "cached_state = fresh_state\<lparr>gw_cache := Some \<lparr>entries = [(2, ''{}'')], cacheSize = 256\<rparr>\<rparr>"

lemma cached_answer_ignores_context_witness:
  "\<exists>r. chatComplete caching_gateway \<lparr>ChatModel = ''other'', ChatMessages = [msg ''system'' ''s'', msg ''user'' ''hi''],
       ChatStream = False, ChatTemperature = ''1'', ChatMaxTokens = 9, ChatSessionID = ''someone''\<rparr> (cached_state, ())
     = (Ret r, (cached_state, ())) \<and> ReplyStatus r = 200 \<and> ReplyBody r = TextBody ''{}''"
  by (rule cached_answer_ignores_context [where q = "''hi''" and e = 2
      and emb_fn = "\<lambda>s w. (Inr (length s), w)" and cache = "\<lparr>entries = [(2, ''{}'')], cacheSize = 256\<rparr>"])
    (simp_all add: caching_gateway_def cached_state_def fresh_state_def quiet_gateway_def NewWorkerPool_def
      gw_lastUserMessage_def sem_Lookup_def)

text \<open>
  The semantic cache is first in, first out: after any stores it holds the newest of them up to its
  capacity, in order, and a store into a cache of positive capacity never panics.
\<close>

theorem semantic_cache_fifo:
  assumes "0 < n"
  shows "\<exists>c. store_all xs \<lparr>entries = [], cacheSize = int n\<rparr> = Ret c \<and> entries c = last_n n xs"
  using store_all_last [OF assms, of "\<lparr>entries = [], cacheSize = int n\<rparr>" "[]" xs] by (auto simp: last_n_def)

lemma semantic_cache_fifo_witness:
  "\<exists>c. store_all [(1 :: nat, ''a''), (2, ''b''), (3, ''c'')] \<lparr>entries = [], cacheSize = int 2\<rparr> = Ret c
     \<and> entries c = last_n 2 [(1, ''a''), (2, ''b''), (3, ''c'')]"
  by (rule semantic_cache_fifo) simp

text \<open>
  However requests come and go, the pool never has more handlers at work than slots, counts exactly
  those at work, and a handler that leaves never blocks on its release.
\<close>

theorem pool_bounds_handlers:
  assumes "pool_reachable n (p, k)"
  shows "k \<le> n \<and> InFlight p = k \<and> MaxSize p = n \<and> (0 < k \<longrightarrow> Release p \<noteq> None)"
  using pool_invariant [OF assms] by (simp add: InFlight_def MaxSize_def Release_def)

lemma pool_bounds_handlers_witness:
  "InFlight ((NewWorkerPool 3)\<lparr>sem_len := 1\<rparr>) = 1"
proof -
  have "Acquire (NewWorkerPool 3) = (True, (NewWorkerPool 3)\<lparr>sem_len := 1\<rparr>)"
    by (simp add: Acquire_def NewWorkerPool_def)
  from pool_next [OF pool_new enter [OF this, of 0]]
  have "pool_reachable 3 ((NewWorkerPool 3)\<lparr>sem_len := 1\<rparr>, 1)" by simp
  from pool_bounds_handlers [OF this] show ?thesis by simp
qed

end
