(* ===== verification/Security.thy ===== *)
theory Security
  imports Gateway_Core
begin

text \<open>
  Who may call the gateway, and how often: \<open>internal/security/auth.go\<close>, \<open>jwt.go\<close> and \<open>ratelimit.go\<close>.

  A middleware is a decision: a reply that ends the request, or the next handler with what it stored
  for it. A header that is absent is the empty string. The JWT library is a parameter. The rate
  limiter's Lua script runs on a store of counters with expiry times, one atomic step per request;
  times are seconds.
\<close>

datatype 'a decision = Reject reply | Next 'a

definition auth_error :: "int \<Rightarrow> string \<Rightarrow> string \<Rightarrow> reply" where
  "auth_error status m code = reply_json status (JObj [(''error'', JObj (
     (if code = [] then [] else [(''code'', JStr code)])
     @ [(''message'', JStr m), (''type'', JStr ''auth_error'')]))])"

section \<open>API keys\<close>

definition extractToken :: "string \<Rightarrow> string \<Rightarrow> string" where
  "extractToken x_api_key authorization =
     (if x_api_key \<noteq> [] then x_api_key
      else if authorization = [] then []
      else case split_n2 (CHR '' '') authorization of
             [scheme, token] \<Rightarrow> if to_lower scheme = ''bearer'' then token else []
           | _ \<Rightarrow> [])"

definition NewAuthMiddleware :: "string \<Rightarrow> string \<Rightarrow> string \<Rightarrow> string decision" where
  "NewAuthMiddleware apiKey x_api_key authorization =
     (let token = extractToken x_api_key authorization
      in if token = [] then
           Reject (auth_error 401 ''missing API key (provide Authorization: Bearer <key> or x-api-key: <key>)'' ''missing_auth'')
         else if token \<noteq> apiKey then Reject (auth_error 403 ''invalid API key'' ''invalid_api_key'')
         else Next token)"

section \<open>JSON web tokens\<close>

record caw_claims =
  TenantID :: string
  Domains :: "string list"

text \<open>
  \<open>parse keyfunc token\<close> stands for \<open>gojwt.ParseWithClaims\<close>: it asks \<open>keyfunc\<close> for the key, telling it
  whether the token's method is HMAC, and returns the claims and the token's validity.
\<close>

type_synonym jwt_library = "(bool \<Rightarrow> string result) \<Rightarrow> string \<Rightarrow> (caw_claims \<times> bool) result"

definition ParseJWT :: "jwt_library \<Rightarrow> string \<Rightarrow> string \<Rightarrow> caw_claims result" where
  "ParseJWT parse tokenStr secret =
     (case parse (\<lambda>hmac. if hmac then Inr secret else Inl ''unexpected signing method'') tokenStr of
        Inl e \<Rightarrow> Inl e
      | Inr (claims, valid) \<Rightarrow>
          if \<not> valid then Inl ''invalid token''
          else if Domains claims = [] then Inl ''missing domains claim''
          else Inr claims)"

datatype jwt_next = ByKey string | ByToken string "string list"

definition NewJWTMiddleware ::
  "jwt_library \<Rightarrow> string \<Rightarrow> string \<Rightarrow> string \<Rightarrow> string \<Rightarrow> string \<Rightarrow> jwt_next decision" where
  "NewJWTMiddleware parse secret apiKey x_api_key authorization x_domain =
     (if secret = [] then
        (case NewAuthMiddleware apiKey x_api_key authorization of
           Reject r \<Rightarrow> Reject r | Next t \<Rightarrow> Next (ByKey t))
      else if authorization = [] then
        Reject (auth_error 401 ''missing Authorization header'' ''missing_auth'')
      else case split_n2 (CHR '' '') authorization of
          [scheme, token] \<Rightarrow>
            if to_lower scheme \<noteq> ''bearer'' then Reject (auth_error 401 ''invalid Authorization format'' [])
            else (case ParseJWT parse token secret of
                Inl e \<Rightarrow> Reject (auth_error 401 e ''invalid_token'')
              | Inr claims \<Rightarrow>
                  if x_domain \<noteq> [] \<and> x_domain \<notin> set (Domains claims)
                  then Reject (auth_error 403 ''domain not permitted for this token'' ''domain_forbidden'')
                  else Next (ByToken (TenantID claims) (Domains claims)))
        | _ \<Rightarrow> Reject (auth_error 401 ''invalid Authorization format'' []))"

section \<open>The rate limiter\<close>

definition RateLimitPerMin :: nat where
  "RateLimitPerMin = 60"

definition WindowSeconds :: int where
  "WindowSeconds = 60"

text \<open>A counter and the time it expires at, if it does.\<close>

type_synonym counters = "string \<Rightarrow> (nat \<times> int option) option"

definition live :: "int \<Rightarrow> counters \<Rightarrow> string \<Rightarrow> (nat \<times> int option) option" where
  "live now R key =
     (case R key of
        Some (n, Some t) \<Rightarrow> if t \<le> now then None else Some (n, Some t)
      | r \<Rightarrow> r)"

text \<open>\<open>INCR\<close> keeps the expiry of a key that exists; \<open>EXPIRE\<close> sets it.\<close>

definition redis_incr :: "int \<Rightarrow> string \<Rightarrow> counters \<Rightarrow> nat \<times> counters" where
  "redis_incr now key R =
     (case live now R key of
        None \<Rightarrow> (1, R(key \<mapsto> (1, None)))
      | Some (n, t) \<Rightarrow> (n + 1, R(key \<mapsto> (n + 1, t))))"

definition redis_expire :: "int \<Rightarrow> string \<Rightarrow> int \<Rightarrow> counters \<Rightarrow> counters" where
  "redis_expire now key ttl R =
     (case live now R key of None \<Rightarrow> R | Some (n, t) \<Rightarrow> R(key \<mapsto> (n, Some (now + ttl))))"

definition rateLimitScript :: "string \<Rightarrow> nat \<Rightarrow> int \<Rightarrow> int \<Rightarrow> counters \<Rightarrow> nat \<times> counters" where
  "rateLimitScript key limit window now R =
     (let (current, R1) = redis_incr now key R;
          R2 = (if current = 1 then redis_expire now key window R1 else R1)
      in (if limit < current then 0 else 1, R2))"

definition rate_key :: "string \<Rightarrow> int \<Rightarrow> string" where
  "rate_key apiKey windowTs = ''caw:rate:'' @ apiKey @ '':'' @ dec_of_int windowTs"

definition rate_exceeded :: reply where
  "rate_exceeded = reply_json 429 (JObj [(''error'', JObj [(''message'', JStr ''rate limit exceeded''),
     (''type'', JStr ''rate_limit_error'')])])"

text \<open>
  \<open>up\<close> says whether Redis answers within its deadline; a script that did not run leaves the store.
\<close>

definition rate_limit :: "bool \<Rightarrow> string \<Rightarrow> int \<Rightarrow> counters \<Rightarrow> unit decision \<times> counters" where
  "rate_limit up apiKey now R =
     (if apiKey = [] then (Next (), R)
      else if \<not> up then (Reject rate_exceeded, R)
      else let (res, R1) = rateLimitScript (rate_key apiKey (now div WindowSeconds)) RateLimitPerMin WindowSeconds now R
           in (if res = 0 then Reject rate_exceeded else Next (), R1))"

section \<open>Lemmas\<close>

lemma split_n2_space: "c \<notin> set a \<Longrightarrow> split_n2 c (a @ c # b) = [a, b]"
proof -
  assume c: "c \<notin> set a"
  have "index_of (a @ c # b) [c] = Some (length a)"
    using c by (induction a) auto
  then show ?thesis by (simp add: split_n2_def)
qed

lemma takeWhile_until: "\<forall>x \<in> set f. x \<noteq> c \<Longrightarrow> takeWhile (\<lambda>x. x \<noteq> c) (f @ c # z) = f"
  by (induction f) simp_all

lemma colon_split:
  assumes e: "x @ CHR '':'' # d = y @ CHR '':'' # e" and d: "CHR '':'' \<notin> set d" and n: "CHR '':'' \<notin> set e"
  shows "x = y \<and> d = e"
proof -
  have t: "takeWhile (\<lambda>c. c \<noteq> k) (rev (z @ k # f)) = rev f" if k: "k \<notin> set f" for k :: char and z f
  proof -
    from k have "\<forall>x \<in> set (rev f). x \<noteq> k" by auto
    from takeWhile_until [OF this, of "rev z"] show ?thesis by simp
  qed
  have "rev d = rev e" using t [OF d, of x] t [OF n, of y] by (simp only: e)
  with e show ?thesis by simp
qed

lemma dec_of_int_no_colon: "CHR '':'' \<notin> set (dec_of_int i)"
  by (auto simp: dec_of_int_def is_digit_def dest!: dec_of_nat_digits)

lemma rate_key_inject:
  assumes "rate_key a v = rate_key b w" and "0 \<le> v" and "0 \<le> w"
  shows "a = b \<and> v = w"
proof -
  have "a @ CHR '':'' # dec_of_int v = b @ CHR '':'' # dec_of_int w"
    using assms(1) by (simp add: rate_key_def)
  from colon_split [OF this dec_of_int_no_colon dec_of_int_no_colon] assms(2,3)
  show ?thesis by simp
qed

text \<open>Requests one after the other: who is let through.\<close>

fun rate_run :: "(string \<times> int) list \<Rightarrow> counters \<Rightarrow> bool list" where
  "rate_run [] R = []"
| "rate_run ((a, now) # qs) R =
     (let (d, R1) = rate_limit True a now R in (d = Next ()) # rate_run qs R1)"

text \<open>The admitted requests of one key in one window.\<close>

definition admitted_in :: "string \<Rightarrow> int \<Rightarrow> (string \<times> int) list \<Rightarrow> counters \<Rightarrow> nat" where
  "admitted_in a k qs R =
     length (filter (\<lambda>((b, now), ok). b = a \<and> now div WindowSeconds = k \<and> ok) (zip qs (rate_run qs R)))"

text \<open>A counter of a window is kept until the window is over.\<close>

definition window_ok :: "string \<Rightarrow> int \<Rightarrow> counters \<Rightarrow> nat \<Rightarrow> bool" where
  "window_ok a k R n \<longleftrightarrow>
     (if n = 0 then R (rate_key a k) = None
      else \<exists>t. R (rate_key a k) = Some (n, Some t) \<and> (k + 1) * WindowSeconds \<le> t)"

lemma window_ok_step_other:
  assumes "window_ok a k R n" and "0 \<le> k" and "0 \<le> now" and "b \<noteq> a \<or> now div WindowSeconds \<noteq> k"
  shows "window_ok a k (snd (rate_limit True b now R)) n"
proof -
  have "rate_key b (now div WindowSeconds) \<noteq> rate_key a k"
    using rate_key_inject [of b "now div WindowSeconds" a k] assms(2-4)
    by (auto simp: WindowSeconds_def pos_imp_zdiv_nonneg_iff)
  then show ?thesis
    using assms(1)
    by (auto simp: rate_limit_def rateLimitScript_def redis_incr_def redis_expire_def window_ok_def Let_def
        split: option.splits prod.splits)
qed

lemma window_end: "now div WindowSeconds = k \<Longrightarrow> now < (k + 1) * WindowSeconds \<and> k * WindowSeconds \<le> now"
  by (auto simp: WindowSeconds_def)

lemma window_ok_step_same:
  assumes "window_ok a k R n" and "a \<noteq> []" and "now div WindowSeconds = k"
  shows "window_ok a k (snd (rate_limit True a now R)) (n + 1)
    \<and> (fst (rate_limit True a now R) = Next () \<longleftrightarrow> n < RateLimitPerMin)"
proof (cases "n = 0")
  case True
  with assms(1) have "live now R (rate_key a k) = None"
    by (simp add: window_ok_def live_def)
  with True assms(2,3) window_end [OF assms(3)] show ?thesis
    by (simp add: rate_limit_def rateLimitScript_def redis_incr_def redis_expire_def window_ok_def Let_def
        live_def RateLimitPerMin_def WindowSeconds_def)
next
  case False
  with assms(1) obtain t where t: "R (rate_key a k) = Some (n, Some t)" "(k + 1) * WindowSeconds \<le> t"
    by (auto simp: window_ok_def)
  with window_end [OF assms(3)] have "live now R (rate_key a k) = Some (n, Some t)"
    by (simp add: live_def)
  with False t assms(2,3) show ?thesis
    by (simp add: rate_limit_def rateLimitScript_def redis_incr_def window_ok_def Let_def)
qed

lemma admitted_count:
  assumes "a \<noteq> []" and "0 \<le> k"
  shows "window_ok a k R n \<Longrightarrow> \<forall>(b, now) \<in> set qs. 0 \<le> now \<Longrightarrow>
    admitted_in a k qs R = min (RateLimitPerMin - n)
      (length (filter (\<lambda>(b, now). b = a \<and> now div WindowSeconds = k) qs))"
proof (induction qs arbitrary: R n)
  case Nil
  then show ?case by (simp add: admitted_in_def)
next
  case (Cons q qs)
  obtain b now where q: "q = (b, now)" by (cases q)
  obtain d R1 where d: "rate_limit True b now R = (d, R1)" by (cases "rate_limit True b now R")
  show ?case
  proof (cases "b = a \<and> now div WindowSeconds = k")
    case True
    with window_ok_step_same [OF Cons.prems(1) assms(1), of now] d
    have "window_ok a k R1 (n + 1)" and "d = Next () \<longleftrightarrow> n < RateLimitPerMin" by simp_all
    with Cons.IH [of R1 "n + 1"] Cons.prems(2) True q d show ?thesis
      by (auto simp: admitted_in_def min_def)
  next
    case False
    with window_ok_step_other [OF Cons.prems(1) assms(2), of now b] Cons.prems(2) d q
    have "window_ok a k R1 n" by auto
    with Cons.IH [of R1 n] Cons.prems(2) False q d show ?thesis
      by (auto simp: admitted_in_def)
  qed
qed

section \<open>Properties\<close>

text \<open>
  C15. The rate limiter is exact within a window: whatever other keys and windows do in between, of the
  requests of one key in one window the first 60 are let through and no other, and the counter does not
  expire before its window ends.
\<close>

theorem rate_limit_exact:
  assumes "a \<noteq> []" and "0 \<le> k" and "R (rate_key a k) = None" and "\<forall>(b, now) \<in> set qs. 0 \<le> now"
  shows "admitted_in a k qs R = min 60 (length (filter (\<lambda>(b, now). b = a \<and> now div WindowSeconds = k) qs))"
  using admitted_count [OF assms(1,2), of R 0 qs] assms(3,4) by (simp add: window_ok_def RateLimitPerMin_def)

lemma rate_limit_exact_witness:
  "admitted_in ''key'' 1 (replicate 70 (''key'', 65)) (\<lambda>_. None) = 60"
  by (subst rate_limit_exact) (auto simp: WindowSeconds_def)

text \<open>
  A request passes the API-key check exactly when it carries the configured key, in either header
  and with any spelling of the bearer scheme; a gateway without a configured key lets nobody through.
\<close>

theorem auth_exact:
  "(NewAuthMiddleware apiKey x_api_key authorization = Next t \<longleftrightarrow>
     t = apiKey \<and> apiKey \<noteq> []
     \<and> (x_api_key = apiKey
        \<or> x_api_key = [] \<and> (\<exists>scheme. to_lower scheme = ''bearer'' \<and> authorization = scheme @ CHR '' '' # apiKey)))"
proof -
  have ex: "extractToken [] authorization = apiKey \<longleftrightarrow>
      (\<exists>scheme. to_lower scheme = ''bearer'' \<and> authorization = scheme @ CHR '' '' # apiKey)" if "apiKey \<noteq> []"
  proof
    assume e: "extractToken [] authorization = apiKey"
    with that have "authorization \<noteq> []" by (auto simp: extractToken_def)
    with e that obtain i where i: "index_of authorization '' '' = Some i"
      by (auto simp: extractToken_def split_n2_def split: option.splits)
    with e that \<open>authorization \<noteq> []\<close> have "to_lower (take i authorization) = ''bearer''" "drop (Suc i) authorization = apiKey"
      by (auto simp: extractToken_def split_n2_def split: if_splits)
    moreover have "authorization = take i authorization @ CHR '' '' # drop (Suc i) authorization"
      using index_of_SomeD [OF i] by simp
    ultimately show "\<exists>scheme. to_lower scheme = ''bearer'' \<and> authorization = scheme @ CHR '' '' # apiKey" by metis
  next
    assume "\<exists>scheme. to_lower scheme = ''bearer'' \<and> authorization = scheme @ CHR '' '' # apiKey"
    then obtain scheme where s: "to_lower scheme = ''bearer''" "authorization = scheme @ CHR '' '' # apiKey" by blast
    have "CHR '' '' \<notin> set scheme"
    proof
      assume "CHR '' '' \<in> set scheme"
      then have "lower_char CHR '' '' \<in> set (to_lower scheme)" by (simp add: to_lower_def)
      moreover have "lower_char CHR '' '' = CHR '' ''" by code_simp
      ultimately show False unfolding s(1) by simp
    qed
    with s show "extractToken [] authorization = apiKey"
      by (simp add: extractToken_def split_n2_space)
  qed
  have x: "extractToken x_api_key authorization = x_api_key" if "x_api_key \<noteq> []"
    using that by (simp add: extractToken_def)
  show ?thesis
  proof (cases "x_api_key = []")
    case True
    then show ?thesis using ex by (auto simp: NewAuthMiddleware_def Let_def)
  next
    case False
    with x show ?thesis by (auto simp: NewAuthMiddleware_def Let_def)
  qed
qed

lemma jwt_next_cases:
  assumes "NewJWTMiddleware parse secret apiKey x_api_key authorization x_domain = Next (ByToken tenant domains)"
  obtains token where "ParseJWT parse token secret = Inr \<lparr>TenantID = tenant, Domains = domains\<rparr>"
    and "secret \<noteq> []" and "x_domain \<noteq> [] \<longrightarrow> x_domain \<in> set domains"
proof -
  have key: "secret \<noteq> []"
    using assms by (auto simp: NewJWTMiddleware_def split: if_splits decision.splits)
  with assms obtain token claims where t: "ParseJWT parse token secret = Inr claims"
    and c: "TenantID claims = tenant" "Domains claims = domains" "x_domain \<noteq> [] \<longrightarrow> x_domain \<in> set (Domains claims)"
    by (auto simp: NewJWTMiddleware_def split: if_splits decision.splits list.splits sum.splits)
  have "claims = \<lparr>TenantID = tenant, Domains = domains\<rparr>" using c(1,2) by (cases claims) simp
  with t c key show ?thesis by (intro that [of token]) simp_all
qed

text \<open>
  A request authenticated by a token runs only with claims that the library validated under the
  configured secret with an HMAC method, with at least one domain, and for a domain the token names when
  it asks for one.
\<close>

theorem jwt_next_is_authorised:
  assumes "NewJWTMiddleware parse secret apiKey x_api_key authorization x_domain = Next (ByToken tenant domains)"
  shows "secret \<noteq> [] \<and> domains \<noteq> [] \<and> (x_domain \<noteq> [] \<longrightarrow> x_domain \<in> set domains)
    \<and> (\<exists>token. parse (\<lambda>hmac. if hmac then Inr secret else Inl ''unexpected signing method'') token
          = Inr (\<lparr>TenantID = tenant, Domains = domains\<rparr>, True))"
proof -
  from assms obtain token where p: "ParseJWT parse token secret = Inr \<lparr>TenantID = tenant, Domains = domains\<rparr>"
    and d: "secret \<noteq> []" "x_domain \<noteq> [] \<longrightarrow> x_domain \<in> set domains"
    by (rule jwt_next_cases)
  from p have "domains \<noteq> []
      \<and> parse (\<lambda>hmac. if hmac then Inr secret else Inl ''unexpected signing method'') token
        = Inr (\<lparr>TenantID = tenant, Domains = domains\<rparr>, True)"
    by (auto simp: ParseJWT_def split: sum.splits prod.splits if_splits)
  with d show ?thesis by blast
qed

lemma jwt_next_is_authorised_witness:
  "''hr'' \<in> set [''hr'', ''it'']"
proof -
  define parse :: jwt_library where "parse = (\<lambda>keyfunc t. Inr (\<lparr>TenantID = ''acme'', Domains = [''hr'', ''it'']\<rparr>, True))"
  have "NewJWTMiddleware parse ''secret'' [] [] ''Bearer x.y.z'' ''hr'' = Next (ByToken ''acme'' [''hr'', ''it''])"
    unfolding parse_def by code_simp
  from jwt_next_is_authorised [OF this] show ?thesis by simp
qed

end
