(* ===== verification/LRU_Spec.thy ===== *)
theory LRU_Spec
  imports Prelude
begin

text \<open>
  What a bounded cache with least-recently-used eviction promises, as a list of entries, the most
  recently used first; and the interface of an implementation as a locale. An entry whose value is no
  longer fresh is a miss and is dropped by the lookup. The consequences clients rely on are proved once
  inside the locale: the implementation answers like the list, holds at most its capacity, and keeps an
  entry as long as fewer other keys than its capacity are used.
\<close>

definition lru_del :: "'k \<Rightarrow> ('k \<times> 'v) list \<Rightarrow> ('k \<times> 'v) list" where
  "lru_del k xs = filter (\<lambda>p. fst p \<noteq> k) xs"

definition lru_get :: "('v \<Rightarrow> bool) \<Rightarrow> 'k \<Rightarrow> ('k \<times> 'v) list \<Rightarrow> 'v option \<times> ('k \<times> 'v) list" where
  "lru_get f k xs =
     (case map_of xs k of None \<Rightarrow> (None, xs)
      | Some v \<Rightarrow> if f v then (Some v, (k, v) # lru_del k xs) else (None, lru_del k xs))"

definition lru_put :: "nat \<Rightarrow> 'k \<Rightarrow> 'v \<Rightarrow> ('k \<times> 'v) list \<Rightarrow> ('k \<times> 'v) list" where
  "lru_put cap k v xs =
     (if k \<in> fst ` set xs then (k, v) # lru_del k xs
      else (k, v) # (if length xs < cap then xs else butlast xs))"

text \<open>
  Operations carry the time they run at. A value is stored with the stamp of its insertion.
\<close>

datatype ('t, 'k, 'v) lru_op = Lookup 't 'k | Insert 't 'k 'v

primrec op_key :: "('t, 'k, 'v) lru_op \<Rightarrow> 'k" where
  "op_key (Lookup t k) = k"
| "op_key (Insert t k v) = k"

record ('t, 'v, 'e) stamping =
  stamp :: "'t \<Rightarrow> 'v \<Rightarrow> 'e"
  content :: "'e \<Rightarrow> 'v"
  fresh :: "'t \<Rightarrow> 'e \<Rightarrow> bool"

fun lru_run ::
  "nat \<Rightarrow> ('t, 'v, 'e) stamping \<Rightarrow> ('t, 'k, 'v) lru_op list \<Rightarrow> ('k \<times> 'e) list \<Rightarrow> 'v option list \<times> ('k \<times> 'e) list" where
  "lru_run cap S [] xs = ([], xs)"
| "lru_run cap S (Lookup t k # ops) xs =
     (let (r, xs1) = lru_get (fresh S t) k xs; (rs, xs2) = lru_run cap S ops xs1 in (map_option (content S) r # rs, xs2))"
| "lru_run cap S (Insert t k v # ops) xs = lru_run cap S ops (lru_put cap k (stamp S t v) xs)"

lemma lru_run_Lookup [simp]:
  "snd (lru_run cap S (Lookup t k # ops) xs) = snd (lru_run cap S ops (snd (lru_get (fresh S t) k xs)))"
  by (simp split: prod.splits)

lemma lru_run_append:
  "snd (lru_run cap S (ops @ ops') xs) = snd (lru_run cap S ops' (snd (lru_run cap S ops xs)))"
proof (induction ops arbitrary: xs)
  case Nil
  then show ?case by simp
next
  case (Cons q ops)
  then show ?case by (cases q) (simp_all del: lru_run.simps(2))
qed

section \<open>The list\<close>

definition lru_ok :: "nat \<Rightarrow> ('k \<times> 'v) list \<Rightarrow> bool" where
  "lru_ok cap xs \<longleftrightarrow> distinct (map fst xs) \<and> length xs \<le> cap"

lemma lru_ok_Nil [simp]: "lru_ok cap []"
  by (simp add: lru_ok_def)

lemma lru_del_keys [simp]: "fst ` set (lru_del k xs) = fst ` set xs - {k}"
  by (auto simp: lru_del_def)

lemma lru_del_notin: "k \<notin> fst ` set xs \<Longrightarrow> lru_del k xs = xs"
  unfolding lru_del_def by (rule filter_neq_id)

lemma lru_del_Cons [simp]: "lru_del k (p # xs) = (if fst p = k then lru_del k xs else p # lru_del k xs)"
  by (simp add: lru_del_def)

lemma lru_del_append [simp]: "lru_del k (xs @ ys) = lru_del k xs @ lru_del k ys"
  by (simp add: lru_del_def)

lemma map_of_lru_del [simp]: "map_of (lru_del k xs) k' = (if k' = k then None else map_of xs k')"
  by (simp add: lru_del_def)

lemma lru_ok_del: "lru_ok cap xs \<Longrightarrow> lru_ok cap (lru_del k xs)"
  unfolding lru_ok_def lru_del_def
  by (auto simp: distinct_map_filter intro: order_trans [OF length_filter_le])

lemma lru_ok_front:
  assumes "lru_ok cap xs" and "k \<in> fst ` set xs"
  shows "lru_ok cap ((k, v) # lru_del k xs)"
proof -
  have "Suc (length (lru_del k xs)) = length xs"
    using assms length_filter_neq [of xs k] unfolding lru_ok_def lru_del_def by blast
  moreover have "k \<notin> fst ` set (lru_del k xs)" by simp
  ultimately show ?thesis
    using assms(1) lru_ok_del [OF assms(1), of k] by (simp add: lru_ok_def)
qed

lemma map_of_SomeD_key: "map_of xs k = Some v \<Longrightarrow> k \<in> fst ` set xs"
  using map_of_SomeD by force

lemma lru_ok_get: "lru_ok cap xs \<Longrightarrow> lru_ok cap (snd (lru_get f k xs))"
  by (auto simp: lru_get_def lru_ok_del lru_ok_front map_of_SomeD_key split: option.splits)

lemma butlast_keys: "k \<in> fst ` set (butlast xs) \<Longrightarrow> k \<in> fst ` set xs"
  by (auto dest: in_set_butlastD)

lemma lru_ok_put: "lru_ok cap xs \<Longrightarrow> 0 < cap \<Longrightarrow> lru_ok cap (lru_put cap k v xs)"
proof (cases "k \<in> fst ` set xs")
  case True
  then show "lru_ok cap xs \<Longrightarrow> 0 < cap \<Longrightarrow> ?thesis" by (simp add: lru_put_def lru_ok_front)
next
  case False
  then have "k \<notin> fst ` set (butlast xs)" by (auto dest: in_set_butlastD)
  with False show "lru_ok cap xs \<Longrightarrow> 0 < cap \<Longrightarrow> ?thesis"
    by (auto simp: lru_put_def lru_ok_def map_butlast distinct_butlast)
qed

lemma lru_ok_run: "lru_ok cap xs \<Longrightarrow> 0 < cap \<Longrightarrow> lru_ok cap (snd (lru_run cap S ops xs))"
proof (induction ops arbitrary: xs)
  case Nil
  then show ?case by simp
next
  case (Cons q ops)
  show ?case
  proof (cases q)
    case (Lookup t k)
    with Cons.IH [OF lru_ok_get [OF Cons.prems(1), of "fresh S t" k] Cons.prems(2)] show ?thesis
      by (auto split: prod.splits)
  next
    case (Insert t k v)
    with Cons.IH [OF lru_ok_put [OF Cons.prems] Cons.prems(2)] show ?thesis by simp
  qed
qed

section \<open>How long an entry stays\<close>

text \<open>The entry of \<open>k\<close> stands behind entries whose keys are in \<open>K\<close> only.\<close>

definition kept_behind :: "'k \<Rightarrow> 'v \<Rightarrow> 'k set \<Rightarrow> ('k \<times> 'v) list \<Rightarrow> bool" where
  "kept_behind k v K xs \<longleftrightarrow> (\<exists>as bs. xs = as @ (k, v) # bs \<and> fst ` set as \<subseteq> K)"

lemma kept_del:
  assumes "kept_behind k v K xs" and "k' \<noteq> k"
  shows "kept_behind k v (insert k' K) (lru_del k' xs)"
proof -
  from assms(1) obtain as bs where "xs = as @ (k, v) # bs" and "fst ` set as \<subseteq> K"
    unfolding kept_behind_def by blast
  then show ?thesis
    using assms(2) unfolding kept_behind_def
    by (intro exI [of _ "lru_del k' as"] exI [of _ "lru_del k' bs"]) auto
qed

lemma kept_front:
  assumes "kept_behind k v K xs" and "k' \<noteq> k"
  shows "kept_behind k v (insert k' K) ((k', v') # lru_del k' xs)"
proof -
  from kept_del [OF assms] obtain as bs where "lru_del k' xs = as @ (k, v) # bs" and "fst ` set as \<subseteq> insert k' K"
    unfolding kept_behind_def by blast
  then show ?thesis
    unfolding kept_behind_def by (intro exI [of _ "(k', v') # as"] exI [of _ bs]) auto
qed

lemma kept_get:
  assumes "kept_behind k v K xs" and "k' \<noteq> k"
  shows "kept_behind k v (insert k' K) (snd (lru_get f k' xs))"
proof (cases "map_of xs k'")
  case None
  with assms show ?thesis unfolding lru_get_def kept_behind_def by auto
next
  case (Some v')
  with kept_del [OF assms] kept_front [OF assms, of v'] show ?thesis by (simp add: lru_get_def)
qed

lemma kept_put:
  assumes "kept_behind k v K xs" and "k' \<noteq> k" and "lru_ok cap xs" and "finite K" and "card (insert k' K) < cap"
  shows "kept_behind k v (insert k' K) (lru_put cap k' v' xs)"
proof (cases "k' \<in> fst ` set xs")
  case True
  with kept_front [OF assms(1,2)] show ?thesis by (simp add: lru_put_def)
next
  case False
  from assms(1) obtain as bs where xs: "xs = as @ (k, v) # bs" and K: "fst ` set as \<subseteq> K"
    unfolding kept_behind_def by blast
  have "length as = card (fst ` set as)"
    using assms(3) xs distinct_card [of "map fst as"] by (simp add: lru_ok_def)
  also have "\<dots> < cap - 1"
  proof -
    have "fst ` set as \<subseteq> insert k' K - {k'}" using K False xs by auto
    then have "card (fst ` set as) \<le> card (insert k' K - {k'})" using assms(4) by (intro card_mono) auto
    also have "\<dots> < card (insert k' K)" using assms(4) by (intro psubset_card_mono) auto
    finally show ?thesis using assms(5) by linarith
  qed
  finally have "length as < cap - 1" .
  then have "\<not> length xs < cap \<Longrightarrow> bs \<noteq> []" using xs by auto
  then have "(if length xs < cap then xs else butlast xs) = as @ (k, v) # (if length xs < cap then bs else butlast bs)"
    by (auto simp: xs butlast_append)
  then show ?thesis
    using False K unfolding lru_put_def kept_behind_def
    by (intro exI [of _ "(k', v') # as"] exI [of _ "if length xs < cap then bs else butlast bs"]) auto
qed

lemma kept_run:
  assumes "0 < cap"
  shows "kept_behind k v K xs \<Longrightarrow> lru_ok cap xs \<Longrightarrow> finite K \<Longrightarrow> k \<notin> op_key ` set ops \<Longrightarrow>
    card (K \<union> op_key ` set ops) < cap \<Longrightarrow>
    kept_behind k v (K \<union> op_key ` set ops) (snd (lru_run cap S ops xs))"
proof (induction ops arbitrary: K xs)
  case Nil
  then show ?case by simp
next
  case (Cons q ops)
  let ?k = "op_key q"
  have c: "card (insert ?k K \<union> op_key ` set ops) < cap" and e: "insert ?k K \<union> op_key ` set ops = K \<union> op_key ` set (q # ops)"
    using Cons.prems(5) by simp_all
  have "card (insert ?k K) \<le> card (insert ?k K \<union> op_key ` set ops)"
    using Cons.prems(3) by (intro card_mono) auto
  with c have ck: "card (insert ?k K) < cap" by simp
  have ne: "?k \<noteq> k" and nin: "k \<notin> op_key ` set ops" using Cons.prems(4) by auto
  obtain xs1 where step: "snd (lru_run cap S (q # ops) xs) = snd (lru_run cap S ops xs1)"
    and b: "kept_behind k v (insert ?k K) xs1" and ok: "lru_ok cap xs1"
  proof (cases q)
    case (Lookup t k')
    then show ?thesis
      using that [of "snd (lru_get (fresh S t) k' xs)"] kept_get [OF Cons.prems(1), of k'] ne lru_ok_get [OF Cons.prems(2)]
      by (simp split: prod.splits)
  next
    case (Insert t k' v')
    then show ?thesis
      using that [of "lru_put cap k' (stamp S t v') xs"] kept_put [OF Cons.prems(1) _ Cons.prems(2,3)] ne ck
        lru_ok_put [OF Cons.prems(2) assms]
      by simp
  qed
  from Cons.IH [OF b ok _ nin c] Cons.prems(3) show ?case unfolding step e by simp
qed

lemma kept_lookup:
  assumes "kept_behind k v K xs" and "lru_ok cap xs" and "f v"
  shows "fst (lru_get f k xs) = Some v"
proof -
  from assms(1,2) have "map_of xs k = Some v"
    unfolding kept_behind_def lru_ok_def by auto
  then show ?thesis using assms(3) by (simp add: lru_get_def)
qed

lemma put_kept: "kept_behind k v {} (lru_put cap k v xs)"
  unfolding kept_behind_def lru_put_def by (auto intro!: exI [of _ "[]"])

lemma lru_keeps:
  assumes "0 < cap" and "lru_ok cap xs" and "k \<notin> op_key ` set ops" and "card (op_key ` set ops) < cap" and "f v"
  shows "fst (lru_get f k (snd (lru_run cap S ops (lru_put cap k v xs)))) = Some v"
proof (rule kept_lookup)
  show "kept_behind k v (op_key ` set ops) (snd (lru_run cap S ops (lru_put cap k v xs)))"
    using kept_run [where S = S and K = "{}", OF assms(1) put_kept [of k v cap xs] lru_ok_put [OF assms(2,1)] _ assms(3)] assms(4)
    by simp
  show "lru_ok cap (snd (lru_run cap S ops (lru_put cap k v xs)))"
    by (intro lru_ok_run lru_ok_put assms(1,2))
qed (rule assms(5))

section \<open>The interface\<close>

locale lru =
  fixes get :: "'t \<Rightarrow> 'k \<Rightarrow> 's \<Rightarrow> ('v option \<times> 's) go"
    and put :: "'t \<Rightarrow> 'k \<Rightarrow> 'v \<Rightarrow> 's \<Rightarrow> 's go"
    and rel :: "'s \<Rightarrow> ('k \<times> 'e) list \<Rightarrow> bool"
    and cap :: nat
    and S :: "('t, 'v, 'e) stamping"
  assumes rel_ok: "rel s xs \<Longrightarrow> lru_ok cap xs"
    and cap_pos: "0 < cap"
    and content_stamp: "content S (stamp S t v) = v"
    and get_refines: "rel s xs \<Longrightarrow> \<exists>s'. get t k s = Ret (map_option (content S) (fst (lru_get (fresh S t) k xs)), s')
      \<and> rel s' (snd (lru_get (fresh S t) k xs))"
    and put_refines: "rel s xs \<Longrightarrow> \<exists>s'. put t k v s = Ret s' \<and> rel s' (lru_put cap k (stamp S t v) xs)"
begin

fun run :: "('t, 'k, 'v) lru_op list \<Rightarrow> 's \<Rightarrow> ('v option list \<times> 's) go" where
  "run [] s = Ret ([], s)"
| "run (Lookup t k # ops) s =
     (case get t k s of Panic m \<Rightarrow> Panic m
      | Ret (r, s1) \<Rightarrow> (case run ops s1 of Panic m \<Rightarrow> Panic m | Ret (rs, s2) \<Rightarrow> Ret (r # rs, s2)))"
| "run (Insert t k v # ops) s = (case put t k v s of Panic m \<Rightarrow> Panic m | Ret s1 \<Rightarrow> run ops s1)"

lemma run_refines:
  "rel s xs \<Longrightarrow> \<exists>s'. run ops s = Ret (fst (lru_run cap S ops xs), s') \<and> rel s' (snd (lru_run cap S ops xs))"
proof (induction ops arbitrary: s xs)
  case Nil
  then show ?case by simp
next
  case (Cons q ops)
  show ?case
  proof (cases q)
    case (Lookup t k)
    obtain s1 where s1: "get t k s = Ret (map_option (content S) (fst (lru_get (fresh S t) k xs)), s1)"
      "rel s1 (snd (lru_get (fresh S t) k xs))"
      using get_refines [OF Cons.prems] by blast
    from Cons.IH [OF s1(2)] show ?thesis using s1(1) Lookup by (auto split: prod.splits)
  next
    case (Insert t k v)
    obtain s1 where s1: "put t k v s = Ret s1" "rel s1 (lru_put cap k (stamp S t v) xs)"
      using put_refines [OF Cons.prems] by blast
    from Cons.IH [OF s1(2)] show ?thesis using s1(1) Insert by simp
  qed
qed

text \<open>An inserted value is found while it is fresh, as long as fewer other keys than the capacity are used.\<close>

lemma keeps_entry:
  assumes "rel s xs" and "k \<notin> op_key ` set ops" and "card (op_key ` set ops) < cap" and "fresh S t' (stamp S t v)"
  shows "\<exists>s1 rs s2 s3. put t k v s = Ret s1 \<and> run ops s1 = Ret (rs, s2) \<and> get t' k s2 = Ret (Some v, s3)"
proof -
  obtain s1 where s1: "put t k v s = Ret s1" "rel s1 (lru_put cap k (stamp S t v) xs)"
    using put_refines [OF assms(1)] by blast
  obtain s2 where s2: "run ops s1 = Ret (fst (lru_run cap S ops (lru_put cap k (stamp S t v) xs)), s2)"
    "rel s2 (snd (lru_run cap S ops (lru_put cap k (stamp S t v) xs)))"
    using run_refines [OF s1(2)] by blast
  show ?thesis
    using s1(1) s2(1) get_refines [OF s2(2), of t' k] content_stamp
      lru_keeps [where f = "fresh S t'" and S = S and v = "stamp S t v", OF cap_pos rel_ok [OF assms(1)] assms(2-4)]
    by auto
qed

end

end
