(* ===== verification/Factor_Cache.thy ===== *)
theory Factor_Cache
  imports LRU_Spec
begin

text \<open>
  The cache of factorizations: \<open>lruCache\<close> of \<open>internal/mathutil/factorizer.go\<close>, a hash map into a
  doubly linked list with two sentinels. The nodes live in a heap, addresses are numbers, 0 is nil, and
  going through nil is a panic. The Go map is an association list without duplicate keys. Each method
  holds the mutex and is one step.

  \<open>represents\<close> says which list of entries a cache stands for; the cache implements \<open>LRU_Spec\<close>.
\<close>

record factor =
  Prime :: int
  Exp :: int

record factorization =
  FactN :: int
  Factors :: "factor list"
  FactIsPrime :: bool
  ComputedAt :: int
  FromCache :: bool

record node =
  nkey :: int
  nvalue :: factorization
  nprev :: nat
  nnext :: nat

type_synonym heap = "nat \<Rightarrow> node"

record lru_cache =
  ccap :: int
  items :: "(int \<times> nat) list"
  heap :: heap
  fresh_addr :: nat
  chead :: nat
  ctail :: nat
  hits :: int
  misses :: int

definition zero_factorization :: factorization where
  "zero_factorization = \<lparr>FactN = 0, Factors = [], FactIsPrime = False, ComputedAt = 0, FromCache = False\<rparr>"

definition zero_node :: node where
  "zero_node = \<lparr>nkey = 0, nvalue = zero_factorization, nprev = 0, nnext = 0\<rparr>"

definition newLRUCache :: "int \<Rightarrow> lru_cache" where
  "newLRUCache capacity =
     \<lparr>ccap = capacity, items = [],
      heap = (\<lambda>_. zero_node)(1 := zero_node\<lparr>nnext := 2\<rparr>, 2 := zero_node\<lparr>nprev := 1\<rparr>),
      fresh_addr = 3, chead = 1, ctail = 2, hits = 0, misses = 0\<rparr>"

section \<open>The linked list\<close>

definition nil_panic :: string where
  "nil_panic = ''invalid memory address or nil pointer dereference''"

definition go_then :: "'a go \<Rightarrow> ('a \<Rightarrow> 'b go) \<Rightarrow> 'b go" where
  "go_then m f = (case m of Ret a \<Rightarrow> f a | Panic msg \<Rightarrow> Panic msg)"

lemma go_then_Ret [simp]: "go_then (Ret a) f = f a"
  by (simp add: go_then_def)

definition set_next :: "nat \<Rightarrow> nat \<Rightarrow> heap \<Rightarrow> heap go" where
  "set_next p q h = (if p = 0 then Panic nil_panic else Ret (h(p := (h p)\<lparr>nnext := q\<rparr>)))"

definition set_prev :: "nat \<Rightarrow> nat \<Rightarrow> heap \<Rightarrow> heap go" where
  "set_prev p q h = (if p = 0 then Panic nil_panic else Ret (h(p := (h p)\<lparr>nprev := q\<rparr>)))"

definition removeNode :: "nat \<Rightarrow> heap \<Rightarrow> heap go" where
  "removeNode n h =
     (if n = 0 then Panic nil_panic
      else go_then (set_next (nprev (h n)) (nnext (h n)) h) (\<lambda>h1. set_prev (nnext (h1 n)) (nprev (h1 n)) h1))"

definition addToFront :: "nat \<Rightarrow> nat \<Rightarrow> heap \<Rightarrow> heap go" where
  "addToFront front n h =
     go_then (set_next n (nnext (h front)) h) (\<lambda>h1.
     go_then (set_prev n front h1) (\<lambda>h2.
     go_then (set_prev (nnext (h2 front)) n h2) (\<lambda>h3.
     set_next front n h3)))"

definition moveToFront :: "nat \<Rightarrow> nat \<Rightarrow> heap \<Rightarrow> heap go" where
  "moveToFront front n h = go_then (removeNode n h) (addToFront front n)"

section \<open>The cache\<close>

definition cache_get :: "int \<Rightarrow> lru_cache \<Rightarrow> (factorization option \<times> lru_cache) go" where
  "cache_get key c =
     (case map_of (items c) key of
        None \<Rightarrow> Ret (None, c\<lparr>misses := misses c + 1\<rparr>)
      | Some n \<Rightarrow>
          go_then (moveToFront (chead c) n (heap c)) (\<lambda>h.
            Ret (Some (nvalue (h n)), c\<lparr>heap := h, hits := hits c + 1\<rparr>)))"

definition cache_put :: "int \<Rightarrow> factorization \<Rightarrow> lru_cache \<Rightarrow> lru_cache go" where
  "cache_put key val c =
     (case map_of (items c) key of
        Some n \<Rightarrow>
          go_then (moveToFront (chead c) n ((heap c)(n := (heap c n)\<lparr>nvalue := val\<rparr>))) (\<lambda>h.
            Ret (c\<lparr>heap := h\<rparr>))
      | None \<Rightarrow>
          (let n = fresh_addr c;
               h0 = (heap c)(n := \<lparr>nkey = key, nvalue = val, nprev = 0, nnext = 0\<rparr>);
               m = (key, n) # lru_del key (items c)
           in go_then (addToFront (chead c) n h0) (\<lambda>h.
                if ccap c < int (length m)
                then (let lru = nprev (h (ctail c))
                      in go_then (removeNode lru h) (\<lambda>h'.
                           Ret (c\<lparr>items := lru_del (nkey (h' lru)) m, heap := h', fresh_addr := n + 1\<rparr>)))
                else Ret (c\<lparr>items := m, heap := h, fresh_addr := n + 1\<rparr>))))"

definition cache_stats :: "lru_cache \<Rightarrow> int \<times> int" where
  "cache_stats c = (hits c, misses c)"

section \<open>What a heap represents\<close>

text \<open>Neighbours point at each other.\<close>

fun linked :: "heap \<Rightarrow> nat list \<Rightarrow> bool" where
  "linked h (a # b # r) \<longleftrightarrow> nnext (h a) = b \<and> nprev (h b) = a \<and> linked h (b # r)"
| "linked h _ \<longleftrightarrow> True"

lemma linked_split: "linked h (xs @ b # ys) \<longleftrightarrow> linked h (xs @ [b]) \<and> linked h (b # ys)"
proof (induction xs)
  case Nil
  then show ?case by simp
next
  case (Cons x xs)
  then show ?case by (cases xs) auto
qed

lemma linked_cong_Cons:
  assumes "\<forall>x \<in> set (b # ys). nnext (h' x) = nnext (h x)" and "\<forall>x \<in> set ys. nprev (h' x) = nprev (h x)"
  shows "linked h' (b # ys) = linked h (b # ys)"
  using assms by (induction ys arbitrary: b) simp_all

lemma linked_cong_snoc:
  assumes "\<forall>x \<in> set xs. nnext (h' x) = nnext (h x)" and "\<forall>x \<in> set (xs @ [a]). nprev (h' x) = nprev (h x)"
  shows "linked h' (xs @ [a]) = linked h (xs @ [a])"
  using assms
proof (induction xs)
  case Nil
  then show ?case by simp
next
  case (Cons x xs)
  then show ?case by (cases xs) simp_all
qed

text \<open>A step of the list keeps keys and values.\<close>

definition same_data :: "heap \<Rightarrow> heap \<Rightarrow> bool" where
  "same_data h h' \<longleftrightarrow> (\<forall>x. nkey (h' x) = nkey (h x) \<and> nvalue (h' x) = nvalue (h x))"

lemma same_data_trans: "same_data h h1 \<Longrightarrow> same_data h1 h2 \<Longrightarrow> same_data h h2"
  by (simp add: same_data_def)

lemma removeNode_linked:
  assumes "linked h (xs @ a # n # b # ys)" and "distinct (xs @ a # n # b # ys)" and "0 \<notin> set (xs @ a # n # b # ys)"
  shows "\<exists>h'. removeNode n h = Ret h' \<and> linked h' (xs @ a # b # ys) \<and> same_data h h'"
proof -
  have p: "nprev (h n) = a" "nnext (h n) = b" and l: "linked h (xs @ [a])" "linked h (b # ys)"
    using linked_split [THEN iffD1, OF assms(1)] by simp_all
  define h' where "h' = h(a := (h a)\<lparr>nnext := b\<rparr>, b := (h b)\<lparr>nprev := a\<rparr>)"
  have ne: "a \<noteq> b" "n \<noteq> a" "n \<noteq> b" "a \<noteq> 0" "b \<noteq> 0" "n \<noteq> 0" using assms(2,3) by auto
  have "removeNode n h = Ret h'"
    using p ne by (simp add: removeNode_def set_next_def set_prev_def h'_def)
  moreover have "linked h' (xs @ [a])"
    using l(1) assms(2) by (subst linked_cong_snoc [where h = h]) (auto simp: h'_def)
  moreover have "linked h' (b # ys)"
    using l(2) assms(2) by (subst linked_cong_Cons [where h = h]) (auto simp: h'_def)
  moreover have "nnext (h' a) = b" "nprev (h' b) = a" using assms(2) by (auto simp: h'_def)
  moreover have "same_data h h'" by (auto simp: same_data_def h'_def)
  ultimately show ?thesis using linked_split [of h' xs a "b # ys"] by auto
qed

lemma addToFront_linked:
  assumes "linked h (front # b # ys)" and "distinct (front # n # b # ys)" and "0 \<notin> set (front # n # b # ys)"
  shows "\<exists>h'. addToFront front n h = Ret h' \<and> linked h' (front # n # b # ys) \<and> same_data h h'"
proof -
  have p: "nnext (h front) = b" and l: "linked h (b # ys)" using assms(1) by simp_all
  define h' where "h' = h(n := (h n)\<lparr>nnext := b, nprev := front\<rparr>, b := (h b)\<lparr>nprev := n\<rparr>, front := (h front)\<lparr>nnext := n\<rparr>)"
  have ne: "front \<noteq> n" "front \<noteq> b" "n \<noteq> b" "front \<noteq> 0" "b \<noteq> 0" "n \<noteq> 0" using assms(2,3) by auto
  have "addToFront front n h = Ret h'"
    using p ne by (simp add: addToFront_def set_next_def set_prev_def h'_def)
  moreover have "linked h' (b # ys)"
    using l assms(2) by (subst linked_cong_Cons [where h = h]) (auto simp: h'_def)
  moreover have "same_data h h'" by (auto simp: same_data_def h'_def)
  ultimately show ?thesis using assms(2) by (auto simp: h'_def)
qed

lemma moveToFront_linked:
  assumes "linked h (front # as @ n # bs @ [t])" and "distinct (front # as @ n # bs @ [t])"
    and "0 \<notin> set (front # as @ n # bs @ [t])"
  shows "\<exists>h'. moveToFront front n h = Ret h' \<and> linked h' (front # n # as @ bs @ [t]) \<and> same_data h h'"
proof -
  obtain xs a where a: "front # as = xs @ [a]" by (cases "front # as" rule: rev_cases) auto
  obtain b ys where b: "bs @ [t] = b # ys" by (cases "bs @ [t]") auto
  have e: "front # as @ n # bs @ [t] = xs @ a # n # b # ys" and e': "front # as @ bs @ [t] = xs @ a # b # ys"
    using a b by (simp_all add: append_eq_Cons_conv Cons_eq_append_conv) (auto simp: a b)
  obtain h1 where h1: "removeNode n h = Ret h1" "linked h1 (front # as @ bs @ [t])" "same_data h h1"
    using removeNode_linked [of h xs a n b ys] assms unfolding e e' by blast
  obtain b' ys' where b': "as @ bs @ [t] = b' # ys'" by (cases "as @ bs @ [t]") auto
  have d: "distinct (front # n # as @ bs @ [t])" "0 \<notin> set (front # n # as @ bs @ [t])" using assms(2,3) by auto
  obtain h2 where h2: "addToFront front n h1 = Ret h2" "linked h2 (front # n # as @ bs @ [t])" "same_data h1 h2"
    using addToFront_linked [of h1 front b' ys' n] h1(2) d unfolding b' by blast
  show ?thesis
    using h1 h2 same_data_trans [OF h1(3) h2(3)] by (simp add: moveToFront_def)
qed

section \<open>What a cache represents\<close>

definition entry :: "heap \<Rightarrow> nat \<Rightarrow> int \<times> factorization" where
  "entry h n = (nkey (h n), nvalue (h n))"

definition nodes_ok :: "lru_cache \<Rightarrow> nat list \<Rightarrow> bool" where
  "nodes_ok c ns \<longleftrightarrow>
     linked (heap c) (chead c # ns @ [ctail c]) \<and> distinct (chead c # ns @ [ctail c])
     \<and> (\<forall>a \<in> set (chead c # ns @ [ctail c]). 0 < a \<and> a < fresh_addr c)
     \<and> distinct (map fst (items c)) \<and> set (items c) = (\<lambda>n. (nkey (heap c n), n)) ` set ns"

definition represents :: "nat \<Rightarrow> lru_cache \<Rightarrow> (int \<times> factorization) list \<Rightarrow> bool" where
  "represents cap c xs \<longleftrightarrow>
     0 < cap \<and> ccap c = int cap \<and> lru_ok cap xs \<and> (\<exists>ns. nodes_ok c ns \<and> xs = map (entry (heap c)) ns)"

lemma same_data_entry: "same_data h h' \<Longrightarrow> entry h' = entry h"
  by (auto simp: same_data_def entry_def)

lemma same_data_items: "same_data h h' \<Longrightarrow> (\<lambda>n. (nkey (h' n), n)) ` A = (\<lambda>n. (nkey (h n), n)) ` A"
  by (simp add: same_data_def)

lemma nodes_items: "nodes_ok c ns \<Longrightarrow> map_of (items c) k = Some n \<longleftrightarrow> n \<in> set ns \<and> nkey (heap c n) = k"
  by (auto simp: nodes_ok_def)

lemma nodes_length: assumes "nodes_ok c ns" shows "length (items c) = length ns"
proof -
  have "distinct (items c)" using assms by (auto simp: nodes_ok_def distinct_map)
  then have "length (items c) = card ((\<lambda>n. (nkey (heap c n), n)) ` set ns)"
    using assms distinct_card [of "items c"] by (simp add: nodes_ok_def)
  also have "\<dots> = card (set ns)" by (rule card_image) (simp add: inj_on_def)
  also have "\<dots> = length ns" using assms distinct_card [of ns] by (simp add: nodes_ok_def)
  finally show ?thesis .
qed

lemma represents_absent:
  assumes "nodes_ok c ns"
  shows "map_of (items c) k = None \<longleftrightarrow> k \<notin> fst ` set (map (entry (heap c)) ns)"
proof -
  have "fst ` set (items c) = fst ` set (map (entry (heap c)) ns)"
    using assms by (simp add: nodes_ok_def entry_def image_image)
  then show ?thesis by (simp only: map_of_eq_None_iff)
qed

lemma entry_split:
  assumes "distinct (map fst (map (entry h) (as @ n # bs)))"
  shows "map_of (map (entry h) (as @ n # bs)) (nkey (h n)) = Some (nvalue (h n))"
    and "lru_del (nkey (h n)) (map (entry h) (as @ n # bs)) = map (entry h) (as @ bs)"
proof -
  have "nkey (h n) \<notin> fst ` set (map (entry h) as)" "nkey (h n) \<notin> fst ` set (map (entry h) bs)"
    using assms by (auto simp: entry_def)
  moreover from this(1) have "map_of (map (entry h) as) (nkey (h n)) = None" by (rule iffD2 [OF map_of_eq_None_iff])
  ultimately show "map_of (map (entry h) (as @ n # bs)) (nkey (h n)) = Some (nvalue (h n))"
    and "lru_del (nkey (h n)) (map (entry h) (as @ n # bs)) = map (entry h) (as @ bs)"
    by (auto simp: lru_del_notin map_add_def entry_def)
qed

lemma newLRUCache_represents: "0 < cap \<Longrightarrow> represents cap (newLRUCache (int cap)) []"
  by (auto simp: represents_def nodes_ok_def newLRUCache_def intro!: exI [of _ "[]"])

text \<open>Moving the node of a present key to the front, its value set to \<open>v\<close> before.\<close>

lemma touch_represents:
  assumes r: "represents cap c xs" and m: "map_of (items c) k = Some n"
  shows "\<exists>h'. moveToFront (chead c) n ((heap c)(n := (heap c n)\<lparr>nvalue := v\<rparr>)) = Ret h' \<and> nvalue (h' n) = v
    \<and> represents cap (c\<lparr>heap := h', hits := i\<rparr>) ((k, v) # lru_del k xs)
    \<and> represents cap (c\<lparr>heap := h'\<rparr>) ((k, v) # lru_del k xs)"
proof -
  from r obtain ns where ns: "nodes_ok c ns" "xs = map (entry (heap c)) ns" and c: "0 < cap" "ccap c = int cap" "lru_ok cap xs"
    by (auto simp: represents_def)
  from m nodes_items [OF ns(1)] have n: "n \<in> set ns" "nkey (heap c n) = k" by auto
  then obtain as bs where sp: "ns = as @ n # bs" by (auto simp: in_set_conv_decomp)
  let ?h = "(heap c)(n := (heap c n)\<lparr>nvalue := v\<rparr>)"
  have l: "linked (heap c) (chead c # as @ n # bs @ [ctail c])" and d: "distinct (chead c # as @ n # bs @ [ctail c])"
    and z: "\<forall>a \<in> set (chead c # as @ n # bs @ [ctail c]). 0 < a \<and> a < fresh_addr c"
    and it: "distinct (map fst (items c))" "set (items c) = (\<lambda>n. (nkey (heap c n), n)) ` set ns"
    using ns(1) by (simp_all add: nodes_ok_def sp)
  have "linked ?h (chead c # as @ n # bs @ [ctail c])"
    using l by (subst linked_cong_Cons [where h = "heap c"]) auto
  moreover have "0 \<notin> set (chead c # as @ n # bs @ [ctail c])" using z by blast
  ultimately obtain h' where h': "moveToFront (chead c) n ?h = Ret h'"
    "linked h' (chead c # n # as @ bs @ [ctail c])" "same_data ?h h'"
    using moveToFront_linked [OF _ d] by blast
  have e: "entry h' = entry ?h" "nkey (h' x) = nkey (heap c x)" "nvalue (h' n) = v" for x
    using h'(3) by (auto simp: same_data_def entry_def fun_eq_iff)
  have nn: "n \<notin> set as" "n \<notin> set bs" using d by auto
  have "map (entry h') (n # as @ bs) = (k, v) # map (entry (heap c)) (as @ bs)"
    using nn n(2) by (auto simp: e entry_def)
  also have "map (entry (heap c)) (as @ bs) = lru_del k xs"
    using entry_split(2) [of "heap c" as n bs] c(3) n(2) by (simp add: lru_ok_def ns(2) sp)
  finally have x: "map (entry h') (n # as @ bs) = (k, v) # lru_del k xs" .
  have "nodes_ok (c\<lparr>heap := h'\<rparr>) (n # as @ bs)"
    using h'(2) d z it by (auto simp: nodes_ok_def e sp)
  moreover have "nodes_ok (c\<lparr>heap := h', hits := i\<rparr>) (n # as @ bs)"
    using h'(2) d z it by (auto simp: nodes_ok_def e sp)
  moreover have "lru_ok cap ((k, v) # lru_del k xs)"
    using lru_ok_front [OF c(3)] n by (force simp: ns(2) entry_def)
  ultimately show ?thesis
    using h'(1) e(3) c(1,2) x unfolding represents_def by (auto intro!: exI [of _ "n # as @ bs"])
qed

lemma get_represents:
  assumes "represents cap c xs"
  shows "\<exists>c'. cache_get k c = Ret (fst (lru_get (\<lambda>_. True) k xs), c') \<and> represents cap c' (snd (lru_get (\<lambda>_. True) k xs))"
proof (cases "map_of (items c) k")
  case None
  from assms obtain ns where ns: "nodes_ok c ns" "xs = map (entry (heap c)) ns" by (auto simp: represents_def)
  from None represents_absent [OF ns(1)] ns(2) have "map_of xs k = None" by (simp add: map_of_eq_None_iff)
  moreover have "represents cap (c\<lparr>misses := misses c + 1\<rparr>) xs"
    using assms by (simp add: represents_def nodes_ok_def)
  ultimately show ?thesis using None by (simp add: cache_get_def lru_get_def)
next
  case (Some n)
  from assms obtain ns where ns: "nodes_ok c ns" "xs = map (entry (heap c)) ns" "lru_ok cap xs" by (auto simp: represents_def)
  from Some nodes_items [OF ns(1)] have n: "n \<in> set ns" "nkey (heap c n) = k" by auto
  then obtain as bs where "ns = as @ n # bs" by (auto simp: in_set_conv_decomp)
  with entry_split(1) [of "heap c" as n bs] ns(2,3) n(2) have m: "map_of xs k = Some (nvalue (heap c n))"
    by (simp add: lru_ok_def)
  have "(heap c)(n := (heap c n)\<lparr>nvalue := nvalue (heap c n)\<rparr>) = heap c" by simp
  with touch_represents [OF assms Some, of "nvalue (heap c n)" "hits c + 1"] obtain h'
    where "moveToFront (chead c) n (heap c) = Ret h'" "nvalue (h' n) = nvalue (heap c n)"
      "represents cap (c\<lparr>heap := h', hits := hits c + 1\<rparr>) ((k, nvalue (heap c n)) # lru_del k xs)" by auto
  then show ?thesis using Some m by (simp add: cache_get_def lru_get_def)
qed

lemma insert_represents:
  assumes r: "represents cap c xs" and m: "map_of (items c) k = None"
  shows "\<exists>c'. cache_put k v c = Ret c' \<and> represents cap c' ((k, v) # (if length xs < cap then xs else butlast xs))"
proof -
  from r obtain ns where ns: "nodes_ok c ns" "xs = map (entry (heap c)) ns" and c: "0 < cap" "ccap c = int cap" "lru_ok cap xs"
    by (auto simp: represents_def)
  let ?n = "fresh_addr c" and ?items = "(k, fresh_addr c) # items c"
  let ?h = "(heap c)(?n := \<lparr>nkey = k, nvalue = v, nprev = 0, nnext = 0\<rparr>)"
  have l: "linked (heap c) (chead c # ns @ [ctail c])" and d: "distinct (chead c # ns @ [ctail c])"
    and z: "\<forall>a \<in> set (chead c # ns @ [ctail c]). 0 < a \<and> a < ?n"
    and it: "distinct (map fst (items c))" "set (items c) = (\<lambda>n. (nkey (heap c n), n)) ` set ns"
    using ns(1) by (simp_all add: nodes_ok_def)
  have old: "?n \<notin> set (chead c # ns @ [ctail c])" using z by blast
  have "linked ?h (chead c # ns @ [ctail c])"
    using l old by (subst linked_cong_Cons [where h = "heap c"]) auto
  moreover have d': "distinct (chead c # ?n # ns @ [ctail c])" and z': "0 \<notin> set (chead c # ?n # ns @ [ctail c])"
    using d old z by auto
  moreover obtain b ys where "ns @ [ctail c] = b # ys" by (cases "ns @ [ctail c]") auto
  ultimately obtain h' where h': "addToFront (chead c) ?n ?h = Ret h'"
    "linked h' (chead c # ?n # ns @ [ctail c])" "same_data ?h h'"
    using addToFront_linked [of ?h "chead c" b ys ?n] by auto
  have e: "entry h' = entry ?h" "nkey (h' x) = (if x = ?n then k else nkey (heap c x))" for x
    using h'(3) by (auto simp: same_data_def entry_def fun_eq_iff)
  have nn: "?n \<notin> set ns" using old by simp
  then have x: "map (entry h') (?n # ns) = (k, v) # xs" by (auto simp: e ns(2) entry_def)
  have kx: "k \<notin> fst ` set xs" using m represents_absent [OF ns(1)] ns(2) by simp
  have ki: "k \<notin> fst ` set (items c)" using m by (rule iffD1 [OF map_of_eq_None_iff])
  have it': "distinct (map fst ?items)" "set ?items = (\<lambda>n. (nkey (h' n), n)) ` set (?n # ns)"
  proof -
    have "(\<lambda>n. (nkey (h' n), n)) ` set ns = (\<lambda>n. (nkey (heap c n), n)) ` set ns"
      by (rule image_cong) (use nn in \<open>auto simp: e\<close>)
    then show "set ?items = (\<lambda>n. (nkey (h' n), n)) ` set (?n # ns)" using it(2) by (simp add: e)
    show "distinct (map fst ?items)" using it(1) ki by simp
  qed
  have ok: "lru_ok cap ((k, v) # (if length xs < cap then xs else butlast xs))"
    using lru_ok_put [OF c(3,1), of k v] kx by (simp add: lru_put_def)
  have len: "length (items c) = length xs" using nodes_length [OF ns(1)] ns(2) by simp
  show ?thesis
  proof (cases "length xs < cap")
    case True
    define c1 where "c1 = c\<lparr>items := ?items, heap := h', fresh_addr := ?n + 1\<rparr>"
    have "nodes_ok c1 (?n # ns)"
      using h'(2) d' z it' by (auto simp: nodes_ok_def c1_def)
    with c x ok True have "represents cap c1 ((k, v) # xs)"
      unfolding represents_def by (auto simp: c1_def intro!: exI [of _ "?n # ns"])
    moreover have "cache_put k v c = Ret c1"
      using True len m c(2) ki by (simp add: cache_put_def h'(1) Let_def lru_del_notin c1_def)
    ultimately show ?thesis using True by simp
  next
    case False
    with c(1) ns(2) have "ns \<noteq> []" by auto
    then obtain ms z1 where ms: "ns = ms @ [z1]" by (cases ns rule: rev_cases) auto
    obtain as a where a: "chead c # ?n # ms = as @ [a]" by (cases "chead c # ?n # ms" rule: rev_cases) auto
    have e1: "chead c # ?n # ns @ [ctail c] = as @ a # z1 # ctail c # []"
      and e2: "chead c # ?n # ms @ [ctail c] = as @ a # ctail c # []"
      using a by (simp_all add: ms)
    obtain h2 where h2: "removeNode z1 h' = Ret h2" "linked h2 (chead c # ?n # ms @ [ctail c])" "same_data h' h2"
      using removeNode_linked [of h' as a z1 "ctail c" "[]"] h'(2) d' z' unfolding e1 e2 by blast
    have lru: "nprev (h' (ctail c)) = z1"
      using linked_split [THEN iffD1, of h' "as @ [a]" z1 "[ctail c]"] h'(2) unfolding e1 by simp
    have e3: "entry h2 = entry h'" "nkey (h2 y) = nkey (h' y)" for y
      using h2(3) by (auto simp: same_data_entry same_data_def)
    have zz: "z1 \<notin> set (?n # ms)" using d' ms by auto
    have kz: "nkey (h' z1) \<noteq> k" and dm: "\<forall>x \<in> set (?n # ms). nkey (h' x) \<noteq> nkey (h' z1)"
    proof -
      have "distinct (map fst (map (entry h') (?n # ns)))" using ok x c(3) kx by (simp add: lru_ok_def)
      then show "\<forall>x \<in> set (?n # ms). nkey (h' x) \<noteq> nkey (h' z1)" by (auto simp: ms entry_def image_iff)
      then show "nkey (h' z1) \<noteq> k" by (auto simp: e)
    qed
    define c1 where "c1 = c\<lparr>items := lru_del (nkey (h' z1)) ?items, heap := h2, fresh_addr := ?n + 1\<rparr>"
    have "set (lru_del (nkey (h' z1)) ?items) = (\<lambda>n. (nkey (h' n), n)) ` set (?n # ms)"
    proof -
      have "set (lru_del (nkey (h' z1)) ?items) = {p \<in> (\<lambda>n. (nkey (h' n), n)) ` set (?n # ns). fst p \<noteq> nkey (h' z1)}"
        unfolding lru_del_def set_filter it'(2) ..
      also have "\<dots> = (\<lambda>n. (nkey (h' n), n)) ` set (?n # ms)" using dm by (auto simp: ms)
      finally show ?thesis .
    qed
    moreover have "distinct (map fst (lru_del (nkey (h' z1)) ?items))"
      using it'(1) unfolding lru_del_def by (rule distinct_map_filter)
    ultimately have "nodes_ok c1 (?n # ms)"
      using h2(2) d' z by (auto simp: nodes_ok_def c1_def e3 ms)
    moreover have "map (entry h2) (?n # ms) = (k, v) # butlast xs"
    proof -
      have "map (entry h') (?n # ms) = butlast (map (entry h') (?n # ns))" by (simp add: ms butlast_append)
      with x False c(1) show ?thesis by (auto simp: e3)
    qed
    ultimately have "represents cap c1 ((k, v) # butlast xs)"
      using c ok False unfolding represents_def by (auto simp: c1_def intro!: exI [of _ "?n # ms"])
    moreover have "cache_put k v c = Ret c1"
      using False len m c(2) ki lru h2(1)
      by (simp add: cache_put_def h'(1) Let_def lru_del_notin c1_def e3)
    ultimately show ?thesis using False by simp
  qed
qed

lemma put_represents:
  assumes "represents cap c xs"
  shows "\<exists>c'. cache_put k v c = Ret c' \<and> represents cap c' (lru_put cap k v xs)"
proof (cases "map_of (items c) k")
  case None
  from assms obtain ns where ns: "nodes_ok c ns" "xs = map (entry (heap c)) ns" by (auto simp: represents_def)
  from None represents_absent [OF ns(1)] ns(2) have "k \<notin> fst ` set xs" by simp
  with insert_represents [OF assms None] show ?thesis by (simp add: lru_put_def)
next
  case (Some n)
  from assms obtain ns where ns: "nodes_ok c ns" "xs = map (entry (heap c)) ns" by (auto simp: represents_def)
  from Some represents_absent [OF ns(1), of k] ns(2) have "k \<in> fst ` set xs" by simp
  moreover obtain h' where "moveToFront (chead c) n ((heap c)(n := (heap c n)\<lparr>nvalue := v\<rparr>)) = Ret h'"
    "represents cap (c\<lparr>heap := h'\<rparr>) ((k, v) # lru_del k xs)"
    using touch_represents [OF assms Some] by blast
  ultimately show ?thesis using Some by (simp add: lru_put_def cache_put_def)
qed

lemma represents_ok: "represents cap c xs \<Longrightarrow> lru_ok cap xs"
  by (simp add: represents_def)

text \<open>Values are stored as they are and never expire.\<close>

definition timeless :: "(unit, factorization, factorization) stamping" where
  "timeless = \<lparr>stamp = (\<lambda>_ v. v), content = (\<lambda>v. v), fresh = (\<lambda>_ _. True)\<rparr>"

interpretation fc: lru "\<lambda>_. cache_get" "\<lambda>_. cache_put" "represents (Suc n)" "Suc n" timeless for n
  by unfold_locales (simp_all add: represents_ok get_represents put_represents timeless_def option.map_ident)

section \<open>Properties\<close>

text \<open>
  C16. The hand-written linked list behind the factorization cache is an LRU cache: from a new cache of
  any positive capacity, every sequence of lookups and insertions runs without going through a nil
  pointer, gives the answers of the list of most recently used entries, and leaves a heap that
  represents that list, which is never longer than the capacity.
\<close>

theorem linked_cache_refines_lru:
  assumes "0 < cap"
  shows "\<exists>c. lru.run (\<lambda>_. cache_get) (\<lambda>_. cache_put) ops (newLRUCache (int cap)) = Ret (fst (lru_run cap timeless ops []), c)
     \<and> represents cap c (snd (lru_run cap timeless ops []))
     \<and> length (items c) \<le> cap"
proof -
  obtain n where cap: "cap = Suc n" using assms by (cases cap) auto
  obtain c where c: "lru.run (\<lambda>_. cache_get) (\<lambda>_. cache_put) ops (newLRUCache (int cap)) = Ret (fst (lru_run cap timeless ops []), c)"
    "represents cap c (snd (lru_run cap timeless ops []))"
    using fc.run_refines [OF newLRUCache_represents, of n ops] unfolding cap by auto
  then have "length (items c) \<le> cap"
    using nodes_length by (auto simp: represents_def lru_ok_def)
  with c show ?thesis by blast
qed

definition answer_of :: "int \<Rightarrow> factorization" where
  "answer_of n = zero_factorization\<lparr>FactN := n\<rparr>"

lemma linked_cache_refines_lru_witness:
  "\<exists>c. lru.run (\<lambda>_. cache_get) (\<lambda>_. cache_put)
       [Insert () 6 (answer_of 6), Insert () 7 (answer_of 7), Lookup () 6, Insert () 8 (answer_of 8),
        Lookup () 7, Lookup () 6, Lookup () 8]
       (newLRUCache 2) = Ret ([Some (answer_of 6), None, Some (answer_of 6), Some (answer_of 8)], c)
     \<and> represents 2 c [(8, answer_of 8), (6, answer_of 6)]"
proof -
  let ?ops = "[Insert () 6 (answer_of 6), Insert () 7 (answer_of 7), Lookup () 6, Insert () 8 (answer_of 8),
        Lookup () 7, Lookup () 6, Lookup () 8]"
  have "lru_run 2 timeless ?ops ([] :: (int \<times> factorization) list) =
      ([Some (answer_of 6), None, Some (answer_of 6), Some (answer_of 8)], [(8, answer_of 8), (6, answer_of 6)])"
    by (simp add: lru_get_def lru_put_def lru_del_def timeless_def)
  with linked_cache_refines_lru [of 2 ?ops] show ?thesis by auto
qed

end
