(* ===== verification/Factorizer.thy ===== *)
theory Factorizer
  imports Factor_Cache Go_Strings "HOL-Library.Multiset"
begin

text \<open>
  Prime factorization: \<open>internal/mathutil/factorizer.go\<close>.

  Numbers are \<open>int\<close>: all inputs are at most \<open>10 ^ 15\<close>, so no intermediate value of the code leaves
  int64 (products go through \<open>big.Int\<close>). \<open>big.Int.ProbablyPrime\<close> is exact below \<open>2 ^ 64\<close>, as its
  documentation says. A loop that may run for ever is a partial function: its value is \<open>None\<close> when it
  does. The random source of the \<open>k\<close>-th call of \<open>pollardRho\<close> is \<open>rng k\<close>, an arbitrary sequence of
  numbers, of which \<open>Int63n\<close> takes the remainder.
\<close>

definition MaxSafeInput :: int where
  "MaxSafeInput = 1000000000000000"

definition trialDivisionLimit :: int where
  "trialDivisionLimit = 1000000"

definition is_prime :: "int \<Rightarrow> bool" where
  "is_prime p \<longleftrightarrow> 1 < p \<and> (\<forall>d. 1 < d \<longrightarrow> d dvd p \<longrightarrow> d = p)"

definition ProbablyPrime :: "int \<Rightarrow> bool" where
  "ProbablyPrime n \<longleftrightarrow> 1 < n \<and> list_all (\<lambda>d. \<not> d dvd n) [2..n - 1]"

definition IsPrime :: "int \<Rightarrow> bool" where
  "IsPrime n = (if n < 2 then False else ProbablyPrime n)"

section \<open>Arithmetic\<close>

definition mulmod :: "int \<Rightarrow> int \<Rightarrow> int \<Rightarrow> int" where
  "mulmod a b m = a * b mod m"

definition addmod :: "int \<Rightarrow> int \<Rightarrow> int \<Rightarrow> int" where
  "addmod a b m = (let r = a + b in if r \<ge> m then r - m else r)"

function go_gcd :: "int \<Rightarrow> int \<Rightarrow> int" where
  "go_gcd a b = (if b = 0 then a else go_gcd b (a mod b))"
  by pat_completeness auto
termination
  by (relation "measure (\<lambda>(a, b). nat \<bar>b\<bar>)") (auto simp: abs_mod_less)

declare go_gcd.simps [simp del]

section \<open>Trial division\<close>

text \<open>The loop \<open>for n % p == 0\<close>; all calls have \<open>2 \<le> p\<close> and \<open>1 \<le> n\<close>.\<close>

function divide_out :: "int \<Rightarrow> int \<Rightarrow> int list \<times> int" where
  "divide_out p n =
     (if 2 \<le> p \<and> 1 \<le> n \<and> n mod p = 0
      then (let (ps, m) = divide_out p (n div p) in (p # ps, m)) else ([], n))"
  by pat_completeness auto
termination
proof (relation "measure (\<lambda>(p, n). nat n)")
  fix p n :: int
  assume a: "2 \<le> p \<and> 1 \<le> n \<and> n mod p = 0"
  then have "n div p < n" using int_div_less_self [of n p] by simp
  with a show "((p, n div p), p, n) \<in> measure (\<lambda>(p, n). nat n)" by simp
qed simp

declare divide_out.simps [simp del]

definition wheel_inc :: "int list" where
  "wheel_inc = [4, 2, 4, 2, 4, 6, 2, 6]"

text \<open>The index stays below 8: every call takes it modulo 8.\<close>

lemma wheel_inc_pos: "2 \<le> wheel_inc ! (i mod 8)"
proof -
  have "wheel_inc ! (i mod 8) \<in> set wheel_inc" by (rule nth_mem) (simp add: wheel_inc_def)
  then show ?thesis by (auto simp: wheel_inc_def)
qed

function wheel :: "int \<Rightarrow> nat \<Rightarrow> int \<Rightarrow> int list \<times> int" where
  "wheel d idx n =
     (if d \<le> trialDivisionLimit \<and> d * d \<le> n
      then (let (ps, m) = divide_out d n;
                (qs, r) = wheel (d + wheel_inc ! (idx mod 8)) ((idx + 1) mod 8) m
            in (ps @ qs, r))
      else ([], n))"
  by pat_completeness auto
termination
proof (relation "measure (\<lambda>(d, idx, n). nat (trialDivisionLimit + 1 - d))")
  fix d :: int and idx :: nat and n :: int and x :: "int list \<times> int" and xa y
  assume "d \<le> trialDivisionLimit \<and> d * d \<le> n"
  with wheel_inc_pos [of idx]
  show "((d + wheel_inc ! (idx mod 8), (idx + 1) mod 8, y), d, idx, n)
    \<in> measure (\<lambda>(d, idx, n). nat (trialDivisionLimit + 1 - d))" by simp
qed simp

declare wheel.simps [simp del]

section \<open>Pollard's rho\<close>

definition rho_step :: "int \<Rightarrow> int \<Rightarrow> int \<Rightarrow> int" where
  "rho_step n c x = addmod (mulmod x x n) c n"

partial_function (option) rho_cycle :: "int \<Rightarrow> int \<Rightarrow> int \<Rightarrow> int \<Rightarrow> int option" where
  "rho_cycle n c x y =
     (let x' = rho_step n c x; y' = rho_step n c (rho_step n c y); d = go_gcd \<bar>x' - y'\<bar> n
      in if d = 1 then rho_cycle n c x' y' else Some d)"

definition rho_x :: "int \<Rightarrow> (nat \<Rightarrow> int) \<Rightarrow> nat \<Rightarrow> int" where
  "rho_x n rng i = rng (2 * i) mod (n - 2) + 2"

definition rho_c :: "int \<Rightarrow> (nat \<Rightarrow> int) \<Rightarrow> nat \<Rightarrow> int" where
  "rho_c n rng i = rng (2 * i + 1) mod (n - 1) + 1"

partial_function (option) rho_rounds :: "int \<Rightarrow> (nat \<Rightarrow> int) \<Rightarrow> nat \<Rightarrow> int option" where
  "rho_rounds n rng i =
     Option.bind (rho_cycle n (rho_c n rng i) (rho_x n rng i) (rho_x n rng i)) (\<lambda>d.
       if d \<noteq> n then Some d else rho_rounds n rng (i + 1))"

definition pollardRho :: "int \<Rightarrow> (nat \<Rightarrow> int) \<Rightarrow> int option" where
  "pollardRho n rng = (if n mod 2 = 0 then Some 2 else rho_rounds n rng 0)"

partial_function (option) pollardFactors :: "(nat \<Rightarrow> nat \<Rightarrow> int) \<Rightarrow> nat \<Rightarrow> int \<Rightarrow> (int list \<times> nat) option" where
  "pollardFactors rng k n =
     (if n = 1 then Some ([], k)
      else if IsPrime n then Some ([n], k)
      else Option.bind (pollardRho n (rng k)) (\<lambda>d.
           Option.bind (pollardFactors rng (k + 1) d) (\<lambda>r.
           Option.bind (pollardFactors rng (snd r) (n div d)) (\<lambda>s.
             Some (fst r @ fst s, snd s)))))"

definition collectPrimes :: "(nat \<Rightarrow> nat \<Rightarrow> int) \<Rightarrow> int \<Rightarrow> int list option" where
  "collectPrimes rng n =
     (if IsPrime n then Some [n]
      else let (p2, n2) = divide_out 2 n; (p3, n3) = divide_out 3 n2; (p5, n5) = divide_out 5 n3;
               (pw, m) = wheel 7 0 n5; primes = p2 @ p3 @ p5 @ pw
           in if m = 1 then Some primes
              else map_option (\<lambda>r. primes @ fst r) (pollardFactors rng 0 m))"

section \<open>Factors\<close>

text \<open>Insertion sort in place: the element at \<open>j\<close> sinks by swaps.\<close>

fun sink :: "int list \<Rightarrow> nat \<Rightarrow> int list" where
  "sink xs 0 = xs"
| "sink xs (Suc j) = (if xs ! Suc j < xs ! j then sink (xs[Suc j := xs ! j, j := xs ! Suc j]) j else xs)"

definition insertion_sort :: "int list \<Rightarrow> int list" where
  "insertion_sort xs = fold (\<lambda>i ys. sink ys i) [1..<length xs] xs"

definition add_factor :: "int \<Rightarrow> factor list \<Rightarrow> factor list" where
  "add_factor p fs =
     (if fs \<noteq> [] \<and> Prime (last fs) = p then butlast fs @ [(last fs)\<lparr>Exp := Exp (last fs) + 1\<rparr>]
      else fs @ [\<lparr>Prime = p, Exp = 1\<rparr>])"

definition buildFactors :: "int list \<Rightarrow> factor list" where
  "buildFactors primes = fold add_factor (insertion_sort primes) []"

definition NewFactorizer :: "int \<Rightarrow> lru_cache" where
  "NewFactorizer cacheSize = newLRUCache (if cacheSize \<le> 0 then 1 else cacheSize)"

definition ErrInputOutOfRange :: goerr where
  "ErrInputOutOfRange = ''input must be an integer '' @ [char_of (226 :: nat), char_of (137 :: nat), char_of (165 :: nat)] @ '' 2''"

definition ErrInputTooLarge :: goerr where
  "ErrInputTooLarge = ''input exceeds maximum safe value (10^15)''"

definition computed :: "int \<Rightarrow> int \<Rightarrow> int list \<Rightarrow> factorization" where
  "computed now n primes =
     (let fs = buildFactors primes
      in \<lparr>FactN = n, Factors = fs, FactIsPrime = (length fs = 1 \<and> Exp (hd fs) = 1),
          ComputedAt = now, FromCache = False\<rparr>)"

definition Factorize ::
  "int \<Rightarrow> (nat \<Rightarrow> nat \<Rightarrow> int) \<Rightarrow> int \<Rightarrow> lru_cache \<Rightarrow> (factorization result \<times> lru_cache) go option" where
  "Factorize now rng n c =
     (if n < 2 then Some (Ret (Inl (ErrInputOutOfRange @ '': got '' @ dec_of_int n), c))
      else if n > MaxSafeInput then Some (Ret (Inl (ErrInputTooLarge @ '': got '' @ dec_of_int n), c))
      else case cache_get n c of
          Panic m \<Rightarrow> Some (Panic m)
        | Ret (Some cached, c1) \<Rightarrow> Some (Ret (Inr (cached\<lparr>FromCache := True\<rparr>), c1))
        | Ret (None, c1) \<Rightarrow>
            map_option (\<lambda>primes.
              let r = computed now n primes
              in go_then (cache_put n r c1) (\<lambda>c2. Ret (Inr r, c2)))
            (collectPrimes rng n))"

section \<open>Primes and divisors\<close>

definition no_divisor_below :: "int \<Rightarrow> int \<Rightarrow> bool" where
  "no_divisor_below d n \<longleftrightarrow> (\<forall>e. 1 < e \<longrightarrow> e < d \<longrightarrow> \<not> e dvd n)"

lemma IsPrime_iff: "IsPrime n \<longleftrightarrow> is_prime n"
proof -
  have "(\<forall>d. 1 < d \<longrightarrow> d dvd n \<longrightarrow> d = n) \<longleftrightarrow> (\<forall>d \<in> {2..n - 1}. \<not> d dvd n)" if "1 < n"
  proof
    assume a: "\<forall>d. 1 < d \<longrightarrow> d dvd n \<longrightarrow> d = n"
    show "\<forall>d \<in> {2..n - 1}. \<not> d dvd n"
    proof
      fix d assume "d \<in> {2..n - 1}"
      then have "1 < d" "d \<noteq> n" by auto
      with a show "\<not> d dvd n" by blast
    qed
  next
    assume a: "\<forall>d \<in> {2..n - 1}. \<not> d dvd n"
    show "\<forall>d. 1 < d \<longrightarrow> d dvd n \<longrightarrow> d = n"
    proof (intro allI impI)
      fix d assume d: "1 < d" "d dvd n"
      with that have "d \<le> n" by (auto intro: zdvd_imp_le)
      with a d show "d = n" by force
    qed
  qed
  then show ?thesis by (auto simp: IsPrime_def ProbablyPrime_def is_prime_def list_all_iff)
qed

lemma prime_gt_1: "is_prime p \<Longrightarrow> 1 < p"
  by (simp add: is_prime_def)

lemma prime_if_no_divisor: "1 < d \<Longrightarrow> d dvd n \<Longrightarrow> no_divisor_below d n \<Longrightarrow> is_prime d"
  unfolding is_prime_def no_divisor_below_def
  by (metis dvd_trans less_trans not_less_iff_gr_or_eq zdvd_not_zless zero_less_one)

lemma composite_split:
  assumes "1 < n" and "\<not> is_prime n"
  obtains a b where "n = a * b" and "1 < a" and "1 < b" and "a < n" and "b < n"
proof -
  from assms obtain d where d: "1 < d" "d dvd n" "d \<noteq> n" by (auto simp: is_prime_def)
  then obtain b where b: "n = d * b" by auto
  have "0 < b" using assms(1) b d(1) by (metis less_trans zero_less_mult_pos zero_less_one)
  moreover have "b \<noteq> 1" using b d(3) by auto
  ultimately have "1 < b" by simp
  with d(1) b have "d < n" "b < n" by simp_all
  with that b d(1) \<open>1 < b\<close> show ?thesis by blast
qed

lemma prime_square: "no_divisor_below d n \<Longrightarrow> n < d * d \<Longrightarrow> 1 < n \<Longrightarrow> 0 < d \<Longrightarrow> is_prime n"
proof (rule ccontr)
  assume a: "no_divisor_below d n" "n < d * d" "1 < n" "0 < d" "\<not> is_prime n"
  obtain x y where xy: "n = x * y" "1 < x" "1 < y" by (rule composite_split [OF a(3,5)])
  have "x dvd n" "y dvd n" by (simp_all add: xy(1))
  with a(1) xy(2,3) have "d \<le> x" "d \<le> y" unfolding no_divisor_below_def by (meson not_le)+
  then have "d * d \<le> x * y" using a(4) xy by (intro mult_mono) auto
  with a(2) xy(1) show False by simp
qed

lemma go_gcd_gcd: "0 \<le> a \<Longrightarrow> 0 \<le> b \<Longrightarrow> go_gcd a b = gcd a b"
proof (induction a b rule: go_gcd.induct)
  case (1 a b)
  show ?case
  proof (cases "b = 0")
    case True
    with 1 show ?thesis by (simp add: go_gcd.simps [of a 0])
  next
    case False
    with 1 have "go_gcd b (a mod b) = gcd b (a mod b)" by simp
    with False show ?thesis by (simp add: go_gcd.simps [of a b] gcd.commute gcd_red_int [symmetric])
  qed
qed

section \<open>Trial division finds the small primes\<close>

lemma divide_out_correct:
  assumes "2 \<le> p" and "1 \<le> n" and "divide_out p n = (ps, m)"
  shows "prod_list ps * m = n \<and> 1 \<le> m \<and> \<not> p dvd m \<and> set ps \<subseteq> {p} \<and> (ps \<noteq> [] \<longrightarrow> p dvd n)"
  using assms
proof (induction p n arbitrary: ps rule: divide_out.induct)
  case (1 p n)
  show ?case
  proof (cases "n mod p = 0")
    case False
    with 1 show ?thesis by (simp add: divide_out.simps [of p n] dvd_eq_mod_eq_0)
  next
    case True
    then have k: "p * (n div p) = n" by (simp add: dvd_eq_mod_eq_0 [symmetric])
    have k1: "1 \<le> n div p"
      using 1(2,3) True by (simp add: dvd_eq_mod_eq_0 [symmetric] pos_imp_zdiv_pos_iff zdvd_imp_le int_one_le_iff_zero_less)
    obtain qs where qs: "divide_out p (n div p) = (qs, m)" "ps = p # qs"
      using 1(2-4) True by (auto simp: divide_out.simps [of p n] split: prod.splits)
    have r: "prod_list qs * m = n div p" "1 \<le> m" "\<not> p dvd m" "set qs \<subseteq> {p}"
      using 1(1) [OF _ 1(2) k1 qs(1)] 1(2,3) True by simp_all
    have "prod_list ps * m = p * (prod_list qs * m)" by (simp add: qs(2))
    also have "\<dots> = n" using r(1) k by simp
    finally show ?thesis using r(2-4) qs(2) True by (simp add: dvd_eq_mod_eq_0)
  qed
qed

definition coprime30 :: "int \<Rightarrow> bool" where
  "coprime30 n \<longleftrightarrow> \<not> 2 dvd n \<and> \<not> 3 dvd n \<and> \<not> 5 dvd n"

definition wheel_res :: "int list" where
  "wheel_res = [7, 11, 13, 17, 19, 23, 29, 1]"

lemma less_8: "i < (8 :: nat) \<Longrightarrow> i \<in> {0, 1, 2, 3, 4, 5, 6, 7}"
  by auto

lemma wheel_gap:
  assumes "i < 8" and "d mod 30 = wheel_res ! i" and "d < e" and "e < d + wheel_inc ! (i mod 8)"
  shows "2 dvd e \<or> 3 dvd e \<or> 5 dvd e"
proof -
  define k where "k = e - d"
  have "wheel_inc ! (i mod 8) \<le> 6" using less_8 [OF assms(1)] by (auto simp: wheel_inc_def)
  with assms(3,4) have k: "k = 1 \<or> k = 2 \<or> k = 3 \<or> k = 4 \<or> k = 5" and kl: "k < wheel_inc ! (i mod 8)"
    by (auto simp: k_def)
  have "e mod 30 = (d mod 30 + k) mod 30" by (simp add: k_def mod_add_left_eq)
  then have em: "e mod 30 = (wheel_res ! i + k) mod 30" using assms(2) by simp
  have "2 dvd e mod 30 \<or> 3 dvd e mod 30 \<or> 5 dvd e mod 30"
    unfolding em using less_8 [OF assms(1)] k kl by (auto simp: wheel_res_def wheel_inc_def)
  then show ?thesis by (auto simp: dvd_mod_iff)
qed

lemma wheel_next:
  assumes "i < 8" and "d mod 30 = wheel_res ! i"
  shows "(d + wheel_inc ! (i mod 8)) mod 30 = wheel_res ! ((i + 1) mod 8)"
proof -
  have "(d + wheel_inc ! (i mod 8)) mod 30 = (wheel_res ! i + wheel_inc ! (i mod 8)) mod 30"
    using assms(2) by (metis mod_add_left_eq)
  also have "\<dots> = wheel_res ! ((i + 1) mod 8)"
    using less_8 [OF assms(1)] by (auto simp: wheel_res_def wheel_inc_def)
  finally show ?thesis .
qed

lemma dvd_factor: "prod_list ps * m = (n :: int) \<Longrightarrow> e dvd m \<Longrightarrow> e dvd n"
  by auto

lemma wheel_step:
  assumes "i < 8" and "d mod 30 = wheel_res ! i" and "no_divisor_below d m" and "\<not> d dvd m" and "coprime30 m"
  shows "no_divisor_below (d + wheel_inc ! (i mod 8)) m"
  unfolding no_divisor_below_def
proof (intro allI impI)
  fix e assume e: "1 < e" "e < d + wheel_inc ! (i mod 8)"
  show "\<not> e dvd m"
  proof (cases "e \<le> d")
    case True
    with assms(3,4) e show ?thesis by (cases "e = d") (auto simp: no_divisor_below_def)
  next
    case False
    with wheel_gap [OF assms(1,2) _ e(2)] have "2 dvd e \<or> 3 dvd e \<or> 5 dvd e" by simp
    with assms(5) show ?thesis unfolding coprime30_def by (meson dvd_trans)
  qed
qed

text \<open>What is left after trial division: 1, a prime, or a number without small divisors.\<close>

definition cofactor_ok :: "int \<Rightarrow> bool" where
  "cofactor_ok m \<longleftrightarrow> 1 \<le> m \<and> (m = 1 \<or> is_prime m \<or> no_divisor_below (trialDivisionLimit + 1) m)"

lemma wheel_correct:
  assumes "7 \<le> d" and "i < 8" and "d mod 30 = wheel_res ! i" and "1 \<le> n" and "coprime30 n" and "no_divisor_below d n"
    and "wheel d i n = (ps, m)"
  shows "prod_list ps * m = n \<and> list_all is_prime ps \<and> cofactor_ok m \<and> coprime30 m"
  using assms
proof (induction d i n arbitrary: ps rule: wheel.induct)
  case (1 d i n)
  show ?case
  proof (cases "d \<le> trialDivisionLimit \<and> d * d \<le> n")
    case False
    with 1 have [simp]: "ps = []" "m = n" by (simp_all add: wheel.simps [of d i n])
    have "cofactor_ok n"
    proof (cases "d \<le> trialDivisionLimit")
      case True
      with False have "n < d * d" by simp
      then have "n = 1 \<or> is_prime n" using prime_square [OF 1(7)] 1(2,5) by force
      with 1(5) show ?thesis by (auto simp: cofactor_ok_def)
    next
      case lim: False
      with 1(5,7) show ?thesis by (auto simp: cofactor_ok_def no_divisor_below_def)
    qed
    with 1 show ?thesis by simp
  next
    case True
    obtain qs k where qk: "divide_out d n = (qs, k)" by (cases "divide_out d n")
    obtain rs where rs: "wheel (d + wheel_inc ! (i mod 8)) ((i + 1) mod 8) k = (rs, m)" "ps = qs @ rs"
      using 1(8) True qk by (auto simp: wheel.simps [of d i n] split: prod.splits)
    have k: "prod_list qs * k = n" "1 \<le> k" "\<not> d dvd k" "set qs \<subseteq> {d}" "qs \<noteq> [] \<longrightarrow> d dvd n"
      using divide_out_correct [OF _ 1(5) qk] 1(2) by auto
    have c: "coprime30 k" and nb: "no_divisor_below d k"
      using 1(6,7) dvd_factor [OF k(1)] by (auto simp: coprime30_def no_divisor_below_def)
    have "qs \<noteq> [] \<longrightarrow> is_prime d" using prime_if_no_divisor [of d n] k(5) 1(2,7) by auto
    then have q: "list_all is_prime qs" using k(4) by (auto simp: list_all_iff)
    have "7 \<le> d + wheel_inc ! (i mod 8)" using wheel_inc_pos [of i] 1(2) by simp
    moreover have "(i + 1) mod 8 < 8" by simp
    moreover note wheel_next [OF 1(3,4)] k(2) c wheel_step [OF 1(3,4) nb k(3) c]
    ultimately have "prod_list rs * m = k \<and> list_all is_prime rs \<and> cofactor_ok m \<and> coprime30 m"
      using 1(1) [OF True qk [symmetric] refl] rs(1) by blast
    with q k(1) rs(2) show ?thesis by (auto simp: algebra_simps)
  qed
qed

section \<open>Pollard's rho\<close>

lemma rho_step_mod:
  assumes "0 \<le> c" and "c < n"
  shows "rho_step n c x = (x * x + c) mod n"
proof -
  have r: "0 \<le> x * x mod n" "x * x mod n < n" using assms by simp_all
  have "(x * x + c) mod n = (x * x mod n + c) mod n" by (simp add: mod_add_left_eq)
  also have "\<dots> = rho_step n c x"
  proof (cases "x * x mod n + c < n")
    case True
    with r assms show ?thesis by (simp add: rho_step_def addmod_def mulmod_def Let_def)
  next
    case False
    then have "(x * x mod n + c) mod n = (x * x mod n + c - n) mod n" by simp
    also have "\<dots> = x * x mod n + c - n" using False r assms by (intro mod_pos_pos_trivial) linarith+
    finally show ?thesis using False by (simp add: rho_step_def addmod_def mulmod_def Let_def)
  qed
  finally show ?thesis ..
qed

lemmas rho_cycle_induct = rho_cycle.raw_induct [rotated, of "(((n, c), x), y)" for n c x y,
  unfolded prod.case, consumes 1, case_names step]
lemmas rho_rounds_induct = rho_rounds.raw_induct [rotated, consumes 1, case_names step]
lemmas pollardFactors_induct = pollardFactors.raw_induct [rotated, consumes 1, case_names step]

lemma rho_cycle_divides:
  assumes "rho_cycle n c x y = Some d" and "0 < n"
  shows "d dvd n \<and> 1 < d"
  using assms
proof (induction rule: rho_cycle_induct)
  case (step rho n c x y d)
  let ?d = "go_gcd \<bar>rho_step n c x - rho_step n c (rho_step n c y)\<bar> n"
  show ?case
  proof (cases "?d = 1")
    case True
    with step show ?thesis by (simp add: Let_def)
  next
    case False
    have g: "?d = gcd \<bar>rho_step n c x - rho_step n c (rho_step n c y)\<bar> n" using step(3) by (intro go_gcd_gcd) simp_all
    from False step(2) have "d = ?d" by (simp add: Let_def)
    moreover have "0 < ?d" unfolding g using step(3) by (simp add: gcd_pos_int)
    moreover have "?d dvd n" unfolding g by simp
    ultimately show ?thesis using False by auto
  qed
qed

text \<open>Floyd's argument: some iterate meets the iterate of twice its index, where the loop ends.\<close>

lemma floyd:
  fixes f :: "'a \<Rightarrow> 'a"
  assumes "finite A" and "\<And>x. f x \<in> A"
  shows "\<exists>k > 0. (f ^^ k) x = (f ^^ (2 * k)) x"
proof -
  have "(\<lambda>i. (f ^^ Suc i) x) ` UNIV \<subseteq> A" using assms(2) by auto
  then have "finite ((\<lambda>i. (f ^^ Suc i) x) ` UNIV)" using assms(1) finite_subset by blast
  then have "\<not> inj (\<lambda>i. (f ^^ Suc i) x)" using finite_imageD infinite_UNIV_nat by blast
  then obtain i j where "(f ^^ Suc i) x = (f ^^ Suc j) x" "i \<noteq> j" by (auto simp: inj_def)
  then obtain a b where ab: "(f ^^ a) x = (f ^^ b) x" "a < b"
    by (metis Suc_less_eq nat_neq_iff)
  define p where "p = b - a"
  have step: "(f ^^ (k + p)) x = (f ^^ k) x" if "a \<le> k" for k
  proof -
    have e: "k + p = (k - a) + b" "(k - a) + a = k" using that ab(2) by (simp_all add: p_def)
    have "(f ^^ (k + p)) x = (f ^^ (k - a)) ((f ^^ a) x)" unfolding e(1) ab(1) by (simp only: funpow_add comp_apply)
    also have "\<dots> = (f ^^ ((k - a) + a)) x" by (simp only: funpow_add comp_apply)
    finally show ?thesis unfolding e(2) .
  qed
  have "(f ^^ (k + p * m)) x = (f ^^ k) x" if "a \<le> k" for k m
    using that
  proof (induction m)
    case (Suc m)
    have "(f ^^ (k + p * Suc m)) x = (f ^^ ((k + p * m) + p)) x" by (simp add: algebra_simps)
    also have "\<dots> = (f ^^ (k + p * m)) x" using Suc.prems by (intro step) simp
    finally show ?case using Suc by simp
  qed simp
  from this [of "p * (a + 1)" "a + 1"] have "(f ^^ (p * (a + 1) + p * (a + 1))) x = (f ^^ (p * (a + 1))) x"
    using ab(2) unfolding p_def by (metis add_leD1 le_add2 le_trans mult_le_mono1 nat_mult_1 zero_less_diff Suc_leI One_nat_def order_refl)
  moreover have "0 < p * (a + 1)" using ab(2) by (simp add: p_def)
  ultimately show ?thesis by (metis mult_2)
qed

lemma rho_cycle_returns:
  assumes "1 < n" and "0 \<le> c" and "c < n"
  shows "\<exists>d. rho_cycle n c x x = Some d"
proof -
  let ?f = "rho_step n c"
  have "?f z \<in> {0..<n}" for z using assms by (simp add: rho_step_mod)
  then obtain k where k: "0 < k" "(?f ^^ k) x = (?f ^^ (2 * k)) x"
    using floyd [of "{0..<n}" ?f x] by auto
  have "\<exists>d. rho_cycle n c ((?f ^^ j) x) ((?f ^^ (2 * j)) x) = Some d" if "j < k" for j
    using that
  proof (induction "k - j" arbitrary: j)
    case 0
    then show ?case by simp
  next
    case (Suc m)
    let ?x = "(?f ^^ Suc j) x" and ?y = "(?f ^^ (2 * Suc j)) x"
    show ?case
    proof (cases "Suc j = k")
      case True
      then have "\<bar>?x - ?y\<bar> = 0" using k(2) by simp
      then have "go_gcd \<bar>?x - ?y\<bar> n \<noteq> 1" using assms(1) go_gcd_gcd [of 0 n] by simp
      then show ?thesis by (subst rho_cycle.simps) (simp add: Let_def)
    next
      case False
      with Suc have "\<exists>d. rho_cycle n c ?x ?y = Some d" by (intro Suc.hyps(1)) auto
      then show ?thesis by (subst rho_cycle.simps) (simp add: Let_def)
    qed
  qed
  from this [of 0] k(1) show ?thesis by simp
qed

lemma rho_c_range: "1 < n \<Longrightarrow> 0 < rho_c n rng i \<and> rho_c n rng i < n"
  unfolding rho_c_def using pos_mod_bound [of "n - 1" "rng (2 * i + 1)"] pos_mod_sign [of "n - 1" "rng (2 * i + 1)"]
  by linarith

lemma rho_rounds_divides:
  assumes "rho_rounds n rng i = Some d" and "1 < n"
  shows "d dvd n \<and> 1 < d \<and> d \<noteq> n"
  using assms
proof (induction rule: rho_rounds_induct)
  case (step rho n rng i d)
  then obtain e where "rho_cycle n (rho_c n rng i) (rho_x n rng i) (rho_x n rng i) = Some e"
    and "(if e \<noteq> n then Some e else rho n rng (i + 1)) = Some d"
    by (auto simp: bind_eq_Some_conv)
  with step rho_cycle_divides [of n "rho_c n rng i" "rho_x n rng i" "rho_x n rng i" e] show ?case
    by (auto split: if_splits)
qed

lemma pollardRho_divides:
  assumes "pollardRho n rng = Some d" and "1 < n" and "\<not> is_prime n"
  shows "d dvd n \<and> 1 < d \<and> d \<noteq> n"
proof (cases "n mod 2 = 0")
  case True
  have "is_prime 2" by (auto simp: is_prime_def dest!: zdvd_imp_le)
  with True assms show ?thesis by (auto simp: pollardRho_def)
next
  case False
  with assms rho_rounds_divides show ?thesis by (simp add: pollardRho_def)
qed

lemma pollardFactors_correct:
  assumes "pollardFactors rng k n = Some r" and "1 \<le> n"
  shows "prod_list (fst r) = n \<and> list_all is_prime (fst r)"
  using assms
proof (induction rule: pollardFactors_induct)
  case (step pf rng k n r)
  show ?case
  proof (cases "n = 1 \<or> IsPrime n")
    case True
    with step show ?thesis by (auto simp: IsPrime_iff split: if_splits)
  next
    case False
    then have n: "1 < n" "\<not> is_prime n" using step(3) by (auto simp: IsPrime_iff)
    obtain d a b where d: "pollardRho n (rng k) = Some d" and a: "pf rng (k + 1) d = Some a"
      and b: "pf rng (snd a) (n div d) = Some b" and r: "r = (fst a @ fst b, snd b)"
      using step(2) False by (auto simp: bind_eq_Some_conv)
    from pollardRho_divides [OF d n] obtain e where e: "n = d * e" and d1: "1 < d" by auto
    with n have "1 \<le> e" by (metis int_one_le_iff_zero_less less_trans zero_less_mult_pos zero_less_one)
    moreover have "n div d = e" using e d1 by simp
    ultimately show ?thesis
      using step(1) [OF a] step(1) [OF b] r e d1 by auto
  qed
qed

section \<open>When the factorization returns\<close>

lemma rho_rounds_returns:
  assumes "1 < n" and "rho_cycle n (rho_c n rng j) (rho_x n rng j) (rho_x n rng j) = Some d" and "d \<noteq> n"
  shows "i \<le> j \<Longrightarrow> \<exists>e. rho_rounds n rng i = Some e"
proof (induction "j - i" arbitrary: i)
  case 0
  then have "i = j" by simp
  with assms(2,3) show ?case by (subst rho_rounds.simps) simp
next
  case (Suc m)
  obtain e where e: "rho_cycle n (rho_c n rng i) (rho_x n rng i) (rho_x n rng i) = Some e"
    using rho_cycle_returns [of n "rho_c n rng i"] rho_c_range [OF assms(1), of rng i] assms(1) by auto
  have "\<exists>e. rho_rounds n rng (i + 1) = Some e" using Suc by (intro Suc.hyps(1)) auto
  then show ?case by (subst rho_rounds.simps) (simp add: e)
qed

text \<open>With \<open>x = 2\<close> and \<open>c = p - 2\<close> the sequence is constant modulo \<open>p\<close> from its first step on.\<close>

lemma first_gcd:
  assumes "n = p * q" and "4 < p" and "4 < q"
  shows "go_gcd \<bar>rho_step n (p - 2) 2 - rho_step n (p - 2) (rho_step n (p - 2) 2)\<bar> n = p * gcd (p + 4) q"
proof -
  have "p * 5 \<le> p * q" using assms(2,3) by (intro mult_left_mono) simp_all
  then have n: "5 * p \<le> n" using assms(1) by simp
  have x: "rho_step n (p - 2) 2 = p + 2" using n assms(2) by (simp add: rho_step_mod)
  have y: "rho_step n (p - 2) (p + 2) = (p * p + 5 * p + 2) mod n"
    using n assms(2) by (simp add: rho_step_mod algebra_simps)
  let ?z = "(p + 2) - (p * p + 5 * p + 2) mod n"
  have "gcd ?z n = gcd (?z mod n) n" using gcd_red_int [of ?z n] by (simp only: gcd.commute [of n])
  also have "?z mod n = ((p + 2) - (p * p + 5 * p + 2)) mod n" by (rule mod_diff_right_eq)
  also have "(p + 2) - (p * p + 5 * p + 2) = - (p * (p + 4))" by (simp add: algebra_simps)
  also have "gcd (- (p * (p + 4)) mod n) n = gcd (p * (p + 4)) n"
    using gcd_red_int [of "- (p * (p + 4))" n] by (simp only: gcd.commute [of n] gcd_neg1_int)
  also have "\<dots> = p * gcd (p + 4) q" using assms(2) by (simp add: assms(1) gcd_mult_left)
  finally have "gcd ?z n = p * gcd (p + 4) q" .
  then show ?thesis using n assms(2) by (simp add: x y go_gcd_gcd)
qed

lemma good_factor:
  assumes "n = p * q" and "4 < p" and "4 < q" and "\<not> 2 dvd p" and "\<not> 2 dvd q"
  shows "\<exists>a. 4 < a \<and> a < n \<and> (\<exists>d. d \<noteq> n \<and> rho_cycle n (a - 2) 2 2 = Some d)"
proof -
  have aux: "\<exists>d. d \<noteq> n \<and> rho_cycle n (a - 2) 2 2 = Some d"
    if a: "n = a * b" "4 < a" "4 < b" "\<not> b dvd a + 4" for a b
  proof -
    have "gcd (a + 4) b \<noteq> b" using a(4) by (metis gcd_dvd1)
    then have "a * gcd (a + 4) b \<noteq> n" "a * gcd (a + 4) b \<noteq> 1"
      using a(1,2) by (auto simp: zmult_eq_1_iff)
    then show ?thesis
      using first_gcd [OF a(1-3)] by (subst rho_cycle.simps) (simp add: Let_def)
  qed
  have lt: "p < n" "q < n" using assms(1-3) by simp_all
  show ?thesis
  proof (cases "q dvd p + 4 \<and> p dvd q + 4")
    case False
    then show ?thesis using aux [of p q] aux [of q p] assms(1-3) lt by (auto simp: mult.commute)
  next
    case True
    have False if "x dvd y + 4" "y dvd x + 4" "x \<le> y" "4 < x" "\<not> 2 dvd x" for x y :: int
    proof -
      from that(2) obtain k where k: "x + 4 = y * k" by auto
      have "0 < k" using k that(3,4) by (metis add_pos_pos less_trans not_le order.strict_trans1 zero_less_mult_pos zero_less_numeral)
      moreover have "k < 2"
      proof (rule ccontr)
        assume "\<not> k < 2"
        then have "y * 2 \<le> y * k" using that(3,4) by (intro mult_left_mono) simp_all
        with k that(3,4) show False by simp
      qed
      ultimately have "y = x + 4" using k by simp
      then have "x dvd 8" using that(1) by (simp add: dvd_add_right_iff add.assoc)
      then have "x \<in> {5, 6, 7, 8}" using zdvd_imp_le [of x 8] that(4) by auto
      with \<open>x dvd 8\<close> that(5) show False by auto
    qed
    with True assms show ?thesis by (metis linear)
  qed
qed

lemma collect_split:
  assumes "2 \<le> n" and "\<not> IsPrime n"
  obtains primes m where "prod_list primes * m = n" and "list_all is_prime primes" and "cofactor_ok m"
    and "coprime30 m" and "\<forall>rng. collectPrimes rng n =
      (if m = 1 then Some primes else map_option (\<lambda>r. primes @ fst r) (pollardFactors rng 0 m))"
proof -
  obtain p2 n2 where a2: "divide_out 2 n = (p2, n2)" by (cases "divide_out 2 n")
  obtain p3 n3 where a3: "divide_out 3 n2 = (p3, n3)" by (cases "divide_out 3 n2")
  obtain p5 n5 where a5: "divide_out 5 n3 = (p5, n5)" by (cases "divide_out 5 n3")
  obtain pw m where w: "wheel 7 0 n5 = (pw, m)" by (cases "wheel 7 0 n5")
  have b2: "prod_list p2 * n2 = n" "1 \<le> n2" "\<not> 2 dvd n2" "set p2 \<subseteq> {2}"
    using divide_out_correct [OF _ _ a2] assms(1) by auto
  have b3: "prod_list p3 * n3 = n2" "1 \<le> n3" "\<not> 3 dvd n3" "set p3 \<subseteq> {3}"
    using divide_out_correct [OF _ b2(2) a3] by auto
  have b5: "prod_list p5 * n5 = n3" "1 \<le> n5" "\<not> 5 dvd n5" "set p5 \<subseteq> {5}"
    using divide_out_correct [OF _ b3(2) a5] by auto
  have c: "coprime30 n5"
    unfolding coprime30_def using b2(3) b3(3) b5(3) dvd_factor [OF b3(1)] dvd_factor [OF b5(1)] by blast
  have "no_divisor_below 7 n5"
    unfolding no_divisor_below_def
  proof (intro allI impI)
    fix e :: int assume "1 < e" "e < 7"
    then have "2 dvd e \<or> 3 dvd e \<or> 5 dvd e" by presburger
    with c show "\<not> e dvd n5" unfolding coprime30_def by (meson dvd_trans)
  qed
  then have bw: "prod_list pw * m = n5" "list_all is_prime pw" "cofactor_ok m" "coprime30 m"
    using wheel_correct [OF _ _ _ b5(2) c _ w] by (auto simp: wheel_res_def)
  have "is_prime 2" "is_prime 3" "is_prime 5"
    by (simp_all add: IsPrime_iff [symmetric] IsPrime_def ProbablyPrime_def upto.simps)
  then have "list_all is_prime (p2 @ p3 @ p5 @ pw)"
    using b2(4) b3(4) b5(4) bw(2) by (auto simp: list_all_iff)
  moreover have "prod_list (p2 @ p3 @ p5 @ pw) * m = n"
    using b2(1) b3(1) b5(1) bw(1) by (simp add: mult.assoc)
  ultimately show ?thesis
    using that [of "p2 @ p3 @ p5 @ pw" m] bw(3,4) assms(2) a2 a3 a5 w by (simp add: collectPrimes_def)
qed

lemma collectPrimes_correct:
  assumes "2 \<le> n" and "collectPrimes rng n = Some ps"
  shows "prod_list ps = n \<and> list_all is_prime ps"
proof (cases "IsPrime n")
  case True
  with assms(2) show ?thesis by (auto simp: collectPrimes_def IsPrime_iff)
next
  case False
  with assms(1) obtain primes m where m: "prod_list primes * m = n" "list_all is_prime primes" "cofactor_ok m"
    and c: "collectPrimes rng n = (if m = 1 then Some primes else map_option (\<lambda>r. primes @ fst r) (pollardFactors rng 0 m))"
    by (elim collect_split) auto
  show ?thesis
  proof (cases "m = 1")
    case True
    with m c assms(2) show ?thesis by auto
  next
    case False
    with c assms(2) have "map_option (\<lambda>r. primes @ fst r) (pollardFactors rng 0 m) = Some ps" by simp
    then obtain r where r: "pollardFactors rng 0 m = Some r" "ps = primes @ fst r" by auto
    with pollardFactors_correct [OF r(1)] m show ?thesis by (auto simp: cofactor_ok_def)
  qed
qed

text \<open>A cofactor has at most two prime factors, so the rho method splits it at most once.\<close>

definition large_composite :: "int \<Rightarrow> bool" where
  "large_composite m \<longleftrightarrow>
     1 < m \<and> \<not> is_prime m \<and> no_divisor_below (trialDivisionLimit + 1) m \<and> m \<le> MaxSafeInput"

lemma large_factors:
  assumes "large_composite m" and "m = d * e" and "1 < d" and "1 < e"
  shows "is_prime d \<and> trialDivisionLimit < d"
proof -
  have big: "trialDivisionLimit < x" if "1 < x" "x dvd m" for x
  proof -
    have "\<not> x < trialDivisionLimit + 1" using assms(1) that unfolding large_composite_def no_divisor_below_def by blast
    then show ?thesis by simp
  qed
  have "is_prime d"
  proof (rule ccontr)
    assume "\<not> is_prime d"
    then obtain a b where ab: "d = a * b" "1 < a" "1 < b" by (rule composite_split [OF assms(3)])
    have "trialDivisionLimit < a" "trialDivisionLimit < b" "trialDivisionLimit < e"
      using ab assms by (auto intro!: big)
    then have "trialDivisionLimit * trialDivisionLimit \<le> a * b" "trialDivisionLimit \<le> e"
      using ab(2,3) mult_mono [of trialDivisionLimit a trialDivisionLimit b]
      by (simp_all add: trialDivisionLimit_def)
    then have "(trialDivisionLimit * trialDivisionLimit) * trialDivisionLimit \<le> (a * b) * e"
      using mult_mono [of "trialDivisionLimit * trialDivisionLimit" "a * b" trialDivisionLimit e] ab(2,3)
      by (simp add: trialDivisionLimit_def)
    then have "(trialDivisionLimit * trialDivisionLimit) * trialDivisionLimit \<le> m" using ab(1) assms(2) by simp
    then show False using assms(1) by (simp add: large_composite_def MaxSafeInput_def trialDivisionLimit_def)
  qed
  with big [OF assms(3)] assms(2) show ?thesis by simp
qed

lemma large_split:
  assumes "large_composite m"
  obtains p q where "m = p * q" and "is_prime p" and "is_prime q" and "trialDivisionLimit < p" and "trialDivisionLimit < q"
proof -
  obtain p q where pq: "m = p * q" "1 < p" "1 < q"
    using assms unfolding large_composite_def by (metis composite_split)
  with large_factors [OF assms pq] large_factors [OF assms, of q p] that show ?thesis
    by (simp add: mult.commute)
qed

lemma large_exceeds: "large_composite m \<Longrightarrow> trialDivisionLimit * trialDivisionLimit < m"
proof (elim large_split)
  fix p q assume a: "m = p * q" "trialDivisionLimit < p" "trialDivisionLimit < q"
  have "trialDivisionLimit * trialDivisionLimit < p * q"
    using a(2,3) by (intro mult_strict_mono) (auto simp: trialDivisionLimit_def)
  with a(1) show ?thesis by simp
qed

lemma pollardFactors_prime: "is_prime p \<Longrightarrow> pollardFactors rng k p = Some ([p], k)"
  using prime_gt_1 [of p] by (subst pollardFactors.simps) (simp add: IsPrime_iff)

lemma large_returns:
  assumes "large_composite m" and "pollardRho m (rng k) = Some d"
  shows "\<exists>r. pollardFactors rng k m = Some r"
proof -
  have m: "1 < m" "\<not> is_prime m" using assms(1) by (simp_all add: large_composite_def)
  obtain e where e: "m = d * e" "1 < d" "d \<noteq> m" using pollardRho_divides [OF assms(2) m] by auto
  have "0 < e" using e m(1) by (metis less_trans zero_less_mult_pos zero_less_one)
  with e have "1 < e" by (cases "e = 1") auto
  with large_factors [OF assms(1) e(1,2)] large_factors [OF assms(1), of e d] e
  have "is_prime d" "is_prime e" by (simp_all add: mult.commute)
  moreover have "m div d = e" using e by simp
  ultimately show ?thesis
    using m assms(2) by (subst pollardFactors.simps) (simp add: IsPrime_iff pollardFactors_prime)
qed

text \<open>There is a pair of draws that splits a large composite in its round, so a source that ever makes it
  ends the loop.\<close>

lemma large_lucky:
  assumes "large_composite m"
  shows "\<exists>b. 0 \<le> b \<and> b < m \<and> (\<forall>rng i. rng (2 * i) = 0 \<and> rng (2 * i + 1) = b \<longrightarrow> pollardRho m rng \<noteq> None)"
proof -
  obtain p q where pq: "m = p * q" "trialDivisionLimit < p" "trialDivisionLimit < q" by (rule large_split [OF assms])
  have m: "1 < m" and nd: "no_divisor_below (trialDivisionLimit + 1) m"
    using assms by (auto simp: large_composite_def)
  have "\<not> 2 dvd m" using nd unfolding no_divisor_below_def by (auto simp: trialDivisionLimit_def)
  then have "\<not> 2 dvd p" "\<not> 2 dvd q" using pq(1) by auto
  then obtain a d where a: "4 < a" "a < m" "d \<noteq> m" "rho_cycle m (a - 2) 2 2 = Some d"
    using good_factor [OF pq(1)] pq(2,3) by (auto simp: trialDivisionLimit_def)
  have "pollardRho m rng \<noteq> None" if "rng (2 * i) = 0" "rng (2 * i + 1) = a - 3" for rng i
  proof -
    have "rho_x m rng i = 2" "rho_c m rng i = a - 2" using that a(1,2) by (simp_all add: rho_x_def rho_c_def)
    with rho_rounds_returns [OF m, of rng i d 0] a(3,4) show ?thesis by (auto simp: pollardRho_def)
  qed
  with a(1,2) show ?thesis by (intro exI [of _ "a - 3"]) auto
qed

lemma cofactor_cases:
  assumes "cofactor_ok m" and "m \<le> MaxSafeInput"
  shows "m = 1 \<or> is_prime m \<or> large_composite m"
  using assms by (auto simp: cofactor_ok_def large_composite_def)

section \<open>Sorting and counting\<close>

lemma insort_snoc: "x < y \<Longrightarrow> insort x (ys @ [y]) = insort x ys @ [y]" for x :: int
  by (induction ys) auto

lemma insort_last: "\<forall>y \<in> set ys. y \<le> x \<Longrightarrow> sorted ys \<Longrightarrow> insort x ys = ys @ [x]" for x :: int
  by (induction ys) (auto simp: insort_is_Cons intro: antisym)

lemma sink_insort:
  "j < length xs \<Longrightarrow> sorted (take j xs) \<Longrightarrow> sink xs j = insort (xs ! j) (take j xs) @ drop (Suc j) xs"
proof (induction j arbitrary: xs)
  case 0
  then show ?case by (cases xs) simp_all
next
  case (Suc j)
  have t: "take (Suc j) xs = take j xs @ [xs ! j]" using Suc.prems(1) by (simp add: take_Suc_conv_app_nth)
  show ?case
  proof (cases "xs ! Suc j < xs ! j")
    case True
    let ?ys = "xs[Suc j := xs ! j, j := xs ! Suc j]"
    have d: "drop (Suc j) ?ys = xs ! j # drop (Suc (Suc j)) xs"
      using Suc.prems(1) by (simp add: drop_update_swap drop_update_cancel Cons_nth_drop_Suc [symmetric])
    have "sink ?ys j = insort (xs ! Suc j) (take j xs) @ drop (Suc j) ?ys"
      using Suc.IH [of ?ys] Suc.prems by (simp add: t sorted_append)
    also have "\<dots> = insort (xs ! Suc j) (take (Suc j) xs) @ drop (Suc (Suc j)) xs"
      unfolding d t using True by (simp add: insort_snoc)
    finally show ?thesis using True by simp
  next
    case False
    have "\<forall>y \<in> set (take (Suc j) xs). y \<le> xs ! Suc j"
      using False Suc.prems(2) unfolding t by (auto simp: sorted_append)
    with Suc.prems have "insort (xs ! Suc j) (take (Suc j) xs) = take (Suc j) xs @ [xs ! Suc j]"
      by (intro insort_last)
    with False Suc.prems(1) show ?thesis by (simp add: Cons_nth_drop_Suc)
  qed
qed

lemma sort_snoc: "sort (xs @ [x]) = insort x (sort xs)" for x :: int
  by (rule properties_for_sort) (simp_all add: sorted_insort)

lemma insertion_sort_prefix:
  "1 \<le> k \<Longrightarrow> k \<le> length xs \<Longrightarrow> fold (\<lambda>i ys. sink ys i) [1..<k] xs = sort (take k xs) @ drop k xs"
proof (induction k rule: dec_induct)
  case base
  then show ?case by (cases xs) simp_all
next
  case (step k)
  let ?ys = "sort (take k xs) @ drop k xs"
  have "fold (\<lambda>i ys. sink ys i) [1..<Suc k] xs = sink ?ys k" using step by simp
  also have "\<dots> = insort (?ys ! k) (take k ?ys) @ drop (Suc k) ?ys"
    using step by (intro sink_insort) (simp_all add: nth_append)
  also have "\<dots> = sort (take (Suc k) xs) @ drop (Suc k) xs"
    using step by (simp add: nth_append take_Suc_conv_app_nth sort_snoc)
  finally show ?case .
qed

lemma insertion_sort_sort: "insertion_sort xs = sort xs"
proof (cases "xs = []")
  case True
  then show ?thesis by (simp add: insertion_sort_def)
next
  case False
  then show ?thesis using insertion_sort_prefix [of "length xs" xs] by (simp add: insertion_sort_def Suc_le_eq)
qed

definition expand :: "factor list \<Rightarrow> int list" where
  "expand fs = concat (map (\<lambda>f. replicate (nat (Exp f)) (Prime f)) fs)"

definition counted :: "int list \<Rightarrow> factor list \<Rightarrow> bool" where
  "counted ps fs \<longleftrightarrow> expand fs = ps \<and> (\<forall>f \<in> set fs. 1 \<le> Exp f) \<and> sorted_wrt (<) (map Prime fs)"

lemma expand_mem: "counted ps fs \<Longrightarrow> f \<in> set fs \<Longrightarrow> Prime f \<in> set ps"
  by (force simp: expand_def counted_def)

lemma counted_add:
  assumes "counted ps fs" and "\<forall>q \<in> set ps. q \<le> p"
  shows "counted (ps @ [p]) (add_factor p fs)"
proof (cases "fs \<noteq> [] \<and> Prime (last fs) = p")
  case True
  then obtain gs g where g: "fs = gs @ [g]" "Prime g = p" by (cases fs rule: rev_cases) auto
  have "nat (Exp g + 1) = Suc (nat (Exp g))" using assms(1) g(1) by (auto simp: counted_def nat_add_distrib)
  then have "replicate (nat (Exp g + 1)) p = replicate (nat (Exp g)) p @ [p]"
    by (simp add: replicate_append_same)
  with assms(1) g show ?thesis
    by (auto simp: counted_def expand_def add_factor_def sorted_wrt_append)
next
  case False
  have "Prime f < p" if "f \<in> set fs" for f
  proof -
    from that obtain gs g where g: "fs = gs @ [g]" by (cases fs rule: rev_cases) auto
    have "Prime g \<noteq> p" using False g by simp
    moreover have "Prime g \<le> p" using expand_mem [OF assms(1), of g] g assms(2) by simp
    moreover have "Prime f \<le> Prime g" using that g assms(1) by (auto simp: counted_def sorted_wrt_append)
    ultimately show ?thesis by simp
  qed
  with False assms(1) show ?thesis
    by (auto simp: counted_def expand_def add_factor_def sorted_wrt_append)
qed

lemma counted_fold: "sorted ps \<Longrightarrow> counted ps (fold add_factor ps [])"
proof (induction ps rule: rev_induct)
  case Nil
  then show ?case by (simp add: counted_def expand_def)
next
  case (snoc p ps)
  then show ?case using counted_add [of ps "fold add_factor ps []" p] by (simp add: sorted_append)
qed

lemma counted_buildFactors: "counted (sort ps) (buildFactors ps)"
  unfolding buildFactors_def insertion_sort_sort by (rule counted_fold) simp

lemma prod_list_expand: "prod_list (expand fs) = prod_list (map (\<lambda>f. Prime f ^ nat (Exp f)) fs)"
proof (induction fs)
  case (Cons f fs)
  have "prod_list (replicate k (p :: int)) = p ^ k" for k p by (induction k) simp_all
  with Cons show ?case by (simp add: expand_def)
qed (simp add: expand_def)

section \<open>Properties\<close>

definition factorization_of :: "int \<Rightarrow> factorization \<Rightarrow> bool" where
  "factorization_of n v \<longleftrightarrow>
     FactN v = n \<and> prod_list (map (\<lambda>f. Prime f ^ nat (Exp f)) (Factors v)) = n
     \<and> (\<forall>f \<in> set (Factors v). is_prime (Prime f) \<and> 1 \<le> Exp f)
     \<and> sorted_wrt (<) (map Prime (Factors v)) \<and> (FactIsPrime v \<longleftrightarrow> is_prime n)"

lemma computed_correct:
  assumes "2 \<le> n" and "collectPrimes rng n = Some ps"
  shows "factorization_of n (computed now n ps)"
proof -
  have p: "prod_list ps = n" "list_all is_prime ps" using collectPrimes_correct [OF assms] by simp_all
  have c: "counted (sort ps) (buildFactors ps)" by (rule counted_buildFactors)
  have "prod_list (sort ps) = prod_list ps" by (simp flip: prod_mset_prod_list)
  then have prod: "prod_list (map (\<lambda>f. Prime f ^ nat (Exp f)) (buildFactors ps)) = n"
    using c p(1) prod_list_expand [of "buildFactors ps"] by (simp add: counted_def)
  have primes: "is_prime (Prime f)" if "f \<in> set (buildFactors ps)" for f
  proof -
    have "Prime f \<in> set ps" using expand_mem [OF c that] by simp
    with p(2) show ?thesis by (simp add: list_all_iff)
  qed
  have "length (buildFactors ps) = 1 \<and> Exp (hd (buildFactors ps)) = 1 \<longleftrightarrow> is_prime n"
  proof
    assume "length (buildFactors ps) = 1 \<and> Exp (hd (buildFactors ps)) = 1"
    then obtain f where "buildFactors ps = [f]" "Exp f = 1" by (cases "buildFactors ps") auto
    with prod primes show "is_prime n" by auto
  next
    assume "is_prime n"
    with assms(2) have "ps = [n]" by (simp add: collectPrimes_def IsPrime_iff)
    then show "length (buildFactors ps) = 1 \<and> Exp (hd (buildFactors ps)) = 1"
      by (simp add: buildFactors_def insertion_sort_def add_factor_def)
  qed
  with prod primes c show ?thesis by (auto simp: factorization_of_def computed_def Let_def counted_def)
qed

text \<open>The caches a factorizer can reach.\<close>

inductive factorizer_reaches :: "lru_cache \<Rightarrow> bool" where
  new: "factorizer_reaches (NewFactorizer sz)"
| call: "factorizer_reaches c \<Longrightarrow> Factorize now rng n c = Some (Ret (r, c')) \<Longrightarrow> factorizer_reaches c'"

definition good_cache :: "lru_cache \<Rightarrow> bool" where
  "good_cache c \<longleftrightarrow> (\<exists>cap xs. represents cap c xs \<and> (\<forall>(n, v) \<in> set xs. factorization_of n v))"

lemma factorization_of_cached: "factorization_of n v \<Longrightarrow> factorization_of n (v\<lparr>FromCache := b\<rparr>)"
  by (simp add: factorization_of_def)

lemma lru_del_subset: "set (lru_del k xs) \<subseteq> set xs"
  by (auto simp: lru_del_def)

lemma Factorize_good:
  assumes "good_cache c" and "Factorize now rng n c = Some r"
  shows "\<exists>v c'. r = Ret (v, c') \<and> good_cache c' \<and>
    (if 2 \<le> n \<and> n \<le> MaxSafeInput then \<exists>f. v = Inr f \<and> factorization_of n f else \<exists>e. v = Inl e)"
proof (cases "2 \<le> n \<and> n \<le> MaxSafeInput")
  case False
  with assms show ?thesis by (auto simp: Factorize_def split: if_splits)
next
  case True
  from assms(1) obtain cap xs where x: "represents cap c xs" "\<forall>(n, v) \<in> set xs. factorization_of n v"
    by (auto simp: good_cache_def)
  let ?g = "lru_get (\<lambda>_. True) n xs"
  obtain c1 where c1: "cache_get n c = Ret (fst ?g, c1)" "represents cap c1 (snd ?g)"
    using get_represents [OF x(1)] by blast
  show ?thesis
  proof (cases "map_of xs n")
    case (Some v)
    then have v: "(n, v) \<in> set xs" by (rule map_of_SomeD)
    then have "\<forall>(n, v) \<in> set (snd ?g). factorization_of n v"
      using x(2) Some lru_del_subset [of n xs] by (auto simp: lru_get_def)
    with c1(2) have "good_cache c1" by (auto simp: good_cache_def)
    moreover have "r = Ret (Inr (v\<lparr>FromCache := True\<rparr>), c1)"
      using assms(2) True c1(1) Some by (simp add: Factorize_def lru_get_def)
    ultimately show ?thesis using True v x(2) factorization_of_cached [of n v] by auto
  next
    case None
    then have "map_option (\<lambda>ps. go_then (cache_put n (computed now n ps) c1) (\<lambda>c2. Ret (Inr (computed now n ps), c2)))
        (collectPrimes rng n) = Some r"
      using assms(2) True c1(1) by (simp add: Factorize_def lru_get_def Let_def)
    then obtain ps where ps: "collectPrimes rng n = Some ps"
      and r: "r = go_then (cache_put n (computed now n ps) c1) (\<lambda>c2. Ret (Inr (computed now n ps), c2))" by auto
    have xs: "represents cap c1 xs" using c1(2) None by (simp add: lru_get_def)
    obtain c2 where c2: "cache_put n (computed now n ps) c1 = Ret c2" "represents cap c2 (lru_put cap n (computed now n ps) xs)"
      using put_represents [OF xs] by blast
    have f: "factorization_of n (computed now n ps)" using computed_correct [OF _ ps] True by simp
    have "set (lru_put cap n v xs) \<subseteq> insert (n, v) (set xs)" for v
      using lru_del_subset [of n xs] by (auto simp: lru_put_def dest: in_set_butlastD)
    then have "\<forall>(m, v) \<in> set (lru_put cap n (computed now n ps) xs). factorization_of m v" using x(2) f by blast
    with c2(2) have "good_cache c2" by (auto simp: good_cache_def)
    with r c2(1) f True show ?thesis by simp
  qed
qed

lemma reaches_good: "factorizer_reaches c \<Longrightarrow> good_cache c"
proof (induction rule: factorizer_reaches.induct)
  case (new sz)
  define k where "k = (if sz \<le> 0 then 1 else nat sz)"
  have "NewFactorizer sz = newLRUCache (int k)" "0 < k" by (simp_all add: NewFactorizer_def k_def)
  with newLRUCache_represents [of k] show ?case
    unfolding good_cache_def by (intro exI [of _ k] exI [of _ "[]"]) simp
next
  case (call c now rng n r c')
  with Factorize_good [OF call.IH call.hyps(2)] show ?case by auto
qed

text \<open>
  C17. A factorizer never answers wrongly, whatever its cache went through and whatever random numbers it
  draws: an input from 2 to \<open>10 ^ 15\<close> gets the list of its prime factors in increasing order with their
  exponents, and the primality of the input; any other input gets an error; nothing panics.
\<close>

theorem factorize_correct:
  assumes "factorizer_reaches c" and "Factorize now rng n c = Some r"
  shows "\<exists>v c'. r = Ret (v, c') \<and>
    (if 2 \<le> n \<and> n \<le> MaxSafeInput then \<exists>f. v = Inr f \<and> factorization_of n f else \<exists>e. v = Inl e)"
  using Factorize_good [OF reaches_good [OF assms(1)] assms(2)] by blast

text \<open>
  C18. A factorization returns: for every input up to \<open>10 ^ 12\<close> whatever the random numbers are, and for
  a larger one as soon as a certain pair of numbers, which depends on the input only, is drawn in some
  round of the first call of the rho method.
\<close>

theorem factorize_returns:
  assumes "2 \<le> n" and "n \<le> MaxSafeInput"
  shows "(n \<le> trialDivisionLimit * trialDivisionLimit \<longrightarrow> Factorize now rng n c \<noteq> None)
    \<and> (\<exists>b. 0 \<le> b \<and> b < n \<and> (\<forall>rng i. rng 0 (2 * i) = 0 \<and> rng 0 (2 * i + 1) = b \<longrightarrow> Factorize now rng n c \<noteq> None))"
proof -
  have F: "Factorize now rng n c \<noteq> None" if "collectPrimes rng n \<noteq> None" for rng
    using that by (auto simp: Factorize_def split: go.splits option.splits)
  show ?thesis
  proof (cases "IsPrime n")
    case True
    then have "collectPrimes rng n \<noteq> None" for rng by (simp add: collectPrimes_def)
    with F assms(1) show ?thesis by (intro conjI exI [of _ 0]) auto
  next
    case False
    obtain primes m where m: "prod_list primes * m = n" "list_all is_prime primes" "cofactor_ok m" "coprime30 m"
      and c: "\<forall>rng. collectPrimes rng n =
        (if m = 1 then Some primes else map_option (\<lambda>r. primes @ fst r) (pollardFactors rng 0 m))"
      by (rule collect_split [OF assms(1) False])
    have "1 \<le> m" using m(3) by (simp add: cofactor_ok_def)
    have "m dvd n" using m(1) by auto
    then have mn: "m \<le> n" using assms(1) by (intro zdvd_imp_le) simp_all
    show ?thesis
    proof (cases "large_composite m")
      case False
      then have "m = 1 \<or> is_prime m" using cofactor_cases [OF m(3)] mn assms(2) by simp
      then have "collectPrimes rng n \<noteq> None" for rng by (auto simp: c pollardFactors_prime)
      with F assms(1) show ?thesis by (intro conjI exI [of _ 0]) auto
    next
      case True
      then have "trialDivisionLimit * trialDivisionLimit < n" using large_exceeds [OF True] mn by simp
      moreover obtain b where b: "0 \<le> b" "b < m"
        "\<And>rng i. rng (2 * i) = 0 \<Longrightarrow> rng (2 * i + 1) = b \<Longrightarrow> pollardRho m rng \<noteq> None"
        using large_lucky [OF True] by blast
      moreover have "collectPrimes rng n \<noteq> None" if "rng 0 (2 * i) = 0" "rng 0 (2 * i + 1) = b" for rng i
      proof -
        from b(3) [of "rng 0", OF that] obtain d where "pollardRho m (rng 0) = Some d" by auto
        from large_returns [where rng = rng and k = 0, OF True this] obtain r where "pollardFactors rng 0 m = Some r" ..
        then show ?thesis by (simp add: c)
      qed
      ultimately show ?thesis using F mn by (intro conjI exI [of _ b]) auto
    qed
  qed
qed

lemma factorize_correct_witness:
  "\<exists>f c'. Factorize 0 (\<lambda>_ _. 0) 12 (NewFactorizer 5) = Some (Ret (Inr f, c')) \<and> factorization_of 12 f"
proof -
  have "collectPrimes (\<lambda>_ _. 0) 12 = Some [2, 2, 3]" by code_simp
  then obtain r where r: "Factorize 0 (\<lambda>_ _. 0) 12 (NewFactorizer 5) = Some r"
    by (auto simp: Factorize_def MaxSafeInput_def NewFactorizer_def newLRUCache_def cache_get_def)
  from factorize_correct [OF factorizer_reaches.new r] r show ?thesis by (auto simp: MaxSafeInput_def)
qed

lemma factorize_returns_witness:
  "Factorize 0 (\<lambda>_ _. 0) 999999999989 (NewFactorizer 1024) \<noteq> None"
  using factorize_returns [of 999999999989 0 "\<lambda>_ _. 0" "NewFactorizer 1024"]
  by (simp add: MaxSafeInput_def trialDivisionLimit_def)

end
