(* ===== verification/Embed_Cache.thy ===== *)
theory Embed_Cache
  imports LRU_Spec
begin

text \<open>
  The cache of embeddings, \<open>internal/embed/lru_cache.go\<close>: a Go map from keys to elements of a
  \<open>container/list\<close>, with an expiry time per entry. An element is an address, its value lives in a heap,
  and the list is the list of its addresses; removing or moving an element that is not in the list does
  nothing, as in the library. Times are nanoseconds. Each method holds the mutex and is one step.
\<close>

text \<open>A vector of float32 is the list of its JSON literals.\<close>

type_synonym embedding = "string list"

record cache_entry =
  ekey :: string
  evalue :: embedding
  expiresAt :: int

record embed_cache =
  ecapacity :: int
  ettl :: int
  elist :: "nat list"
  eheap :: "nat \<Rightarrow> cache_entry"
  eitems :: "(string \<times> nat) list"
  efresh :: nat

definition NewLRUCache :: "int \<Rightarrow> int \<Rightarrow> embed_cache" where
  "NewLRUCache capacity ttl =
     \<lparr>ecapacity = capacity, ettl = ttl, elist = [], eheap = (\<lambda>_. \<lparr>ekey = [], evalue = [], expiresAt = 0\<rparr>),
      eitems = [], efresh = 0\<rparr>"

definition list_remove :: "nat \<Rightarrow> nat list \<Rightarrow> nat list" where
  "list_remove e l = filter (\<lambda>x. x \<noteq> e) l"

definition list_to_front :: "nat \<Rightarrow> nat list \<Rightarrow> nat list" where
  "list_to_front e l = (if e \<in> set l then e # list_remove e l else l)"

definition embed_Get :: "int \<Rightarrow> string \<Rightarrow> embed_cache \<Rightarrow> embedding option \<times> embed_cache" where
  "embed_Get now key c =
     (case map_of (eitems c) key of
        None \<Rightarrow> (None, c)
      | Some e \<Rightarrow>
          if expiresAt (eheap c e) < now
          then (None, c\<lparr>elist := list_remove e (elist c), eitems := lru_del key (eitems c)\<rparr>)
          else (Some (evalue (eheap c e)), c\<lparr>elist := list_to_front e (elist c)\<rparr>))"

definition evict_oldest :: "embed_cache \<Rightarrow> embed_cache" where
  "evict_oldest c =
     (if ecapacity c \<le> int (length (elist c)) \<and> elist c \<noteq> []
      then (let oldest = last (elist c)
            in c\<lparr>elist := list_remove oldest (elist c), eitems := lru_del (ekey (eheap c oldest)) (eitems c)\<rparr>)
      else c)"

definition embed_Set :: "int \<Rightarrow> string \<Rightarrow> embedding \<Rightarrow> embed_cache \<Rightarrow> embed_cache" where
  "embed_Set now key val c =
     (case map_of (eitems c) key of
        Some e \<Rightarrow>
          c\<lparr>elist := list_to_front e (elist c),
            eheap := (eheap c)(e := (eheap c e)\<lparr>evalue := val, expiresAt := now + ettl c\<rparr>)\<rparr>
      | None \<Rightarrow>
          (let c1 = evict_oldest c; e = efresh c1
           in c1\<lparr>eheap := (eheap c1)(e := \<lparr>ekey = key, evalue = val, expiresAt = now + ettl c1\<rparr>),
                 elist := e # elist c1, eitems := (key, e) # lru_del key (eitems c1), efresh := e + 1\<rparr>))"

definition embed_Len :: "embed_cache \<Rightarrow> int" where
  "embed_Len c = int (length (elist c))"

section \<open>What a cache stands for\<close>

definition stored :: "cache_entry \<Rightarrow> string \<times> embedding \<times> int" where
  "stored e = (ekey e, evalue e, expiresAt e)"

definition recent :: "embed_cache \<Rightarrow> (string \<times> embedding \<times> int) list" where
  "recent c = map (\<lambda>e. stored (eheap c e)) (elist c)"

definition cache_ok :: "nat \<Rightarrow> int \<Rightarrow> embed_cache \<Rightarrow> bool" where
  "cache_ok cap ttl c \<longleftrightarrow>
     0 < cap \<and> ecapacity c = int cap \<and> ettl c = ttl \<and> lru_ok cap (recent c)
     \<and> distinct (elist c) \<and> (\<forall>e \<in> set (elist c). e < efresh c)
     \<and> distinct (map fst (eitems c)) \<and> set (eitems c) = (\<lambda>e. (ekey (eheap c e), e)) ` set (elist c)"

definition expiring :: "int \<Rightarrow> (int, embedding, embedding \<times> int) stamping" where
  "expiring ttl = \<lparr>stamp = (\<lambda>now v. (v, now + ttl)), content = fst, fresh = (\<lambda>now e. now \<le> snd e)\<rparr>"

lemma items_iff: "cache_ok cap ttl c \<Longrightarrow> map_of (eitems c) k = Some e \<longleftrightarrow> e \<in> set (elist c) \<and> ekey (eheap c e) = k"
  by (auto simp: cache_ok_def)

lemma items_None: "cache_ok cap ttl c \<Longrightarrow> map_of (eitems c) k = None \<longleftrightarrow> k \<notin> fst ` set (recent c)"
proof -
  assume ok: "cache_ok cap ttl c"
  have "fst ` set (eitems c) = fst ` set (recent c)"
    using ok by (simp add: cache_ok_def recent_def stored_def image_image)
  then show ?thesis by (simp only: map_of_eq_None_iff)
qed

lemma recent_remove:
  assumes "distinct (map (\<lambda>e. ekey (h e)) l)" and "e \<in> set l"
  shows "map (\<lambda>e. stored (h e)) (list_remove e l) = lru_del (ekey (h e)) (map (\<lambda>e. stored (h e)) l)"
proof -
  have "list_remove e l = filter (\<lambda>x. ekey (h x) \<noteq> ekey (h e)) l"
    unfolding list_remove_def using assms by (intro filter_cong) (auto simp: distinct_map inj_on_def)
  then show ?thesis by (simp add: lru_del_def filter_map comp_def stored_def)
qed

lemma keys_distinct: "cache_ok cap ttl c \<Longrightarrow> distinct (map (\<lambda>e. ekey (eheap c e)) (elist c))"
  by (simp add: cache_ok_def lru_ok_def recent_def stored_def comp_def)

lemma map_of_recent:
  assumes "cache_ok cap ttl c" and "map_of (eitems c) k = Some e"
  shows "map_of (recent c) k = Some (evalue (eheap c e), expiresAt (eheap c e))"
proof -
  have "e \<in> set (elist c)" "ekey (eheap c e) = k" using items_iff [OF assms(1)] assms(2) by simp_all
  then have "(k, evalue (eheap c e), expiresAt (eheap c e)) \<in> set (recent c)"
    by (force simp: recent_def stored_def)
  then show ?thesis using assms(1) by (auto simp: cache_ok_def lru_ok_def)
qed

lemma items_del:
  assumes "distinct (map fst m)" and "set m = (\<lambda>e. (ekey (h e), e)) ` set l" and "e \<in> set l"
    and "distinct (map (\<lambda>e. ekey (h e)) l)"
  shows "set (lru_del (ekey (h e)) m) = (\<lambda>e. (ekey (h e), e)) ` set (list_remove e l)"
proof -
  have "ekey (h x) = ekey (h e) \<longleftrightarrow> x = e" if "x \<in> set l" for x
    using that assms(3,4) by (auto simp: distinct_map inj_on_def)
  then show ?thesis using assms(2) by (auto simp: lru_del_def list_remove_def)
qed

lemma remove_ok:
  assumes "cache_ok cap ttl c" and "e \<in> set (elist c)"
  shows "cache_ok cap ttl (c\<lparr>elist := list_remove e (elist c), eitems := lru_del (ekey (eheap c e)) (eitems c)\<rparr>)"
    and "recent (c\<lparr>elist := list_remove e (elist c), eitems := lru_del (ekey (eheap c e)) (eitems c)\<rparr>)
      = lru_del (ekey (eheap c e)) (recent c)"
proof -
  have d: "distinct (map fst (recent c))" "lru_ok cap (recent c)" using assms(1) by (simp_all add: cache_ok_def lru_ok_def)
  show r: "recent (c\<lparr>elist := list_remove e (elist c), eitems := lru_del (ekey (eheap c e)) (eitems c)\<rparr>)
      = lru_del (ekey (eheap c e)) (recent c)"
    using recent_remove [OF keys_distinct [OF assms(1)] assms(2)] by (simp add: recent_def)
  have m: "distinct (map fst (eitems c))" "set (eitems c) = (\<lambda>e. (ekey (eheap c e), e)) ` set (elist c)"
    using assms(1) by (simp_all add: cache_ok_def)
  have "set (lru_del (ekey (eheap c e)) (eitems c)) = (\<lambda>e. (ekey (eheap c e), e)) ` set (list_remove e (elist c))"
    by (rule items_del [OF m assms(2) keys_distinct [OF assms(1)]])
  moreover have "distinct (map fst (lru_del (ekey (eheap c e)) (eitems c)))"
    using m(1) unfolding lru_del_def by (rule distinct_map_filter)
  ultimately show "cache_ok cap ttl (c\<lparr>elist := list_remove e (elist c), eitems := lru_del (ekey (eheap c e)) (eitems c)\<rparr>)"
    using assms(1) lru_ok_del [OF d(2)] unfolding cache_ok_def r by (auto simp: list_remove_def)
qed

text \<open>A present key: its entry goes to the front, with any new value and expiry.\<close>

lemma touch_ok:
  assumes "cache_ok cap ttl c" and "map_of (eitems c) k = Some e"
    and "c' = c\<lparr>elist := list_to_front e (elist c), eheap := (eheap c)(e := \<lparr>ekey = k, evalue = v, expiresAt = x\<rparr>)\<rparr>"
  shows "cache_ok cap ttl c' \<and> recent c' = (k, v, x) # lru_del k (recent c)"
proof -
  have e: "e \<in> set (elist c)" "ekey (eheap c e) = k" using items_iff [OF assms(1)] assms(2) by simp_all
  let ?h = "(eheap c)(e := \<lparr>ekey = k, evalue = v, expiresAt = x\<rparr>)"
  have "map (\<lambda>a. stored (?h a)) (list_remove e (elist c)) = map (\<lambda>a. stored (eheap c a)) (list_remove e (elist c))"
    by (rule map_cong) (auto simp: list_remove_def)
  also have "\<dots> = lru_del k (recent c)"
    using recent_remove [OF keys_distinct [OF assms(1)] e(1)] e(2) by (simp add: recent_def)
  finally have r: "recent c' = (k, v, x) # lru_del k (recent c)"
    using e(1) by (simp add: assms(3) recent_def list_to_front_def stored_def)
  have "k \<in> fst ` set (recent c)" using e by (force simp: recent_def stored_def)
  then have "lru_ok cap (recent c')"
    unfolding r using assms(1) by (intro lru_ok_front) (simp_all add: cache_ok_def)
  moreover have "set (elist c') = set (elist c)" "distinct (elist c')"
    using e(1) assms(1) by (auto simp: assms(3) list_to_front_def list_remove_def cache_ok_def)
  moreover have "(\<lambda>a. (ekey (?h a), a)) ` set (elist c) = (\<lambda>a. (ekey (eheap c a), a)) ` set (elist c)"
    by (rule image_cong) (use e(2) in auto)
  ultimately show ?thesis
    using assms(1) r by (simp add: cache_ok_def assms(3))
qed

lemma embed_Get_refines:
  assumes "cache_ok cap ttl c"
  shows "fst (embed_Get now k c) = map_option fst (fst (lru_get (\<lambda>e. now \<le> snd e) k (recent c)))
    \<and> cache_ok cap ttl (snd (embed_Get now k c))
    \<and> recent (snd (embed_Get now k c)) = snd (lru_get (\<lambda>e. now \<le> snd e) k (recent c))"
proof (cases "map_of (eitems c) k")
  case None
  with items_None [OF assms] have "map_of (recent c) k = None" by (simp add: map_of_eq_None_iff)
  with None assms show ?thesis by (simp add: embed_Get_def lru_get_def)
next
  case (Some e)
  have e: "e \<in> set (elist c)" "ekey (eheap c e) = k" using items_iff [OF assms] Some by simp_all
  have m: "map_of (recent c) k = Some (evalue (eheap c e), expiresAt (eheap c e))"
    by (rule map_of_recent [OF assms Some])
  show ?thesis
  proof (cases "expiresAt (eheap c e) < now")
    case True
    with Some m remove_ok [OF assms e(1)] e(2) show ?thesis by (simp add: embed_Get_def lru_get_def)
  next
    case False
    have "eheap c = (eheap c)(e := \<lparr>ekey = k, evalue = evalue (eheap c e), expiresAt = expiresAt (eheap c e)\<rparr>)"
      using e(2) by (auto simp: fun_eq_iff)
    then have "c\<lparr>elist := list_to_front e (elist c)\<rparr> = c\<lparr>elist := list_to_front e (elist c),
        eheap := (eheap c)(e := \<lparr>ekey = k, evalue = evalue (eheap c e), expiresAt = expiresAt (eheap c e)\<rparr>)\<rparr>" by simp
    from touch_ok [OF assms Some this] Some False m show ?thesis by (simp add: embed_Get_def lru_get_def)
  qed
qed

lemma evict_ok:
  assumes "cache_ok cap ttl c"
  shows "cache_ok cap ttl (evict_oldest c)
    \<and> recent (evict_oldest c) = (if length (recent c) < cap then recent c else butlast (recent c))
    \<and> eheap (evict_oldest c) = eheap c \<and> efresh (evict_oldest c) = efresh c \<and> ettl (evict_oldest c) = ttl"
proof (cases "length (recent c) < cap")
  case True
  with assms show ?thesis by (simp add: evict_oldest_def cache_ok_def recent_def)
next
  case False
  then have ne: "elist c \<noteq> []" using assms by (auto simp: cache_ok_def recent_def)
  then have l: "last (elist c) \<in> set (elist c)" by simp
  let ?c = "c\<lparr>elist := list_remove (last (elist c)) (elist c),
    eitems := lru_del (ekey (eheap c (last (elist c)))) (eitems c)\<rparr>"
  have e: "evict_oldest c = ?c"
    using False ne assms by (simp add: evict_oldest_def cache_ok_def recent_def Let_def)
  have "distinct (elist c)" using assms by (simp add: cache_ok_def)
  then have "list_remove (last (elist c)) (elist c) = butlast (elist c)"
    using ne by (cases "elist c" rule: rev_cases) (auto simp: list_remove_def filter_id_conv)
  then have "recent ?c = butlast (recent c)" by (simp add: recent_def map_butlast)
  with e False remove_ok(1) [OF assms l] assms show ?thesis by (simp add: cache_ok_def)
qed

lemma entry_update: "ekey a = k \<Longrightarrow> a\<lparr>evalue := v, expiresAt := t\<rparr> = \<lparr>ekey = k, evalue = v, expiresAt = t\<rparr>"
  by (cases a) simp

lemma embed_Set_refines:
  assumes "cache_ok cap ttl c"
  shows "cache_ok cap ttl (embed_Set now k v c) \<and> recent (embed_Set now k v c) = lru_put cap k (v, now + ttl) (recent c)"
proof (cases "map_of (eitems c) k")
  case (Some e)
  have e: "e \<in> set (elist c)" "ekey (eheap c e) = k" using items_iff [OF assms] Some by simp_all
  then have in_keys: "k \<in> fst ` set (recent c)" by (force simp: recent_def stored_def)
  have "embed_Set now k v c = c\<lparr>elist := list_to_front e (elist c),
      eheap := (eheap c)(e := \<lparr>ekey = k, evalue = v, expiresAt = now + ttl\<rparr>)\<rparr>"
    using Some entry_update [where v = v and t = "now + ettl c", OF e(2)] assms by (simp add: embed_Set_def cache_ok_def)
  from touch_ok [OF assms Some this] in_keys show ?thesis by (simp add: lru_put_def)
next
  case None
  then have k: "k \<notin> fst ` set (recent c)" using items_None [OF assms] by simp
  define c1 where "c1 = evict_oldest c"
  have c1: "cache_ok cap ttl c1" "recent c1 = (if length (recent c) < cap then recent c else butlast (recent c))"
    "ettl c1 = ttl"
    using evict_ok [OF assms] by (simp_all add: c1_def)
  have k1: "k \<notin> fst ` set (recent c1)" using k c1(2) by (auto dest: in_set_butlastD)
  then have ki: "k \<notin> fst ` set (eitems c1)"
    using items_None [OF c1(1), of k] map_of_eq_None_iff [of "eitems c1" k] by blast
  let ?e = "efresh c1"
  let ?h = "(eheap c1)(?e := \<lparr>ekey = k, evalue = v, expiresAt = now + ttl\<rparr>)"
  have old: "?e \<notin> set (elist c1)" using c1(1) by (auto simp: cache_ok_def)
  define c2 where "c2 = c1\<lparr>eheap := ?h, elist := ?e # elist c1, eitems := (k, ?e) # eitems c1, efresh := ?e + 1\<rparr>"
  have s: "embed_Set now k v c = c2"
    using None ki c1(3) by (simp add: embed_Set_def Let_def c1_def [symmetric] c2_def lru_del_notin)
  have h: "map (\<lambda>a. stored (?h a)) (elist c1) = recent c1"
    unfolding recent_def by (rule map_cong) (use old in auto)
  have r: "recent c2 = (k, v, now + ttl) # recent c1"
    using h by (simp add: c2_def recent_def stored_def)
  have "lru_put cap k (v, now + ttl) (recent c) = (k, v, now + ttl) # recent c1"
    using k c1(2) by (simp add: lru_put_def)
  moreover have "lru_ok cap (lru_put cap k (v, now + ttl) (recent c))"
    using assms by (intro lru_ok_put) (simp_all add: cache_ok_def)
  moreover have "(\<lambda>a. (ekey (?h a), a)) ` set (elist c1) = (\<lambda>a. (ekey (eheap c1 a), a)) ` set (elist c1)"
    by (rule image_cong) (use old in auto)
  ultimately show ?thesis
    using c1(1) r s old ki by (auto simp: cache_ok_def c2_def intro: less_SucI)
qed

interpretation ec: lru "\<lambda>now k c. Ret (embed_Get now k c)" "\<lambda>now k v c. Ret (embed_Set now k v c)"
  "\<lambda>c xs. cache_ok (Suc n) ttl c \<and> recent c = xs" "Suc n" "expiring ttl" for n ttl
proof unfold_locales
  show "\<exists>s'. Ret (embed_Get t k s) = Ret (map_option (content (expiring ttl)) (fst (lru_get (fresh (expiring ttl) t) k xs)), s')
    \<and> cache_ok (Suc n) ttl s' \<and> recent s' = snd (lru_get (fresh (expiring ttl) t) k xs)"
    if "cache_ok (Suc n) ttl s \<and> recent s = xs" for t k s xs
    using embed_Get_refines [of "Suc n" ttl s t k] that
    by (intro exI [of _ "snd (embed_Get t k s)"]) (auto simp: expiring_def prod_eq_iff)
  show "\<exists>s'. Ret (embed_Set t k v s) = Ret s' \<and> cache_ok (Suc n) ttl s'
      \<and> recent s' = lru_put (Suc n) k (stamp (expiring ttl) t v) xs"
    if "cache_ok (Suc n) ttl s \<and> recent s = xs" for t k v s xs
    using embed_Set_refines [of "Suc n" ttl s t k v] that by (auto simp: expiring_def)
qed (auto simp: cache_ok_def expiring_def)

lemma NewLRUCache_ok: "0 < cap \<Longrightarrow> cache_ok cap ttl (NewLRUCache (int cap) ttl) \<and> recent (NewLRUCache (int cap) ttl) = []"
  by (simp add: cache_ok_def NewLRUCache_def recent_def)

end
