(* ===== verification/Embed_Client.thy ===== *)
theory Embed_Client
  imports Embed_Cache Adapters
begin

text \<open>
  The HTTP client of the embedding service, \<open>internal/embed/client.go\<close>: a cache in front of a circuit
  breaker in front of the service. SHA-256 is a parameter that maps a text to its hexadecimal digest. The
  HTTP client and the clock are those of the adapters; a request that cannot be built is one that fails.
  The range of float32 is not checked.
\<close>

record embed_client =
  embedURL :: string
  embedBreaker :: ebreaker
  embedCache :: embed_cache

definition embedTTL :: int where
  "embedTTL = 5 * 60 * second"

definition NewHTTPEmbedClient :: "string \<Rightarrow> (ebreaker \<Rightarrow> ebreaker) list \<Rightarrow> embed_client" where
  "NewHTTPEmbedClient url opts =
     \<lparr>embedURL = url, embedBreaker = embed_NewCircuitBreaker opts, embedCache = NewLRUCache 1000 embedTTL\<rparr>"

definition embed_request :: "'w adapter_env \<Rightarrow> string \<Rightarrow> string \<Rightarrow> 'w \<Rightarrow> embedding result \<times> 'w" where
  "embed_request env url t w =
     (case http_do env \<lparr>Method = ''POST'', Url = url @ ''/embed'',
              Headers = [(''Content-Type'', ''application/json'')],
              ReqBody = json_print (JObj [(''text'', JStr t)])\<rparr> w of
        (Inl e, w1) \<Rightarrow> (Inl e, w1)
      | (Inr resp, w1) \<Rightarrow>
          if Status resp \<noteq> 200
          then (Inl (''embed service returned status '' @ dec_of_int (Status resp)), w1)
          else (result_bind (decode_obj (Body resp)) (list_field as_num ''embedding''), w1))"

definition Embed ::
  "'w adapter_env \<Rightarrow> (string \<Rightarrow> string) \<Rightarrow> string \<Rightarrow> embed_client \<times> 'w \<Rightarrow> embedding result \<times> (embed_client \<times> 'w)" where
  "Embed env sha256 t = (\<lambda>(c, w).
     let key = sha256 t; (hit, cache) = embed_Get (clock env w) key (embedCache c); c1 = c\<lparr>embedCache := cache\<rparr>
     in case hit of
       Some v \<Rightarrow> (Inr v, c1, w)
     | None \<Rightarrow>
         (case embed_Allow (clock env w) (embedBreaker c1) of
            (Some e, b) \<Rightarrow> (Inl e, c1\<lparr>embedBreaker := b\<rparr>, w)
          | (None, b) \<Rightarrow>
              (case embed_request env (embedURL c1) t w of
                 (Inl e, w1) \<Rightarrow> (Inl e, c1\<lparr>embedBreaker := embed_RecordFailure (clock env w1) b\<rparr>, w1)
               | (Inr v, w1) \<Rightarrow>
                   (Inr v, c1\<lparr>embedCache := embed_Set (clock env w1) key v (embedCache c1),
                              embedBreaker := embed_RecordSuccess b\<rparr>, w1))))"

definition embed_HealthCheck :: "'w adapter_env \<Rightarrow> embed_client \<Rightarrow> 'w \<Rightarrow> goerr option \<times> 'w" where
  "embed_HealthCheck env c w =
     (case http_do env \<lparr>Method = ''GET'', Url = embedURL c @ ''/health'', Headers = [], ReqBody = []\<rparr> w of
        (Inl e, w1) \<Rightarrow> (Some e, w1)
      | (Inr resp, w1) \<Rightarrow>
          if Status resp \<noteq> 200 then (Some (''health check failed with status '' @ dec_of_int (Status resp)), w1)
          else (case result_bind (decode_obj (Body resp)) (str_field ''status'') of
                  Inl e \<Rightarrow> (Some e, w1)
                | Inr status \<Rightarrow>
                    (if status \<noteq> ''SERVING'' then Some (''service not serving: '' @ status) else None, w1)))"

section \<open>Calls and the cache\<close>

definition client_ok :: "embed_client \<Rightarrow> bool" where
  "client_ok c \<longleftrightarrow> cache_ok 1000 embedTTL (embedCache c)"

definition cached :: "embed_client \<Rightarrow> (string \<times> embedding \<times> int) list" where
  "cached c = recent (embedCache c)"

lemma NewHTTPEmbedClient_ok: "client_ok (NewHTTPEmbedClient url opts) \<and> cached (NewHTTPEmbedClient url opts) = []"
  using NewLRUCache_ok [of 1000 embedTTL] by (simp add: client_ok_def cached_def NewHTTPEmbedClient_def)

text \<open>What a call does to the cache: a lookup of its key and, when the service answered, an insertion.\<close>

lemma Embed_cache:
  assumes "client_ok c" and "Embed env sha t (c, w) = (r, (c', w'))"
  shows "client_ok c' \<and> embedURL c' = embedURL c
    \<and> (\<exists>ops :: (int, string, embedding) lru_op list.
        op_key ` set ops = {sha t} \<and> cached c' = snd (lru_run 1000 (expiring embedTTL) ops (cached c)))"
proof -
  let ?S = "expiring embedTTL" and ?k = "sha t"
  obtain h cache where g: "embed_Get (clock env w) ?k (embedCache c) = (h, cache)" by (cases "embed_Get (clock env w) ?k (embedCache c)")
  have ok: "cache_ok 1000 embedTTL cache"
    and l: "recent cache = snd (lru_get (fresh ?S (clock env w)) ?k (recent (embedCache c)))"
    using embed_Get_refines [OF assms(1) [unfolded client_ok_def], of "clock env w" ?k] g by (simp_all add: expiring_def)
  have only_get: ?thesis if "embedCache c' = cache" "embedURL c' = embedURL c"
    using that ok l by (intro conjI exI [of _ "[Lookup (clock env w) ?k]"])
      (auto simp: client_ok_def cached_def split: prod.splits)
  have get_put: ?thesis if "embedCache c' = embed_Set (clock env w') ?k v cache" "embedURL c' = embedURL c" for v
    using that embed_Set_refines [OF ok, of "clock env w'" ?k v] l
    by (intro conjI exI [of _ "[Lookup (clock env w) ?k, Insert (clock env w') ?k v]"])
      (auto simp: client_ok_def cached_def expiring_def split: prod.splits)
  show ?thesis
  proof (cases h)
    case (Some v)
    with g assms(2) only_get show ?thesis by (auto simp: Embed_def)
  next
    case None
    obtain e b where a: "embed_Allow (clock env w) (embedBreaker c) = (e, b)" by (cases "embed_Allow (clock env w) (embedBreaker c)")
    show ?thesis
    proof (cases e)
      case (Some e')
      with None g a assms(2) only_get show ?thesis by (auto simp: Embed_def)
    next
      case N: None
      obtain x w1 where x: "embed_request env (embedURL c) t w = (x, w1)" by (cases "embed_request env (embedURL c) t w")
      show ?thesis
      proof (cases x)
        case (Inl e)
        with None N g a x assms(2) only_get show ?thesis by (auto simp: Embed_def)
      next
        case (Inr v)
        with None N g a x assms(2) get_put [of v] show ?thesis by (auto simp: Embed_def)
      qed
    qed
  qed
qed

fun embed_all :: "'w adapter_env \<Rightarrow> (string \<Rightarrow> string) \<Rightarrow> string list \<Rightarrow> embed_client \<times> 'w \<Rightarrow> embed_client \<times> 'w" where
  "embed_all env sha [] s = s"
| "embed_all env sha (t # ts) s = embed_all env sha ts (snd (Embed env sha t s))"

lemma embed_all_cache:
  "client_ok c \<Longrightarrow> embed_all env sha ts (c, w) = (c', w') \<Longrightarrow> client_ok c'
    \<and> (\<exists>ops :: (int, string, embedding) lru_op list.
        op_key ` set ops = sha ` set ts \<and> cached c' = snd (lru_run 1000 (expiring embedTTL) ops (cached c)))"
proof (induction ts arbitrary: c w)
  case Nil
  then have "c' = c" by simp
  with Nil.prems(1) show ?case by (intro conjI exI [of _ "[]"]) simp_all
next
  case (Cons t ts)
  obtain r c1 w1 where e: "Embed env sha t (c, w) = (r, (c1, w1))" by (metis prod.exhaust)
  obtain ops where 1: "client_ok c1" "op_key ` set ops = {sha t}"
      "cached c1 = snd (lru_run 1000 (expiring embedTTL) ops (cached c))"
    using Embed_cache [OF Cons.prems(1) e] by blast
  from Cons.prems(2) e have "embed_all env sha ts (c1, w1) = (c', w')" by simp
  from Cons.IH [OF 1(1) this] obtain ops' where 2: "client_ok c'" "op_key ` set ops' = sha ` set ts"
      "cached c' = snd (lru_run 1000 (expiring embedTTL) ops' (cached c1))" by blast
  show ?case
    using 1 2 by (intro conjI exI [of _ "ops @ ops'"]) (auto simp: image_Un lru_run_append)
qed

section \<open>Properties\<close>

text \<open>
  C19. A text that the service embedded is answered from the cache, with the same vector and without a
  request, for five minutes, whatever calls for other texts come in between, as long as they are for
  fewer than 1000 texts; digests that collide count as the same text.
\<close>

theorem embedding_is_remembered:
  assumes "client_ok c" and "fst (embed_Get (clock env w) (sha t) (embedCache c)) = None"
    and "Embed env sha t (c, w) = (Inr v, (c1, w1))"
    and "embed_all env sha ts (c1, w1) = (c2, w2)"
    and "sha t \<notin> sha ` set ts" and "card (sha ` set ts) < 1000"
    and "clock env w2 \<le> clock env w1 + embedTTL"
  shows "\<exists>c3. Embed env sha t (c2, w2) = (Inr v, (c3, w2))"
proof -
  let ?k = "sha t" and ?S = "expiring embedTTL"
  obtain cache where g: "embed_Get (clock env w) ?k (embedCache c) = (None, cache)"
    using assms(2) by (cases "embed_Get (clock env w) ?k (embedCache c)") auto
  have ok: "cache_ok 1000 embedTTL cache"
    using embed_Get_refines [OF assms(1) [unfolded client_ok_def], of "clock env w" ?k] g by simp
  have s: "embedCache c1 = embed_Set (clock env w1) ?k v cache"
    using assms(3) g by (auto simp: Embed_def Let_def split: prod.splits option.splits sum.splits)
  have r: "client_ok c1" "cached c1 = lru_put 1000 ?k (v, clock env w1 + embedTTL) (recent cache)"
    using embed_Set_refines [OF ok, of "clock env w1" ?k v] by (simp_all add: client_ok_def cached_def s)
  obtain ops where ops: "client_ok c2" "op_key ` set ops = sha ` set ts" "cached c2 = snd (lru_run 1000 ?S ops (cached c1))"
    using embed_all_cache [OF r(1) assms(4)] by blast
  have "fst (lru_get (fresh ?S (clock env w2)) ?k (cached c2)) = Some (v, clock env w1 + embedTTL)"
    unfolding ops(3) r(2) using assms(5-7) ok
    by (intro lru_keeps) (simp_all add: ops(2) cache_ok_def expiring_def)
  then have "fst (embed_Get (clock env w2) ?k (embedCache c2)) = Some v"
    using embed_Get_refines [OF ops(1) [unfolded client_ok_def], of "clock env w2" ?k]
    by (simp add: cached_def expiring_def)
  then obtain cache' where "embed_Get (clock env w2) ?k (embedCache c2) = (Some v, cache')"
    by (cases "embed_Get (clock env w2) ?k (embedCache c2)") auto
  then show ?thesis by (simp add: Embed_def Let_def)
qed

definition sample_vector :: string where
  "sample_vector = json_print (JObj [(''embedding'', JArr [JNum ''0.5'', JNum ''1''])])"

definition echo_service :: "nat adapter_env" where
  "echo_service = \<lparr>
     http_do = (\<lambda>r n. (Inr \<lparr>Status = 200, Body = sample_vector\<rparr>, n + 1)),
     clock = (\<lambda>n. int n), uuid = (\<lambda>n. ([], n))\<rparr>"

lemma embedding_is_remembered_witness:
  "\<exists>c1 c2 c3. Embed echo_service (\<lambda>t. t) ''a'' (NewHTTPEmbedClient [] [], 0) = (Inr [''0.5'', ''1''], (c1, 1))
     \<and> embed_all echo_service (\<lambda>t. t) [''b'', ''c''] (c1, 1) = (c2, 3)
     \<and> Embed echo_service (\<lambda>t. t) ''a'' (c2, 3) = (Inr [''0.5'', ''1''], (c3, 3))"
proof -
  let ?c = "NewHTTPEmbedClient [] []" and ?v = "[''0.5'', ''1'']"
  have d: "result_bind (decode_obj sample_vector) (list_field as_num ''embedding'') = Inr ?v" by code_simp
  have rq: "embed_request echo_service u t n = (Inr ?v, n + 1)" for u t n
    by (simp add: embed_request_def echo_service_def d)
  have one: "\<exists>c'. Embed echo_service (\<lambda>t. t) t (c, n) = (Inr ?v, (c', n + 1)) \<and> estate (embedBreaker c') = StateClosed"
    if "estate (embedBreaker c) = StateClosed" "map_of (eitems (embedCache c)) t = None" for t c n
    using that by (simp add: Embed_def embed_Get_def embed_Allow_def rq Let_def embed_RecordSuccess_def)
  define c1 where "c1 = fst (snd (Embed echo_service (\<lambda>t. t) ''a'' (?c, 0)))"
  define c2 where "c2 = fst (embed_all echo_service (\<lambda>t. t) [''b'', ''c''] (c1, 1))"
  have 1: "Embed echo_service (\<lambda>t. t) ''a'' (?c, 0) = (Inr ?v, (c1, 1))"
    using one [of ?c "''a''" 0]
    by (auto simp: c1_def NewHTTPEmbedClient_def NewLRUCache_def embed_NewCircuitBreaker_def)
  have 2: "embed_all echo_service (\<lambda>t. t) [''b'', ''c''] (c1, 1) = (c2, 3)"
    by (simp add: c2_def c1_def Embed_def embed_Get_def embed_Allow_def rq Let_def embed_RecordSuccess_def embed_Set_def
        evict_oldest_def NewHTTPEmbedClient_def NewLRUCache_def embed_NewCircuitBreaker_def list_remove_def lru_del_def)
  have "\<exists>c3. Embed echo_service (\<lambda>t. t) ''a'' (c2, 3) = (Inr ?v, (c3, 3))"
    by (rule embedding_is_remembered [OF NewHTTPEmbedClient_ok [THEN conjunct1] _ 1 2])
      (auto simp: embed_Get_def NewHTTPEmbedClient_def NewLRUCache_def echo_service_def second_def embedTTL_def)
  with 1 2 show ?thesis by blast
qed

end
