(* ===== verification/Retrieval.thy ===== *)
theory Retrieval
  imports Go_Strings Complex_Main "HOL-Library.Multiset"
begin

text \<open>
  Ranking of retrieved chunks: \<open>internal/rag/rrf.go\<close>, \<open>reranker.go\<close> and \<open>context.go\<close>.

  Scores are exact rationals in place of float64. The order in which Go ranges over a map is unknown: it
  is a parameter, applied to the keys of the map. \<open>sort.Slice\<close> is a parameter too: what the code relies
  on is \<open>slice_sort\<close>, that it orders its argument by the comparison it is given; equal elements may come
  out in any order.
\<close>

record retrieval_result =
  ChunkID :: string
  RContent :: string
  Score :: rat
  Source :: string
  RDomain :: string

section \<open>Sorting\<close>

definition strict_weak :: "('a \<Rightarrow> 'a \<Rightarrow> bool) \<Rightarrow> bool" where
  "strict_weak lt \<longleftrightarrow>
     (\<forall>x. \<not> lt x x) \<and> (\<forall>x y z. lt x y \<longrightarrow> lt y z \<longrightarrow> lt x z)
     \<and> (\<forall>x y z. \<not> lt x y \<longrightarrow> \<not> lt y z \<longrightarrow> \<not> lt x z)"

locale slice_sort =
  fixes sort_slice :: "('a \<Rightarrow> 'a \<Rightarrow> bool) \<Rightarrow> 'a list \<Rightarrow> 'a list"
  assumes permutes: "mset (sort_slice lt xs) = mset xs"
    and sorts: "strict_weak lt \<Longrightarrow> sorted_wrt (\<lambda>x y. \<not> lt y x) (sort_slice lt xs)"
begin

lemma set_sorted: "set (sort_slice lt xs) = set xs"
  using permutes by (rule mset_eq_setD)

lemma length_sorted: "length (sort_slice lt xs) = length xs"
  using permutes by (rule mset_eq_length)

lemma distinct_sorted: "distinct (map f (sort_slice lt xs)) = distinct (map f xs)"
  by (metis permutes mset_map mset_eq_imp_distinct_iff)

text \<open>Cutting after \<open>k\<close> keeps the best \<open>k\<close>.\<close>

lemma take_best:
  assumes "strict_weak lt" and "x \<in> set (take k (sort_slice lt xs))"
    and "y \<in> set xs" and "y \<notin> set (take k (sort_slice lt xs))"
  shows "\<not> lt y x"
proof -
  have "y \<in> set (drop k (sort_slice lt xs))"
    using assms(3,4) set_sorted [of lt xs] by (metis Un_iff append_take_drop_id set_append)
  then show ?thesis
    using sorts [OF assms(1), of xs] assms(2)
    by (metis append_take_drop_id sorted_wrt_append)
qed

end

text \<open>What the library does for short slices: insertion sort.\<close>

fun insert_by :: "('a \<Rightarrow> 'a \<Rightarrow> bool) \<Rightarrow> 'a \<Rightarrow> 'a list \<Rightarrow> 'a list" where
  "insert_by lt x [] = [x]"
| "insert_by lt x (y # ys) = (if lt x y then x # y # ys else y # insert_by lt x ys)"

definition insertion_by :: "('a \<Rightarrow> 'a \<Rightarrow> bool) \<Rightarrow> 'a list \<Rightarrow> 'a list" where
  "insertion_by lt xs = fold (insert_by lt) xs []"

lemma mset_insert_by: "mset (insert_by lt x ys) = add_mset x (mset ys)"
  by (induction ys) auto

lemma mset_insertion: "mset (fold (insert_by lt) xs ys) = mset xs + mset ys"
  by (induction xs arbitrary: ys) (auto simp: mset_insert_by)

lemma sorted_insert_by:
  "strict_weak lt \<Longrightarrow> sorted_wrt (\<lambda>x y. \<not> lt y x) ys \<Longrightarrow> sorted_wrt (\<lambda>x y. \<not> lt y x) (insert_by lt x ys)"
proof (induction ys)
  case Nil
  then show ?case by simp
next
  case (Cons y ys)
  have s: "set (insert_by lt x ys) = insert x (set ys)"
    by (metis mset_insert_by set_mset_add_mset_insert set_mset_mset)
  show ?case
  proof (cases "lt x y")
    case True
    have "\<not> lt z x" if "z = y \<or> z \<in> set ys" for z
    proof
      assume z: "lt z x"
      have "lt z y" using Cons.prems(1) z True unfolding strict_weak_def by blast
      moreover have "\<not> lt y y" using Cons.prems(1) unfolding strict_weak_def by blast
      ultimately show False using that Cons.prems(2) by auto
    qed
    with True Cons.prems(2) show ?thesis by simp
  next
    case False
    with Cons s show ?thesis by auto
  qed
qed

interpretation go_sort: slice_sort insertion_by
proof
  show "mset (insertion_by lt xs) = mset xs" for lt and xs :: "'a list"
    by (simp add: insertion_by_def mset_insertion)
  have "sorted_wrt (\<lambda>x y. \<not> lt y x) (fold (insert_by lt) xs ys)"
    if "strict_weak lt" "sorted_wrt (\<lambda>x y. \<not> lt y x) ys" for lt and xs ys :: "'a list"
    using that(2)
  proof (induction xs arbitrary: ys)
    case (Cons x xs)
    from Cons.IH [OF sorted_insert_by [OF that(1) Cons.prems]] show ?case by simp
  qed simp
  then show "sorted_wrt (\<lambda>x y. \<not> lt y x) (insertion_by lt xs)" if "strict_weak lt" for lt and xs :: "'a list"
    using that by (simp add: insertion_by_def)
qed

section \<open>Reciprocal rank fusion\<close>

definition higher_score :: "retrieval_result \<Rightarrow> retrieval_result \<Rightarrow> bool" where
  "higher_score x y \<longleftrightarrow> Score x > Score y"

lemma strict_weak_score: "strict_weak higher_score"
  by (auto simp: strict_weak_def higher_score_def)

definition rrf_term :: "nat \<Rightarrow> rat" where
  "rrf_term i = 1 / (60 + of_nat (i + 1))"

record rrf_maps =
  scores :: "(string \<times> rat) list"
  byID :: "(string \<times> retrieval_result) list"

text \<open>\<open>m[k] += v\<close> on a Go map, and the insertion of an absent key.\<close>

fun map_add_to :: "'k \<Rightarrow> rat \<Rightarrow> ('k \<times> rat) list \<Rightarrow> ('k \<times> rat) list" where
  "map_add_to k v [] = [(k, v)]"
| "map_add_to k v ((k', v') # m) = (if k' = k then (k, v' + v) # m else (k', v') # map_add_to k v m)"

definition rrf_add :: "nat \<times> retrieval_result \<Rightarrow> rrf_maps \<Rightarrow> rrf_maps" where
  "rrf_add ir m =
     (case ir of (i, r) \<Rightarrow>
        let m1 = m\<lparr>scores := map_add_to (ChunkID r) (rrf_term i) (scores m)\<rparr>
        in if map_of (byID m1) (ChunkID r) = None then m1\<lparr>byID := byID m1 @ [(ChunkID r, r)]\<rparr> else m1)"

definition rrf_collect :: "retrieval_result list \<Rightarrow> retrieval_result list \<Rightarrow> rrf_maps" where
  "rrf_collect annResults ftsResults =
     fold rrf_add (enumerate 0 ftsResults) (fold rrf_add (enumerate 0 annResults) \<lparr>scores = [], byID = []\<rparr>)"

definition RRFMerge ::
  "(string list \<Rightarrow> string list) \<Rightarrow> ((retrieval_result \<Rightarrow> retrieval_result \<Rightarrow> bool) \<Rightarrow> retrieval_result list \<Rightarrow> retrieval_result list)
   \<Rightarrow> retrieval_result list \<Rightarrow> retrieval_result list \<Rightarrow> int \<Rightarrow> retrieval_result list" where
  "RRFMerge range_order sort_slice annResults ftsResults topK =
     (let m = rrf_collect annResults ftsResults;
          merged = map (\<lambda>k. (the (map_of (byID m) k))\<lparr>Score := the (map_of (scores m) k)\<rparr>) (range_order (map fst (scores m)));
          merged = sort_slice higher_score merged
      in if 0 < topK \<and> topK < int (length merged) then take (nat topK) merged else merged)"

section \<open>Reranking and the context block\<close>

record reranker_config =
  AgentMode :: bool
  IsAsync :: bool

definition Rerank ::
  "((retrieval_result \<Rightarrow> retrieval_result \<Rightarrow> bool) \<Rightarrow> retrieval_result list \<Rightarrow> retrieval_result list)
   \<Rightarrow> retrieval_result list \<Rightarrow> reranker_config \<Rightarrow> retrieval_result list" where
  "Rerank sort_slice results cfg =
     (if \<not> AgentMode cfg \<and> \<not> IsAsync cfg then results else sort_slice higher_score results)"

definition context_line :: "nat \<times> retrieval_result \<Rightarrow> string" where
  "context_line ir = (case ir of (i, r) \<Rightarrow> dec_of_nat (i + 1) @ ''. '' @ RContent r @ ''\<newline>'')"

definition BuildContextBlock :: "retrieval_result list \<Rightarrow> string" where
  "BuildContextBlock results =
     (if results = [] then []
      else ''[CONTEXT]\<newline>'' @ concat (map context_line (enumerate 0 results)) @ ''[/CONTEXT]\<newline>'')"

section \<open>What the fusion computes\<close>

definition ids :: "retrieval_result list \<Rightarrow> string set" where
  "ids rs = ChunkID ` set rs"

text \<open>The score of a chunk: the sum of the reciprocal ranks of its occurrences.\<close>

definition leg_score :: "string \<Rightarrow> (nat \<times> retrieval_result) list \<Rightarrow> rat" where
  "leg_score k irs = sum_list (map (\<lambda>ir. rrf_term (fst ir)) (filter (\<lambda>ir. ChunkID (snd ir) = k) irs))"

definition rrf_score :: "retrieval_result list \<Rightarrow> retrieval_result list \<Rightarrow> string \<Rightarrow> rat" where
  "rrf_score ann fts k = leg_score k (enumerate 0 ann) + leg_score k (enumerate 0 fts)"

text \<open>The result a chunk is shown with: its first occurrence.\<close>

definition first_result :: "retrieval_result list \<Rightarrow> string \<Rightarrow> retrieval_result option" where
  "first_result rs k = map_of (map (\<lambda>r. (ChunkID r, r)) rs) k"

lemma map_of_add_to:
  "map_of (map_add_to k v m) k' =
     (if k' = k then Some (case map_of m k of None \<Rightarrow> v | Some v' \<Rightarrow> v' + v) else map_of m k')"
  by (induction k v m rule: map_add_to.induct) auto

lemma keys_add_to:
  "map fst (map_add_to k v m) = (if k \<in> fst ` set m then map fst m else map fst m @ [k])"
  by (induction k v m rule: map_add_to.induct) auto

lemma leg_score_append: "leg_score k (xs @ ys) = leg_score k xs + leg_score k ys"
  by (simp add: leg_score_def)

definition collected :: "(nat \<times> retrieval_result) list \<Rightarrow> rrf_maps \<Rightarrow> bool" where
  "collected irs m \<longleftrightarrow>
     distinct (map fst (scores m)) \<and> fst ` set (scores m) = ids (map snd irs)
     \<and> (\<forall>k \<in> ids (map snd irs). map_of (scores m) k = Some (leg_score k irs))
     \<and> map_of (byID m) = first_result (map snd irs)"

lemma first_result_None: "first_result rs k = None \<longleftrightarrow> k \<notin> ids rs"
  by (auto simp: first_result_def ids_def map_of_eq_None_iff image_iff)

lemma collected_add:
  assumes "collected irs m"
  shows "collected (irs @ [(i, r)]) (rrf_add (i, r) m)"
proof -
  let ?k = "ChunkID r" and ?irs = "irs @ [(i, r)]"
  let ?s = "map_add_to ?k (rrf_term i) (scores m)"
  have new: "leg_score ?k irs = 0" if "?k \<notin> ids (map snd irs)"
  proof -
    have "filter (\<lambda>ir. ChunkID (snd ir) = ?k) irs = []" using that by (auto simp: ids_def filter_empty_conv image_iff)
    then show ?thesis by (simp add: leg_score_def)
  qed
  have none: "map_of (scores m) ?k = None \<longleftrightarrow> ?k \<notin> ids (map snd irs)"
    using assms by (simp add: collected_def map_of_eq_None_iff)
  have d: "distinct (map fst (scores m))" "fst ` set (scores m) = ids (map snd irs)" using assms by (simp_all add: collected_def)
  have i: "ids (map snd ?irs) = insert ?k (ids (map snd irs))" by (simp add: ids_def)
  have f: "fst ` set ?s = set (map fst ?s)" by simp
  have s: "distinct (map fst ?s)" "fst ` set ?s = ids (map snd ?irs)"
    unfolding f keys_add_to i using d by (simp_all add: insert_absorb)
  have v: "map_of ?s k = Some (leg_score k ?irs)" if "k \<in> ids (map snd ?irs)" for k
  proof (cases "k = ?k")
    case True
    then show ?thesis
      using assms none new by (auto simp: map_of_add_to leg_score_append collected_def leg_score_def split: option.splits)
  next
    case False
    with that assms show ?thesis
      by (auto simp: map_of_add_to leg_score_append collected_def ids_def leg_score_def)
  qed
  have b: "map_of (byID (rrf_add (i, r) m)) = first_result (map snd ?irs)"
  proof
    fix k
    show "map_of (byID (rrf_add (i, r) m)) k = first_result (map snd ?irs) k"
      using assms by (auto simp: rrf_add_def Let_def collected_def first_result_def map_add_def split: option.splits)
  qed
  have "scores (rrf_add (i, r) m) = ?s" by (simp add: rrf_add_def Let_def)
  with s v b show ?thesis by (simp add: collected_def)
qed

lemma collected_fold: "collected irs (fold rrf_add irs \<lparr>scores = [], byID = []\<rparr>)"
proof (induction irs rule: rev_induct)
  case Nil
  then show ?case by (simp add: collected_def ids_def first_result_def fun_eq_iff)
next
  case (snoc ir irs)
  then show ?case using collected_add [of irs _ "fst ir" "snd ir"] by simp
qed

lemma rrf_collect_collected: "collected (enumerate 0 ann @ enumerate 0 fts) (rrf_collect ann fts)"
  using collected_fold [of "enumerate 0 ann @ enumerate 0 fts"] by (simp add: rrf_collect_def)

lemma map_snd_enumerate: "map snd (enumerate n xs) = xs"
  by (simp add: enumerate_eq_zip)

section \<open>Properties\<close>

definition merged_entry :: "rrf_maps \<Rightarrow> string \<Rightarrow> retrieval_result" where
  "merged_entry m k = (the (map_of (byID m) k))\<lparr>Score := the (map_of (scores m) k)\<rparr>"

lemma rrf_collect_facts:
  "distinct (map fst (scores (rrf_collect ann fts)))"
  "fst ` set (scores (rrf_collect ann fts)) = ids (ann @ fts)"
  "\<forall>k \<in> ids (ann @ fts). map_of (scores (rrf_collect ann fts)) k = Some (rrf_score ann fts k)"
  "map_of (byID (rrf_collect ann fts)) = first_result (ann @ fts)"
  using rrf_collect_collected [of ann fts]
  by (simp_all add: collected_def map_snd_enumerate rrf_score_def leg_score_append)

lemma merged_entry_facts:
  assumes "k \<in> ids (ann @ fts)"
  shows "ChunkID (merged_entry (rrf_collect ann fts) k) = k"
    and "first_result (ann @ fts) k = Some (the (map_of (byID (rrf_collect ann fts)) k))"
    and "Score (merged_entry (rrf_collect ann fts) k) = rrf_score ann fts k"
    and "\<exists>r0. first_result (ann @ fts) k = Some r0
      \<and> merged_entry (rrf_collect ann fts) k = r0\<lparr>Score := rrf_score ann fts k\<rparr>"
proof -
  show first: "first_result (ann @ fts) k = Some (the (map_of (byID (rrf_collect ann fts)) k))"
    using assms first_result_None [of "ann @ fts" k] rrf_collect_facts(4) by auto
  then have "(k, the (map_of (byID (rrf_collect ann fts)) k)) \<in> set (map (\<lambda>r. (ChunkID r, r)) (ann @ fts))"
    unfolding first_result_def by (rule map_of_SomeD)
  then show "ChunkID (merged_entry (rrf_collect ann fts) k) = k" by (auto simp: merged_entry_def)
  show "Score (merged_entry (rrf_collect ann fts) k) = rrf_score ann fts k"
    using assms rrf_collect_facts(3) by (simp add: merged_entry_def)
  show "\<exists>r0. first_result (ann @ fts) k = Some r0
      \<and> merged_entry (rrf_collect ann fts) k = r0\<lparr>Score := rrf_score ann fts k\<rparr>"
    using first assms rrf_collect_facts(3) by (simp add: merged_entry_def)
qed

text \<open>
  C20. Whatever order the map is ranged over and however equal scores are sorted, fusion is reciprocal
  rank fusion: the results are distinct chunks of the two lists, each as it first occurs with the sum of
  its reciprocal ranks, best first; they are as many as asked for, or all; and no chunk left out has a
  higher score than one returned.
\<close>

theorem rrf_merge_exact:
  assumes "slice_sort sort_slice" and "\<And>ks. mset (range_order ks) = mset ks" and "0 < topK"
    and "res = RRFMerge range_order sort_slice ann fts topK"
  shows "distinct (map ChunkID res)
    \<and> (\<forall>r \<in> set res. \<exists>r0. first_result (ann @ fts) (ChunkID r) = Some r0 \<and> r = r0\<lparr>Score := rrf_score ann fts (ChunkID r)\<rparr>)
    \<and> sorted_wrt (\<lambda>x y. Score y \<le> Score x) res
    \<and> length res = min (nat topK) (card (ids (ann @ fts)))
    \<and> (\<forall>k \<in> ids (ann @ fts) - ids res. \<forall>r \<in> set res. rrf_score ann fts k \<le> Score r)"
proof -
  note sort = slice_sort.set_sorted [OF assms(1)] slice_sort.length_sorted [OF assms(1)]
    slice_sort.distinct_sorted [OF assms(1)] slice_sort.sorts [OF assms(1) strict_weak_score]
  let ?m = "rrf_collect ann fts" and ?A = "ids (ann @ fts)"
  let ?f = "merged_entry ?m" and ?ks = "range_order (map fst (scores ?m))"
  note f = merged_entry_facts [of _ ann fts]
  have ks: "distinct ?ks" "set ?ks = ?A"
    using assms(2) [of "map fst (scores ?m)"] rrf_collect_facts [of ann fts] mset_eq_imp_distinct_iff mset_eq_setD
    by (metis, metis set_map)
  define merged where "merged = map ?f ?ks"
  have ids_merged: "map ChunkID merged = ?ks"
    unfolding merged_def map_map using f(1) ks(2) by (intro map_idI) simp
  have mem: "r \<in> set merged \<longleftrightarrow> (\<exists>k \<in> ?A. r = ?f k)" for r using ks(2) by (auto simp: merged_def)
  let ?s = "sort_slice higher_score merged"
  have len: "length merged = card ?A" using distinct_card [OF ks(1)] ks(2) by (simp add: merged_def)
  have res: "res = take (nat topK) ?s"
    using assms(3,4) sort(2) [of higher_score merged] by (auto simp: RRFMerge_def Let_def merged_def merged_entry_def [abs_def])
  have "distinct (map ChunkID ?s)" using sort(3) [of ChunkID higher_score merged] ks(1) by (simp only: ids_merged)
  then have "distinct (map ChunkID res)" by (simp add: res take_map [symmetric])
  moreover have in_merged: "r \<in> set merged" if "r \<in> set res" for r
    using that sort(1) [of higher_score merged] in_set_takeD [of r "nat topK" ?s] by (simp add: res)
  then have "\<exists>r0. first_result (ann @ fts) (ChunkID r) = Some r0 \<and> r = r0\<lparr>Score := rrf_score ann fts (ChunkID r)\<rparr>"
    if "r \<in> set res" for r
    using that mem f(1) f(4) by fastforce
  moreover have "sorted_wrt (\<lambda>x y. Score y \<le> Score x) res"
    using sort(4) [of merged] unfolding res higher_score_def not_less by (rule sorted_wrt_take)
  moreover have "length res = min (nat topK) (card ?A)"
    using sort(2) [of higher_score merged] len by (simp add: res min.commute)
  moreover have "rrf_score ann fts k \<le> Score r" if "k \<in> ?A - ids res" "r \<in> set res" for k r
  proof -
    have "?f k \<in> set merged" using that(1) mem by blast
    moreover have "?f k \<notin> set res" 
    proof
      assume "?f k \<in> set res"
      then have "ChunkID (?f k) \<in> ids res" unfolding ids_def by (rule imageI)
      moreover have "ChunkID (?f k) = k" using that(1) by (intro f(1)) simp
      ultimately show False using that(1) by simp
    qed
    ultimately have "\<not> higher_score (?f k) r"
      using slice_sort.take_best [OF assms(1) strict_weak_score] that(2) unfolding res by blast
    then show ?thesis using f(3) that(1) by (simp add: higher_score_def)
  qed
  ultimately show ?thesis by blast
qed

definition hit :: "string \<Rightarrow> string \<Rightarrow> retrieval_result" where
  "hit k source = \<lparr>ChunkID = k, RContent = [], Score = 0, Source = source, RDomain = ''code''\<rparr>"

lemma rrf_merge_exact_witness:
  "length (RRFMerge rev insertion_by [hit ''a'' ''ann'', hit ''b'' ''ann''] [hit ''b'' ''fts'', hit ''c'' ''fts''] 2) = 2"
proof -
  let ?res = "RRFMerge rev insertion_by [hit ''a'' ''ann'', hit ''b'' ''ann''] [hit ''b'' ''fts'', hit ''c'' ''fts''] 2"
  have "length ?res = min (nat 2) (card (ids ([hit ''a'' ''ann'', hit ''b'' ''ann''] @ [hit ''b'' ''fts'', hit ''c'' ''fts''])))"
    using rrf_merge_exact [OF go_sort.slice_sort_axioms _ _ refl, of rev 2] by simp
  then show ?thesis by (simp add: ids_def hit_def)
qed

end
