(* ===== verification/Redis_Keys.thy ===== *)
theory Redis_Keys
  imports Go_JSON_Roundtrip
begin

text \<open>
  The string keys of Redis as the ingestion and the retrieval cache use them. Redis is a parameter, a
  record of client calls. What the code relies on is \<open>keys_law\<close>: the documented effect of GET, SET with
  an expiry and INCR. Keys that were given an expiry may vanish at any time, no other key does; a command
  that returns an error may or may not have been executed.
\<close>

record 'w redis_keys =
  kv_get :: "string \<Rightarrow> 'w \<Rightarrow> string option result \<times> 'w"
  kv_set :: "string \<Rightarrow> string \<Rightarrow> int \<Rightarrow> 'w \<Rightarrow> goerr option \<times> 'w"
  kv_incr :: "string \<Rightarrow> 'w \<Rightarrow> int result \<times> 'w"

record redis_view =
  vals :: "string \<Rightarrow> string option"
  ttl :: "string set"

definition aged :: "redis_view \<Rightarrow> redis_view \<Rightarrow> bool" where
  "aged v v' \<longleftrightarrow> ttl v' = ttl v \<and> (\<forall>k. vals v' k = vals v k \<or> k \<in> ttl v \<and> vals v' k = None)"

definition view_set :: "string \<Rightarrow> string \<Rightarrow> redis_view \<Rightarrow> redis_view" where
  "view_set k x v = \<lparr>vals = (vals v)(k \<mapsto> x), ttl = insert k (ttl v)\<rparr>"

text \<open>INCR fails on a value that is not a 64-bit integer or that it cannot increase.\<close>

definition counter_of :: "string option \<Rightarrow> int option" where
  "counter_of x = (case x of None \<Rightarrow> Some 0 | Some s \<Rightarrow> int_literal s)"

definition view_incr :: "string \<Rightarrow> redis_view \<Rightarrow> redis_view option" where
  "view_incr k v =
     (case counter_of (vals v k) of
        None \<Rightarrow> None
      | Some n \<Rightarrow> (if n < 2 ^ 63 - 1 then Some (v\<lparr>vals := (vals v)(k \<mapsto> dec_of_int (n + 1))\<rparr>) else None))"

definition keys_law :: "'w redis_keys \<Rightarrow> ('w \<Rightarrow> redis_view) \<Rightarrow> bool" where
  "keys_law K view \<longleftrightarrow>
     (\<forall>k w r w'. kv_get K k w = (r, w') \<longrightarrow> aged (view w) (view w') \<and> (\<forall>x. r = Inr x \<longrightarrow> x = vals (view w') k))
     \<and> (\<forall>k x t w e w'. kv_set K k x t w = (e, w') \<longrightarrow>
          (\<exists>v. aged (view w) v \<and> (view w' = view_set k x v \<or> e \<noteq> None \<and> view w' = v)))
     \<and> (\<forall>k w r w'. kv_incr K k w = (r, w') \<longrightarrow>
          (\<exists>v. aged (view w) v \<and> (Some (view w') = view_incr k v \<or> (\<exists>e. r = Inl e) \<and> view w' = v)))"

lemma keys_get: "keys_law K view \<Longrightarrow> kv_get K k w = (r, w') \<Longrightarrow> aged (view w) (view w')"
  and keys_get_value: "keys_law K view \<Longrightarrow> kv_get K k w = (Inr x, w') \<Longrightarrow> x = vals (view w') k"
  unfolding keys_law_def by blast+

lemma keys_set:
  assumes "keys_law K view" and "kv_set K k x t w = (e, w')"
  obtains v where "aged (view w) v" and "view w' = view_set k x v \<or> e \<noteq> None \<and> view w' = v"
  using assms unfolding keys_law_def by blast

lemma keys_incr:
  assumes "keys_law K view" and "kv_incr K k w = (r, w')"
  obtains v where "aged (view w) v" and "Some (view w') = view_incr k v \<or> (\<exists>e. r = Inl e) \<and> view w' = v"
  using assms unfolding keys_law_def by blast

lemma aged_vals: "aged v v' \<Longrightarrow> vals v' k = Some x \<Longrightarrow> vals v k = Some x"
  unfolding aged_def by (metis option.distinct(1))

lemma aged_persistent: "aged v v' \<Longrightarrow> k \<notin> ttl v \<Longrightarrow> vals v' k = vals v k"
  unfolding aged_def by blast

lemma aged_ttl: "aged v v' \<Longrightarrow> ttl v' = ttl v"
  unfolding aged_def by blast

lemma aged_refl: "aged v v"
  unfolding aged_def by blast

lemma aged_trans: "aged u v \<Longrightarrow> aged v w \<Longrightarrow> aged u w"
  unfolding aged_def by (metis (no_types))

text \<open>A Redis in memory whose keys stay, for concrete runs: the values and the keys with an expiry.\<close>

type_synonym memory_redis = "(string \<times> string) list \<times> string list"

definition memory_keys :: "('w \<Rightarrow> memory_redis) \<Rightarrow> (memory_redis \<Rightarrow> 'w \<Rightarrow> 'w) \<Rightarrow> 'w redis_keys" where
  "memory_keys sel upd = \<lparr>
     kv_get = (\<lambda>k w. (Inr (map_of (fst (sel w)) k), w)),
     kv_set = (\<lambda>k x t w. (None, upd ((k, x) # fst (sel w), k # snd (sel w)) w)),
     kv_incr = (\<lambda>k w. case counter_of (map_of (fst (sel w)) k) of
          None \<Rightarrow> (Inl ''ERR value is not an integer or out of range'', w)
        | Some n \<Rightarrow>
            (if n < 2 ^ 63 - 1 then (Inr (n + 1), upd ((k, dec_of_int (n + 1)) # fst (sel w), snd (sel w)) w)
             else (Inl ''ERR increment or decrement would overflow'', w)))\<rparr>"

definition memory_view :: "('w \<Rightarrow> memory_redis) \<Rightarrow> 'w \<Rightarrow> redis_view" where
  "memory_view sel w = \<lparr>vals = map_of (fst (sel w)), ttl = set (snd (sel w))\<rparr>"

lemma memory_keys_law:
  assumes "\<And>m w. sel (upd m w) = m"
  shows "keys_law (memory_keys sel upd) (memory_view sel)"
proof -
  let ?v = "memory_view sel"
  have set: "?v (upd ((k, x) # fst (sel w), k # snd (sel w)) w) = view_set k x (?v w)" for k x w
    by (simp add: memory_view_def view_set_def assms)
  have incr: "\<exists>v. aged (?v w) v \<and> (Some (?v w') = view_incr k v \<or> (\<exists>e. r = Inl e) \<and> ?v w' = v)"
    if "kv_incr (memory_keys sel upd) k w = (r, w')" for k w r w'
    using that by (intro exI [of _ "?v w"])
      (auto simp: memory_keys_def memory_view_def view_incr_def assms aged_refl split: option.splits if_splits)
  show ?thesis
    unfolding keys_law_def using incr
    by (auto simp: memory_keys_def set aged_refl intro!: exI [of _ "?v w" for w]) (auto simp: memory_view_def)
qed

end
