(* ===== verification/PG_Store.thy ===== *)
theory PG_Store
  imports Retrieval Go_JSON
begin

text \<open>
  The relational store: the schema of \<open>internal/memory/pg_schema.go\<close> and the operations of
  \<open>pg_store.go\<close>, each the SQL statement it sends.

  The database is three tables and the names of the relations created so far. A statement may fail
  before it does anything (\<open>fault\<close>, by its number); \<open>NOW()\<close> and \<open>gen_random_uuid()\<close> are functions of that
  number. Parsing a UUID, the texts PostgreSQL accepts, JSONB normalisation and the full-text
  predicates are parameters. UUIDs are compared in the form the cast gives. Error texts of the server
  are short names of the violated constraint.
\<close>

section \<open>Rows\<close>

record document =
  DID :: string
  DDomain :: string
  DTitle :: string
  DContent :: string
  DContentHash :: string
  DStatus :: string

record pg_chunk =
  CID :: string
  CDocumentID :: string
  CIndex :: int
  CContent :: string
  CContentHash :: string
  CQdrantPointID :: string
  CDomain :: string
  CEmbeddingModel :: string

record tool_record =
  TID :: string
  TName :: string
  TDescription :: string
  TInputSchema :: "string option"
  TExecutorType :: string
  TEndpointURL :: string
  TEnabled :: bool
  TCreatedAt :: int

record document_row =
  d_id :: string
  d_domain :: string
  d_title :: string
  d_content :: string
  d_hash :: string
  d_status :: string
  d_created :: int
  d_updated :: int

record chunk_row =
  c_id :: string
  c_document :: string
  c_index :: int
  c_content :: string
  c_hash :: string
  c_point :: "string option"
  c_domain :: string
  c_model :: string
  c_created :: int

record tool_row =
  t_id :: string
  t_name :: string
  t_description :: string
  t_schema :: string
  t_executor :: string
  t_endpoint :: "string option"
  t_enabled :: bool
  t_created :: int

record pgdb =
  relations :: "string list"
  documents_table :: "document_row list"
  chunks_table :: "chunk_row list"
  tools_table :: "tool_row list"
  statements :: nat

record pg_env =
  fault :: "nat \<Rightarrow> goerr option"
  now_at :: "nat \<Rightarrow> int"
  random_uuid :: "nat \<Rightarrow> string"
  to_uuid :: "string \<Rightarrow> string option"
  text_ok :: "string \<Rightarrow> bool"
  to_jsonb :: "string \<Rightarrow> string option"
  ts_match :: "string \<Rightarrow> string \<Rightarrow> bool"
  ts_rank :: "string \<Rightarrow> string \<Rightarrow> rat"

definition empty_db :: pgdb where
  "empty_db = \<lparr>relations = [], documents_table = [], chunks_table = [], tools_table = [], statements = 0\<rparr>"

section \<open>The schema\<close>

text \<open>A statement of the schema: the relation it creates and the relations it refers to.\<close>

datatype ddl = CreateTable string "string list" | CreateIndex string string

definition DDLDocuments :: ddl where "DDLDocuments = CreateTable ''documents'' []"
definition DDLChunks :: ddl where "DDLChunks = CreateTable ''chunks'' [''documents'']"
definition DDLTools :: ddl where "DDLTools = CreateTable ''tools'' []"

definition DDLIdxChunksDocChunk :: ddl where
  "DDLIdxChunksDocChunk = CreateIndex ''idx_chunks_document_chunk'' ''chunks''"

definition DDLIdxDocsDomainStatus :: ddl where
  "DDLIdxDocsDomainStatus = CreateIndex ''idx_documents_domain_status'' ''documents''"

definition DDLIdxChunksContentGIN :: ddl where
  "DDLIdxChunksContentGIN = CreateIndex ''idx_chunks_content_gin'' ''chunks''"

text \<open>The CHECK and UNIQUE constraints of the three tables.\<close>

definition document_domains :: "string list" where
  "document_domains = [''general'', ''legal'', ''medical'', ''code'']"

definition document_states :: "string list" where
  "document_states = [''pending'', ''processing'', ''indexed'', ''failed'']"

definition executor_types :: "string list" where
  "executor_types = [''builtin'', ''subprocess'', ''http'']"

definition documents_ok :: "document_row list \<Rightarrow> bool" where
  "documents_ok ds \<longleftrightarrow> distinct (map d_id ds) \<and> distinct (map d_hash ds)
     \<and> (\<forall>d \<in> set ds. d_domain d \<in> set document_domains \<and> d_status d \<in> set document_states)"

definition chunks_ok :: "document_row list \<Rightarrow> chunk_row list \<Rightarrow> bool" where
  "chunks_ok ds cs \<longleftrightarrow> distinct (map c_id cs) \<and> distinct (map c_hash cs)
     \<and> distinct (map (\<lambda>c. (c_document c, c_index c)) cs) \<and> c_document ` set cs \<subseteq> d_id ` set ds"

definition tools_ok :: "tool_row list \<Rightarrow> bool" where
  "tools_ok ts \<longleftrightarrow> distinct (map t_id ts) \<and> distinct (map t_name ts)
     \<and> (\<forall>t \<in> set ts. t_executor t \<in> set executor_types)"

definition pg_ok :: "pgdb \<Rightarrow> bool" where
  "pg_ok db \<longleftrightarrow> documents_ok (documents_table db) \<and> chunks_ok (documents_table db) (chunks_table db) \<and> tools_ok (tools_table db)"

section \<open>Statements\<close>

definition statement :: "pg_env \<Rightarrow> string list \<Rightarrow> (pgdb \<Rightarrow> 'a result \<times> pgdb) \<Rightarrow> pgdb \<Rightarrow> 'a result \<times> pgdb" where
  "statement E needs body db =
     (let n = statements db; (r, db') = (case fault E n of
          Some e \<Rightarrow> (Inl e, db)
        | None \<Rightarrow>
            if \<exists>t \<in> set needs. t \<notin> set (relations db) then (Inl ''relation does not exist'', db) else body db)
      in (r, db'\<lparr>statements := n + 1\<rparr>))"

fun exec_ddl :: "ddl \<Rightarrow> pgdb \<Rightarrow> unit result \<times> pgdb" where
  "exec_ddl (CreateTable t refs) db =
     (Inr (), if t \<in> set (relations db) then db else db\<lparr>relations := relations db @ [t]\<rparr>)"
| "exec_ddl (CreateIndex i t) db =
     (Inr (), if i \<in> set (relations db) then db else db\<lparr>relations := relations db @ [i]\<rparr>)"

fun ddl_needs :: "ddl \<Rightarrow> string list" where
  "ddl_needs (CreateTable t refs) = refs"
| "ddl_needs (CreateIndex i t) = [t]"

fun bootstrap_loop :: "pg_env \<Rightarrow> ddl list \<Rightarrow> pgdb \<Rightarrow> goerr option \<times> pgdb" where
  "bootstrap_loop E [] db = (None, db)"
| "bootstrap_loop E (s # ss) db =
     (case statement E (ddl_needs s) (exec_ddl s) db of
        (Inl e, db1) \<Rightarrow> (Some (''bootstrap DDL: '' @ e), db1)
      | (Inr _, db1) \<Rightarrow> bootstrap_loop E ss db1)"

definition Bootstrap :: "pg_env \<Rightarrow> pgdb \<Rightarrow> goerr option \<times> pgdb" where
  "Bootstrap E = bootstrap_loop E
     [DDLDocuments, DDLChunks, DDLTools, DDLIdxChunksDocChunk, DDLIdxDocsDomainStatus, DDLIdxChunksContentGIN]"

definition HasQdrantPoint :: "pg_env \<Rightarrow> string \<Rightarrow> pgdb \<Rightarrow> bool result \<times> pgdb" where
  "HasQdrantPoint E p db =
     (case statement E [''chunks''] (\<lambda>db. (case to_uuid E p of
          None \<Rightarrow> (Inl ''invalid input syntax for type uuid'', db)
        | Some u \<Rightarrow> (Inr (\<exists>c \<in> set (chunks_table db). c_point c = Some u), db))) db of
        (Inl e, db1) \<Rightarrow> (Inl (''has qdrant point: '' @ e), db1)
      | (Inr b, db1) \<Rightarrow> (Inr b, db1))"

definition touch_document :: "string \<Rightarrow> int \<Rightarrow> document_row list \<Rightarrow> document_row list" where
  "touch_document i t ds = map (\<lambda>d. if d_id d = i then d\<lparr>d_updated := t\<rparr> else d) ds"

text \<open>
  The checks come before the conflict on \<open>content_hash\<close> is looked for; on a conflict the row there is
  touched and its id returned.
\<close>

definition insert_document :: "pg_env \<Rightarrow> document \<Rightarrow> string \<Rightarrow> pgdb \<Rightarrow> string result \<times> pgdb" where
  "insert_document E doc status db =
     (let n = statements db; i = random_uuid E n in
      if \<not> list_all (text_ok E) [DDomain doc, DTitle doc, DContent doc, DContentHash doc, status]
      then (Inl ''invalid byte sequence'', db)
      else if DDomain doc \<notin> set document_domains then (Inl ''documents_domain_check'', db)
      else if status \<notin> set document_states then (Inl ''documents_status_check'', db)
      else case find (\<lambda>d. d_hash d = DContentHash doc) (documents_table db) of
        Some d \<Rightarrow>
          (Inr (d_id d), db\<lparr>documents_table := touch_document (d_id d) (now_at E n) (documents_table db)\<rparr>)
      | None \<Rightarrow>
          if i \<in> d_id ` set (documents_table db) then (Inl ''documents_pkey'', db)
          else (Inr i, db\<lparr>documents_table := documents_table db @ [\<lparr>d_id = i, d_domain = DDomain doc, d_title = DTitle doc,
                 d_content = DContent doc, d_hash = DContentHash doc, d_status = status,
                 d_created = now_at E n, d_updated = now_at E n\<rparr>]\<rparr>))"

definition UpsertDocument :: "pg_env \<Rightarrow> document \<Rightarrow> pgdb \<Rightarrow> string result \<times> pgdb" where
  "UpsertDocument E doc db =
     (let status = (if DStatus doc = [] then ''pending'' else DStatus doc)
      in case statement E [''documents''] (insert_document E doc status) db of
           (Inl e, db1) \<Rightarrow> (Inl (''upsert document: '' @ e), db1)
         | (Inr i, db1) \<Rightarrow> (Inr i, db1))"

text \<open>The point id of the chunk is not among the columns of the statement.\<close>

definition insert_chunk :: "pg_env \<Rightarrow> pg_chunk \<Rightarrow> pgdb \<Rightarrow> unit result \<times> pgdb" where
  "insert_chunk E c db =
     (let n = statements db; i = random_uuid E n in
      case to_uuid E (CDocumentID c) of
        None \<Rightarrow> (Inl ''invalid input syntax for type uuid'', db)
      | Some doc \<Rightarrow>
          if \<not> (- (2 ^ 31) \<le> CIndex c \<and> CIndex c < 2 ^ 31) then (Inl ''integer out of range'', db)
          else if \<not> list_all (text_ok E) [CContent c, CContentHash c, CDomain c, CEmbeddingModel c]
          then (Inl ''invalid byte sequence'', db)
          else if CContentHash c \<in> c_hash ` set (chunks_table db) then (Inr (), db)
          else if i \<in> c_id ` set (chunks_table db) then (Inl ''chunks_pkey'', db)
          else if (doc, CIndex c) \<in> (\<lambda>r. (c_document r, c_index r)) ` set (chunks_table db)
          then (Inl ''chunks_document_id_chunk_index_key'', db)
          else if doc \<notin> d_id ` set (documents_table db) then (Inl ''chunks_document_id_fkey'', db)
          else (Inr (), db\<lparr>chunks_table := chunks_table db @ [\<lparr>c_id = i, c_document = doc, c_index = CIndex c, c_content = CContent c,
                 c_hash = CContentHash c, c_point = None, c_domain = CDomain c, c_model = CEmbeddingModel c,
                 c_created = now_at E n\<rparr>]\<rparr>))"

definition UpsertChunk :: "pg_env \<Rightarrow> pg_chunk \<Rightarrow> pgdb \<Rightarrow> goerr option \<times> pgdb" where
  "UpsertChunk E c db =
     (case statement E [''chunks''] (insert_chunk E c) db of
        (Inl e, db1) \<Rightarrow> (Some (''upsert chunk: '' @ e), db1)
      | (Inr _, db1) \<Rightarrow> (None, db1))"

text \<open>Rows are ordered by rank; \<open>sort_slice\<close> stands for the order in which rows of equal rank come.\<close>

definition found_chunk :: "chunk_row \<Rightarrow> pg_chunk" where
  "found_chunk c = \<lparr>CID = c_id c, CDocumentID = c_document c, CIndex = c_index c, CContent = c_content c,
     CContentHash = c_hash c, CQdrantPointID = [], CDomain = c_domain c, CEmbeddingModel = []\<rparr>"

definition FTSSearch ::
  "pg_env \<Rightarrow> ((chunk_row \<Rightarrow> chunk_row \<Rightarrow> bool) \<Rightarrow> chunk_row list \<Rightarrow> chunk_row list)
   \<Rightarrow> string \<Rightarrow> string \<Rightarrow> int \<Rightarrow> pgdb \<Rightarrow> pg_chunk list result \<times> pgdb" where
  "FTSSearch E sort_slice domain query limit db =
     (case statement E [''chunks''] (\<lambda>db.
          if \<not> list_all (text_ok E) [domain, query] then (Inl ''invalid byte sequence'', db)
          else if limit < 0 then (Inl ''LIMIT must not be negative'', db)
          else (Inr (take (nat limit) (sort_slice (\<lambda>a b. ts_rank E (c_content a) query > ts_rank E (c_content b) query)
                  (filter (\<lambda>c. c_domain c = domain \<and> ts_match E (c_content c) query) (chunks_table db)))), db)) db of
        (Inl e, db1) \<Rightarrow> (Inl (''fts search: '' @ e), db1)
      | (Inr rows, db1) \<Rightarrow> (Inr (map found_chunk rows), db1))"

section \<open>Tools\<close>

definition scan_tool :: "tool_row \<Rightarrow> tool_record" where
  "scan_tool t = \<lparr>TID = t_id t, TName = t_name t, TDescription = t_description t, TInputSchema = Some (t_schema t),
     TExecutorType = t_executor t, TEndpointURL = (case t_endpoint t of None \<Rightarrow> [] | Some u \<Rightarrow> u),
     TEnabled = t_enabled t, TCreatedAt = t_created t\<rparr>"

definition ListTools ::
  "pg_env \<Rightarrow> ((tool_row \<Rightarrow> tool_row \<Rightarrow> bool) \<Rightarrow> tool_row list \<Rightarrow> tool_row list) \<Rightarrow> pgdb \<Rightarrow> tool_record list result \<times> pgdb" where
  "ListTools E sort_slice db =
     (case statement E [''tools''] (\<lambda>db. (Inr (sort_slice (\<lambda>a b. t_created a < t_created b) (tools_table db)), db)) db of
        (Inl e, db1) \<Rightarrow> (Inl (''list tools: '' @ e), db1)
      | (Inr rows, db1) \<Rightarrow> (Inr (map scan_tool rows), db1))"

definition GetTool :: "pg_env \<Rightarrow> string \<Rightarrow> pgdb \<Rightarrow> tool_record result \<times> pgdb" where
  "GetTool E name db =
     (case statement E [''tools''] (\<lambda>db.
          if \<not> text_ok E name then (Inl ''invalid byte sequence'', db)
          else case find (\<lambda>t. t_name t = name) (tools_table db) of
            None \<Rightarrow> (Inl ''no rows in result set'', db)
          | Some t \<Rightarrow> (Inr t, db)) db of
        (Inl e, db1) \<Rightarrow> (Inl (''get tool '' @ go_quote name @ '': '' @ e), db1)
      | (Inr t, db1) \<Rightarrow> (Inr (scan_tool t), db1))"

definition insert_tool :: "pg_env \<Rightarrow> tool_record \<Rightarrow> string \<Rightarrow> string option \<Rightarrow> pgdb \<Rightarrow> tool_row result \<times> pgdb" where
  "insert_tool E t schema endpoint db =
     (let n = statements db; i = random_uuid E n in
      case to_jsonb E schema of
        None \<Rightarrow> (Inl ''invalid input syntax for type json'', db)
      | Some j \<Rightarrow>
          if \<not> list_all (text_ok E) [TName t, TDescription t, TExecutorType t, TEndpointURL t]
          then (Inl ''invalid byte sequence'', db)
          else if TExecutorType t \<notin> set executor_types then (Inl ''tools_executor_type_check'', db)
          else if i \<in> t_id ` set (tools_table db) then (Inl ''tools_pkey'', db)
          else if TName t \<in> t_name ` set (tools_table db) then (Inl ''tools_name_key'', db)
          else let row = \<lparr>t_id = i, t_name = TName t, t_description = TDescription t, t_schema = j,
                     t_executor = TExecutorType t, t_endpoint = endpoint, t_enabled = TEnabled t, t_created = now_at E n\<rparr>
               in (Inr row, db\<lparr>tools_table := tools_table db @ [row]\<rparr>))"

definition CreateTool :: "pg_env \<Rightarrow> tool_record \<Rightarrow> pgdb \<Rightarrow> tool_record result \<times> pgdb" where
  "CreateTool E t db =
     (let schema = (case TInputSchema t of None \<Rightarrow> ''{}'' | Some s \<Rightarrow> s);
          endpoint = (if TEndpointURL t \<noteq> [] then Some (TEndpointURL t) else None)
      in case statement E [''tools''] (insert_tool E t schema endpoint) db of
           (Inl e, db1) \<Rightarrow> (Inl (''create tool: '' @ e), db1)
         | (Inr row, db1) \<Rightarrow> (Inr (scan_tool row), db1))"

section \<open>Every operation keeps the constraints\<close>

lemma statement_keeps:
  assumes "statement E needs body db = (r, db')" and "P db"
    and "\<And>r' db1. body db = (r', db1) \<Longrightarrow> P db1" and "\<And>d n. P (d\<lparr>statements := n\<rparr>) = P d"
  shows "P db'"
  using assms by (auto simp: statement_def Let_def split: option.splits if_splits prod.splits)

lemma statement_rel: "relations (snd (statement E needs body db)) = relations (snd (body db)) \<or> relations (snd (statement E needs body db)) = relations db"
  by (auto simp: statement_def Let_def split: option.splits if_splits prod.splits)

lemma statement_Inr:
  assumes "statement E needs body db = (Inr a, db')"
  obtains db1 where "body db = (Inr a, db1)" and "db' = db1\<lparr>statements := statements db + 1\<rparr>"
  using assms by (auto simp: statement_def Let_def split: option.splits if_splits prod.splits)

text \<open>The operations of the store as steps between database states.\<close>

inductive pg_step :: "pg_env \<Rightarrow> pgdb \<Rightarrow> pgdb \<Rightarrow> bool" for E where
  bootstrap: "pg_step E db (snd (Bootstrap E db))"
| document: "pg_step E db (snd (UpsertDocument E doc db))"
| chunk: "pg_step E db (snd (UpsertChunk E c db))"
| has_point: "pg_step E db (snd (HasQdrantPoint E p db))"
| search: "pg_step E db (snd (FTSSearch E sort_chunks domain query limit db))"
| list_tools: "pg_step E db (snd (ListTools E sort_tools db))"
| get_tool: "pg_step E db (snd (GetTool E name db))"
| create_tool: "pg_step E db (snd (CreateTool E t db))"

inductive pg_reachable :: "pg_env \<Rightarrow> pgdb \<Rightarrow> bool" for E where
  start: "pg_reachable E empty_db"
| step: "pg_reachable E db \<Longrightarrow> pg_step E db db' \<Longrightarrow> pg_reachable E db'"

inductive_cases pg_step_cases: "pg_step E db db'"

text \<open>Besides the constraints: no row of \<open>chunks\<close> has a point id.\<close>

definition pg_inv :: "pgdb \<Rightarrow> bool" where
  "pg_inv db \<longleftrightarrow> pg_ok db \<and> (\<forall>c \<in> set (chunks_table db). c_point c = None)"

lemma pg_inv_statements [simp]: "pg_inv (db\<lparr>statements := n\<rparr>) = pg_inv db" "pg_inv (db\<lparr>relations := rs\<rparr>) = pg_inv db"
  by (simp_all add: pg_inv_def pg_ok_def)

lemma pg_inv_statement:
  assumes "pg_inv db" and "\<And>r db1. body db = (r, db1) \<Longrightarrow> pg_inv db1"
  shows "pg_inv (snd (statement E needs body db))"
  using statement_keeps [of E needs body db _ _ pg_inv] assms by (metis pg_inv_statements(1) prod.collapse)

lemma pg_inv_ddl: "pg_inv db \<Longrightarrow> exec_ddl s db = (r, db1) \<Longrightarrow> pg_inv db1"
  by (cases s) (auto split: if_splits)

lemma pg_inv_bootstrap: "pg_inv db \<Longrightarrow> pg_inv (snd (bootstrap_loop E ss db))"
proof (induction ss arbitrary: db)
  case Nil
  then show ?case by simp
next
  case (Cons s ss)
  have "pg_inv (snd (statement E (ddl_needs s) (exec_ddl s) db))"
    using Cons.prems by (intro pg_inv_statement) (auto dest: pg_inv_ddl)
  with Cons.IH show ?case by (auto split: prod.splits sum.splits)
qed

lemma map_touch_document:
  "map d_id (touch_document i t ds) = map d_id ds" "map d_hash (touch_document i t ds) = map d_hash ds"
  "map d_domain (touch_document i t ds) = map d_domain ds" "map d_status (touch_document i t ds) = map d_status ds"
  by (auto simp: touch_document_def)

lemma touch_document_ids: "d_id ` set (touch_document i t ds) = d_id ` set ds"
  by (metis list.set_map map_touch_document(1))

lemma documents_ok_touch: "documents_ok ds \<Longrightarrow> documents_ok (touch_document i t ds)"
  unfolding documents_ok_def map_touch_document by (auto simp: touch_document_def)

lemma documents_ok_add:
  "documents_ok ds \<Longrightarrow> d_id d \<notin> d_id ` set ds \<Longrightarrow> find (\<lambda>x. d_hash x = d_hash d) ds = None \<Longrightarrow>
   d_domain d \<in> set document_domains \<Longrightarrow> d_status d \<in> set document_states \<Longrightarrow> documents_ok (ds @ [d])"
  by (auto simp: documents_ok_def find_None_iff)

lemma pg_inv_insert_document:
  assumes "pg_inv db" and "insert_document E doc status db = (r, db1)"
  shows "pg_inv db1"
proof (cases "db1 = db")
  case False
  with assms(2) consider i t where "db1 = db\<lparr>documents_table := touch_document i t (documents_table db)\<rparr>"
    | d where "db1 = db\<lparr>documents_table := documents_table db @ [d]\<rparr>" "d_id d \<notin> d_id ` set (documents_table db)"
        "find (\<lambda>x. d_hash x = d_hash d) (documents_table db) = None"
        "d_domain d \<in> set document_domains" "d_status d \<in> set document_states"
    by (fastforce simp: insert_document_def Let_def split: if_splits option.splits)
  then show ?thesis
  proof cases
    case 1
    with assms(1) show ?thesis
      by (simp add: pg_inv_def pg_ok_def documents_ok_touch chunks_ok_def touch_document_ids)
  next
    case (2 d)
    with assms(1) documents_ok_add [OF _ 2(2-5)] show ?thesis
      by (simp add: pg_inv_def pg_ok_def chunks_ok_def subset_insertI2)
  qed
qed (use assms in simp)

lemma pg_inv_insert_chunk: 
  assumes "pg_inv db" and "insert_chunk E c db = (r, db1)"
  shows "pg_inv db1"
proof (cases "db1 = db")
  case False
  with assms(2) obtain x where "db1 = db\<lparr>chunks_table := chunks_table db @ [x]\<rparr>" "c_id x \<notin> c_id ` set (chunks_table db)"
      "c_hash x \<notin> c_hash ` set (chunks_table db)" "(c_document x, c_index x) \<notin> (\<lambda>r. (c_document r, c_index r)) ` set (chunks_table db)"
      "c_document x \<in> d_id ` set (documents_table db)" "c_point x = None"
    by (fastforce simp: insert_chunk_def Let_def split: if_splits option.splits)
  with assms(1) show ?thesis by (simp add: pg_inv_def pg_ok_def chunks_ok_def)
qed (use assms in simp)

lemma pg_inv_insert_tool: "pg_inv db \<Longrightarrow> insert_tool E t s e db = (r, db1) \<Longrightarrow> pg_inv db1"
  by (auto simp: insert_tool_def Let_def pg_inv_def pg_ok_def tools_ok_def split: if_splits option.splits)

lemma snd_case_result [simp]:
  "snd (case p of (Inl e, d) \<Rightarrow> (f e, d) | (Inr a, d) \<Rightarrow> (g a, d)) = snd p"
  by (simp split: prod.splits sum.splits)

lemma pg_inv_step:
  assumes "pg_step E db db'" and "pg_inv db"
  shows "pg_inv db'"
  using assms
proof cases
  case bootstrap
  with assms(2) show ?thesis by (simp add: Bootstrap_def pg_inv_bootstrap del: bootstrap_loop.simps)
next
  case (document doc)
  with assms(2) show ?thesis
    by (auto simp: UpsertDocument_def Let_def intro!: pg_inv_statement dest: pg_inv_insert_document)
next
  case (chunk c)
  with assms(2) show ?thesis by (auto simp: UpsertChunk_def intro!: pg_inv_statement dest: pg_inv_insert_chunk)
next
  case (create_tool t)
  with assms(2) show ?thesis by (auto simp: CreateTool_def Let_def intro!: pg_inv_statement dest: pg_inv_insert_tool)
qed (use assms(2) in \<open>auto simp: HasQdrantPoint_def FTSSearch_def ListTools_def GetTool_def
  intro!: pg_inv_statement split: option.splits if_splits\<close>)

lemma pg_inv_empty: "pg_inv empty_db"
  by (simp add: pg_inv_def pg_ok_def empty_db_def documents_ok_def chunks_ok_def tools_ok_def)

lemma pg_inv_reachable: "pg_reachable E db \<Longrightarrow> pg_inv db"
  by (induction rule: pg_reachable.induct) (auto simp: pg_inv_empty dest: pg_inv_step)

end
