(* ===== verification/Qdrant.thy ===== *)
theory Qdrant
  imports Adapters
begin

text \<open>
  The client of the vector store, \<open>internal/memory/qdrant.go\<close>, over the HTTP client of the adapters.
  Vector components and scores are number literals, payloads are JSON objects; an empty vector stands
  for Go's nil slice and is sent as null. Maps are sent with sorted keys, as \<open>encoding/json\<close> does.
\<close>

record qdrant_point =
  PointID :: string
  Vector :: "string list"
  Payload :: "(string \<times> json) list"

record qdrant_hit =
  HitID :: string
  HitScore :: string
  HitPayload :: "(string \<times> json) list"

definition validDomains :: "string list" where
  "validDomains = [''general'', ''legal'', ''medical'', ''code'']"

definition validateDomain :: "string \<Rightarrow> goerr option" where
  "validateDomain domain =
     (if \<exists>d \<in> set validDomains. domain = d then None
      else Some (''invalid domain '' @ go_quote domain @ '': must be one of [general legal medical code]''))"

definition collectionName :: "string \<Rightarrow> string" where
  "collectionName domain = ''caw_'' @ domain"

definition NewQdrantClient :: "(string \<Rightarrow> string) \<Rightarrow> string \<Rightarrow> string" where
  "NewQdrantClient getenv url =
     (let u = (if url = [] then getenv ''QDRANT_BASE_URL'' else url)
      in if u = [] then ''http://localhost:6333'' else u)"

text \<open>\<open>do\<close> with a body; the text of a good response is left to the caller, who decodes it or not.\<close>

definition qdrant_do ::
  "'w adapter_env \<Rightarrow> string \<Rightarrow> string \<Rightarrow> string \<Rightarrow> json \<Rightarrow> 'w \<Rightarrow> string result \<times> 'w" where
  "qdrant_do env base meth path body w =
     (case http_do env \<lparr>Method = meth, Url = base @ path,
              Headers = [(''Content-Type'', ''application/json'')], ReqBody = json_print body\<rparr> w of
        (Inl e, w1) \<Rightarrow> (Inl (''qdrant request '' @ meth @ '' '' @ path @ '': '' @ e), w1)
      | (Inr resp, w1) \<Rightarrow>
          if Status resp \<ge> 400
          then (Inl (''qdrant '' @ meth @ '' '' @ path @ '': status '' @ dec_of_int (Status resp) @ '': '' @ Body resp), w1)
          else (Inr (Body resp), w1))"

definition qdrant_decode :: "((string \<times> json) list \<Rightarrow> 'a result) \<Rightarrow> string \<Rightarrow> 'a result" where
  "qdrant_decode f body =
     (case result_bind (decode_obj body) f of Inl e \<Rightarrow> Inl (''decode response: '' @ e) | Inr a \<Rightarrow> Inr a)"

definition err_of :: "'a result \<times> 'w \<Rightarrow> goerr option \<times> 'w" where
  "err_of p = (case p of (Inl e, w) \<Rightarrow> (Some e, w) | (Inr _, w) \<Rightarrow> (None, w))"

definition ensureCollection :: "'w adapter_env \<Rightarrow> string \<Rightarrow> string \<Rightarrow> 'w \<Rightarrow> goerr option \<times> 'w" where
  "ensureCollection env base name w =
     err_of (qdrant_do env base ''PUT'' (''/collections/'' @ name)
       (JObj [(''vectors'', JObj [(''distance'', JStr ''Cosine''), (''size'', JInt 384)])]) w)"

fun ensure_loop :: "'w adapter_env \<Rightarrow> string \<Rightarrow> string list \<Rightarrow> 'w \<Rightarrow> goerr option \<times> 'w" where
  "ensure_loop env base [] w = (None, w)"
| "ensure_loop env base (d # ds) w =
     (case ensureCollection env base (collectionName d) w of
        (Some e, w1) \<Rightarrow> (Some (''ensure collection '' @ d @ '': '' @ e), w1)
      | (None, w1) \<Rightarrow> ensure_loop env base ds w1)"

definition EnsureCollections :: "'w adapter_env \<Rightarrow> string \<Rightarrow> 'w \<Rightarrow> goerr option \<times> 'w" where
  "EnsureCollections env base = ensure_loop env base validDomains"

definition json_vector :: "string list \<Rightarrow> json" where
  "json_vector v = (if v = [] then JNull else JArr (map JNum v))"

definition enriched :: "string \<Rightarrow> qdrant_point \<Rightarrow> json" where
  "enriched domain p =
     canon (JObj [(''id'', JStr (PointID p)), (''payload'', JObj (map_set ''domain'' (JStr domain) (Payload p))),
                  (''vector'', json_vector (Vector p))])"

definition points_path :: "string \<Rightarrow> string" where
  "points_path domain = ''/collections/'' @ collectionName domain @ ''/points''"

definition q_Upsert :: "'w adapter_env \<Rightarrow> string \<Rightarrow> string \<Rightarrow> qdrant_point list \<Rightarrow> 'w \<Rightarrow> goerr option \<times> 'w" where
  "q_Upsert env base domain points w =
     (case validateDomain domain of
        Some e \<Rightarrow> (Some e, w)
      | None \<Rightarrow> err_of (qdrant_do env base ''PUT'' (points_path domain)
                  (JObj [(''points'', JArr (map (enriched domain) points))]) w))"

definition domain_filter :: "string \<Rightarrow> json" where
  "domain_filter domain =
     JObj [(''must'', JArr [JObj [(''key'', JStr ''domain''), (''match'', JObj [(''value'', JStr domain)])]])]"

definition as_hit :: "json \<Rightarrow> qdrant_hit result" where
  "as_hit v =
     result_bind (as_obj v) (\<lambda>ms. result_bind (str_field ''id'' ms) (\<lambda>i.
       result_bind (num_field ''score'' ms) (\<lambda>s. result_bind (obj_field ''payload'' ms) (\<lambda>p.
         Inr \<lparr>HitID = i, HitScore = s, HitPayload = p\<rparr>))))"

definition q_Search ::
  "'w adapter_env \<Rightarrow> string \<Rightarrow> string \<Rightarrow> string list \<Rightarrow> int \<Rightarrow> 'w \<Rightarrow> qdrant_hit list result \<times> 'w" where
  "q_Search env base domain vec topK w =
     (if domain = [] then (Inl ''domain filter required'', w)
      else case validateDomain domain of
        Some e \<Rightarrow> (Inl e, w)
      | None \<Rightarrow>
          (case qdrant_do env base ''POST'' (points_path domain @ ''/search'')
                  (JObj [(''filter'', domain_filter domain), (''limit'', JInt topK),
                         (''vector'', json_vector vec), (''with_payload'', JBool True)]) w of
             (Inl e, w1) \<Rightarrow> (Inl e, w1)
           | (Inr body, w1) \<Rightarrow> (qdrant_decode (list_field as_hit ''result'') body, w1)))"

definition as_point :: "json \<Rightarrow> qdrant_point result" where
  "as_point v =
     result_bind (as_obj v) (\<lambda>ms. result_bind (str_field ''id'' ms) (\<lambda>i.
       result_bind (list_field as_num ''vector'' ms) (\<lambda>vs. result_bind (obj_field ''payload'' ms) (\<lambda>p.
         Inr \<lparr>PointID = i, Vector = vs, Payload = p\<rparr>))))"

definition scroll_page :: "(string \<times> json) list \<Rightarrow> (qdrant_point list \<times> string) result" where
  "scroll_page ms =
     result_bind (obj_field ''result'' ms) (\<lambda>r. result_bind (list_field as_point ''points'' r) (\<lambda>ps.
       result_bind (str_field ''next_page_offset'' r) (\<lambda>next. Inr (ps, next))))"

definition ScrollPoints ::
  "'w adapter_env \<Rightarrow> string \<Rightarrow> string \<Rightarrow> int \<Rightarrow> string \<Rightarrow> 'w \<Rightarrow> (qdrant_point list \<times> string) result \<times> 'w" where
  "ScrollPoints env base domain limit offset w =
     (case validateDomain domain of
        Some e \<Rightarrow> (Inl e, w)
      | None \<Rightarrow>
          (case qdrant_do env base ''POST'' (points_path domain @ ''/scroll'')
                  (JObj ([(''limit'', JInt limit)] @ (if offset \<noteq> [] then [(''offset'', JStr offset)] else [])
                         @ [(''with_payload'', JBool True), (''with_vector'', JBool True)])) w of
             (Inl e, w1) \<Rightarrow> (Inl e, w1)
           | (Inr body, w1) \<Rightarrow> (qdrant_decode scroll_page body, w1)))"

definition DeletePoints :: "'w adapter_env \<Rightarrow> string \<Rightarrow> string \<Rightarrow> string list \<Rightarrow> 'w \<Rightarrow> goerr option \<times> 'w" where
  "DeletePoints env base domain point_ids w =
     (case validateDomain domain of
        Some e \<Rightarrow> (Some e, w)
      | None \<Rightarrow> err_of (qdrant_do env base ''POST'' (points_path domain @ ''/delete'')
                  (JObj [(''points'', if point_ids = [] then JNull else JArr (map JStr point_ids))]) w))"

section \<open>Requests stay within their domain\<close>

text \<open>
  \<open>logged env\<close> is \<open>env\<close> with a record of its requests: the world gets the list of those sent so far.
\<close>

definition logged :: "'w adapter_env \<Rightarrow> ('w \<times> http_request list) adapter_env" where
  "logged env = \<lparr>
     http_do = (\<lambda>r (w, sent). let (a, w1) = http_do env r w in (a, (w1, sent @ [r]))),
     clock = (\<lambda>(w, sent). clock env w),
     uuid = (\<lambda>(w, sent). let (i, w1) = uuid env w in (i, (w1, sent)))\<rparr>"

datatype store_call =
    Upserting "qdrant_point list"
  | Searching "string list" int
  | Scrolling int string
  | Deleting "string list"

fun qdrant_call :: "'w adapter_env \<Rightarrow> string \<Rightarrow> string \<Rightarrow> store_call \<Rightarrow> 'w \<Rightarrow> goerr option \<times> 'w" where
  "qdrant_call env base d (Upserting ps) w = q_Upsert env base d ps w"
| "qdrant_call env base d (Searching v k) w = err_of (q_Search env base d v k w)"
| "qdrant_call env base d (Scrolling n i) w = err_of (ScrollPoints env base d n i w)"
| "qdrant_call env base d (Deleting point_ids) w = DeletePoints env base d point_ids w"

lemma qdrant_do_logged:
  "\<exists>w' r. snd (qdrant_do (logged env) base m path body (w, sent)) = (w', sent @ [r]) \<and> Url r = base @ path"
  by (auto simp: qdrant_do_def logged_def Let_def split: prod.splits sum.splits)

lemma validateDomain_None: "validateDomain d = None \<longleftrightarrow> d \<in> set validDomains"
  by (auto simp: validateDomain_def)

lemma snd_err_of [simp]: "snd (err_of p) = snd p"
  by (simp add: err_of_def split: prod.splits sum.splits)

lemma snd_decoded [simp]:
  "snd (case p of (Inl e, w) \<Rightarrow> (Inl e, w) | (Inr b, w) \<Rightarrow> (f b, w)) = snd p"
  by (simp split: prod.splits sum.splits)

text \<open>
  C21. A call for a domain of the store sends exactly one request, and to a path below the points of
  that domain's own collection; a call for any other domain, the empty one included, sends none and
  returns an error.
\<close>

theorem qdrant_requests_stay_in_domain:
  "\<exists>err w' sent'. qdrant_call (logged env) base d c (w, sent) = (err, (w', sent'))
     \<and> (if d \<in> {''general'', ''legal'', ''medical'', ''code''}
        then \<exists>r suffix. sent' = sent @ [r] \<and> Url r = base @ ''/collections/caw_'' @ d @ ''/points'' @ suffix
        else sent' = sent \<and> err \<noteq> None)"
proof (cases "validateDomain d")
  case None
  then have d: "d \<in> {''general'', ''legal'', ''medical'', ''code''}"
    by (simp add: validateDomain_None validDomains_def)
  then have ne: "d \<noteq> []" by auto
  have "\<exists>w' r suffix. snd (qdrant_call (logged env) base d c (w, sent)) = (w', sent @ [r])
      \<and> Url r = base @ ''/collections/caw_'' @ d @ ''/points'' @ suffix"
    using qdrant_do_logged
    by (cases c; simp add: q_Upsert_def q_Search_def ScrollPoints_def DeletePoints_def None ne points_path_def
        collectionName_def del: append_assoc; fastforce)
  then show ?thesis using d by (metis prod.collapse)
next
  case (Some e)
  then have d: "d \<notin> {''general'', ''legal'', ''medical'', ''code''}"
    by (metis validateDomain_None validDomains_def list.set(1,2) option.distinct(1))
  show ?thesis unfolding if_not_P [OF d]
    by (cases c; simp add: q_Upsert_def q_Search_def ScrollPoints_def DeletePoints_def Some err_of_def)
qed

end
