(* ===== verification/Retriever.thy ===== *)
theory Retriever
  imports Retrieval Redis_Keys PG_Store Qdrant
begin

text \<open>
  Retrieval with its cache: \<open>internal/rag/cache.go\<close> and \<open>retriever.go\<close>.

  The two legs of a retrieval, vector search and full-text search, run at the same time: \<open>fts_at\<close> says
  where the full-text query falls between the steps of the other leg. Their clients, SHA-256 and the
  printing and parsing of floats are parameters. The timeout counter and the log are not modelled; a
  timeout is an error of the leg.
\<close>

section \<open>The cache\<close>

definition cacheTTL :: int where
  "cacheTTL = 60 * second"

definition version_key :: "string \<Rightarrow> string" where
  "version_key domain = ''caw:retrieval:'' @ domain @ '':version''"

record codec =
  sha256 :: "string \<Rightarrow> string"
  num_text :: "rat \<Rightarrow> string"
  text_num :: "string \<Rightarrow> rat"

definition getVersion :: "'w redis_keys \<Rightarrow> string \<Rightarrow> 'w \<Rightarrow> string result \<times> 'w" where
  "getVersion K domain w =
     (case kv_get K (version_key domain) w of
        (Inr None, w1) \<Rightarrow> (Inr ''0'', w1)
      | (Inl e, w1) \<Rightarrow> (Inl (''get version: '' @ e), w1)
      | (Inr (Some x), w1) \<Rightarrow> (Inr x, w1))"

definition cache_key :: "codec \<Rightarrow> string \<Rightarrow> string \<Rightarrow> string \<Rightarrow> string" where
  "cache_key C domain query version = ''caw:retrieval:'' @ domain @ '':'' @ sha256 C query @ '':'' @ version"

definition rc_cacheKey :: "'w redis_keys \<Rightarrow> codec \<Rightarrow> string \<Rightarrow> string \<Rightarrow> 'w \<Rightarrow> string result \<times> 'w" where
  "rc_cacheKey K C domain query w =
     (case getVersion K domain w of
        (Inl e, w1) \<Rightarrow> (Inl e, w1)
      | (Inr version, w1) \<Rightarrow> (Inr (cache_key C domain query version), w1))"

definition marshal_results :: "codec \<Rightarrow> retrieval_result list \<Rightarrow> string" where
  "marshal_results C rs = json_print (JArr (map (\<lambda>r. JObj [(''ChunkID'', JStr (ChunkID r)),
     (''Content'', JStr (RContent r)), (''Score'', JNum (num_text C (Score r))),
     (''Source'', JStr (Source r)), (''Domain'', JStr (RDomain r))]) rs))"

definition as_result :: "codec \<Rightarrow> json \<Rightarrow> retrieval_result result" where
  "as_result C v =
     result_bind (as_obj v) (\<lambda>ms. result_bind (str_field ''ChunkID'' ms) (\<lambda>i.
       result_bind (str_field ''Content'' ms) (\<lambda>t. result_bind (num_field ''Score'' ms) (\<lambda>s.
         result_bind (str_field ''Source'' ms) (\<lambda>src. result_bind (str_field ''Domain'' ms) (\<lambda>d.
           Inr \<lparr>ChunkID = i, RContent = t, Score = text_num C s, Source = src, RDomain = d\<rparr>))))))"

definition unmarshal_results :: "codec \<Rightarrow> string \<Rightarrow> retrieval_result list result" where
  "unmarshal_results C s =
     (case json_parse s of None \<Rightarrow> Inl ErrJSONSyntax
      | Some v \<Rightarrow> (if v = JNull then Inr [] else as_list (as_result C) v))"

text \<open>\<open>Inr None\<close> is a miss.\<close>

definition rc_Get ::
  "'w redis_keys \<Rightarrow> codec \<Rightarrow> string \<Rightarrow> string \<Rightarrow> 'w \<Rightarrow> retrieval_result list option result \<times> 'w" where
  "rc_Get K C domain query w =
     (case rc_cacheKey K C domain query w of
        (Inl e, w1) \<Rightarrow> (Inl e, w1)
      | (Inr key, w1) \<Rightarrow>
          (case kv_get K key w1 of
             (Inr None, w2) \<Rightarrow> (Inr None, w2)
           | (Inl e, w2) \<Rightarrow> (Inl (''cache get: '' @ e), w2)
           | (Inr (Some val), w2) \<Rightarrow>
               (case unmarshal_results C val of
                  Inl e \<Rightarrow> (Inl (''cache unmarshal: '' @ e), w2)
                | Inr results \<Rightarrow> (Inr (Some results), w2))))"

definition rc_Set ::
  "'w redis_keys \<Rightarrow> codec \<Rightarrow> string \<Rightarrow> string \<Rightarrow> retrieval_result list \<Rightarrow> 'w \<Rightarrow> goerr option \<times> 'w" where
  "rc_Set K C domain query results w =
     (case rc_cacheKey K C domain query w of
        (Inl e, w1) \<Rightarrow> (Some e, w1)
      | (Inr key, w1) \<Rightarrow> kv_set K key (marshal_results C results) cacheTTL w1)"

section \<open>The retriever\<close>

definition defaultTopK :: int where
  "defaultTopK = 10"

record 'w hybrid_retriever =
  r_embed :: "string \<Rightarrow> 'w \<Rightarrow> string list result \<times> 'w"
  r_search :: "string \<Rightarrow> string list \<Rightarrow> int \<Rightarrow> 'w \<Rightarrow> qdrant_hit list result \<times> 'w"
  r_fts :: "string \<Rightarrow> string \<Rightarrow> int \<Rightarrow> 'w \<Rightarrow> pg_chunk list result \<times> 'w"
  r_keys :: "'w redis_keys option"
  r_codec :: codec
  r_range :: "string list \<Rightarrow> string list"
  r_sort :: "(retrieval_result \<Rightarrow> retrieval_result \<Rightarrow> bool) \<Rightarrow> retrieval_result list \<Rightarrow> retrieval_result list"

definition payload_content :: "(string \<times> json) list \<Rightarrow> string" where
  "payload_content p = (case map_get ''content'' p of Some (JStr s) \<Rightarrow> s | _ \<Rightarrow> [])"

definition ann_result :: "codec \<Rightarrow> string \<Rightarrow> qdrant_hit \<Rightarrow> retrieval_result" where
  "ann_result C domain h = \<lparr>ChunkID = HitID h, RContent = payload_content (HitPayload h),
     Score = text_num C (HitScore h), Source = ''ann'', RDomain = domain\<rparr>"

definition fts_result :: "string \<Rightarrow> nat \<times> pg_chunk \<Rightarrow> retrieval_result" where
  "fts_result domain ic = (case ic of (i, c) \<Rightarrow> \<lparr>ChunkID = CID c, RContent = CContent c,
     Score = 1 / of_nat (i + 1), Source = ''fts'', RDomain = domain\<rparr>)"

definition fts_leg :: "'w hybrid_retriever \<Rightarrow> string \<Rightarrow> string \<Rightarrow> 'w \<Rightarrow> retrieval_result list \<times> 'w" where
  "fts_leg R query domain w =
     (case r_fts R domain query defaultTopK w of
        (Inl e, w1) \<Rightarrow> ([], w1)
      | (Inr cs, w1) \<Rightarrow> (map (fts_result domain) (enumerate 0 cs), w1))"

definition ann_search :: "'w hybrid_retriever \<Rightarrow> string \<Rightarrow> string list result \<Rightarrow> 'w \<Rightarrow> retrieval_result list \<times> 'w" where
  "ann_search R domain vec w =
     (case vec of Inl e \<Rightarrow> ([], w)
      | Inr v \<Rightarrow>
          (case r_search R domain v defaultTopK w of
             (Inl e, w1) \<Rightarrow> ([], w1)
           | (Inr hs, w1) \<Rightarrow> (map (ann_result (r_codec R) domain) hs, w1)))"

definition legs ::
  "'w hybrid_retriever \<Rightarrow> nat \<Rightarrow> string \<Rightarrow> string \<Rightarrow> 'w \<Rightarrow> (retrieval_result list \<times> retrieval_result list) \<times> 'w" where
  "legs R fts_at query domain w =
     (if fts_at = 0 then
        (let (fts, w1) = fts_leg R query domain w; (vec, w2) = r_embed R query w1;
             (ann, w3) = ann_search R domain vec w2 in ((ann, fts), w3))
      else if fts_at = 1 then
        (let (vec, w1) = r_embed R query w; (fts, w2) = fts_leg R query domain w1;
             (ann, w3) = ann_search R domain vec w2 in ((ann, fts), w3))
      else
        (let (vec, w1) = r_embed R query w; (ann, w2) = ann_search R domain vec w1;
             (fts, w3) = fts_leg R query domain w2 in ((ann, fts), w3)))"

definition retrieve_cached :: "'w hybrid_retriever \<Rightarrow> string \<Rightarrow> string \<Rightarrow> 'w \<Rightarrow> retrieval_result list option \<times> 'w" where
  "retrieve_cached R query domain w =
     (case r_keys R of None \<Rightarrow> (None, w)
      | Some K \<Rightarrow>
          (case rc_Get K (r_codec R) domain query w of
             (Inl e, w1) \<Rightarrow> (None, w1)
           | (Inr found, w1) \<Rightarrow> (found, w1)))"

text \<open>The error result is always nil.\<close>

definition Retrieve :: "'w hybrid_retriever \<Rightarrow> nat \<Rightarrow> string \<Rightarrow> string \<Rightarrow> 'w \<Rightarrow> retrieval_result list \<times> 'w" where
  "Retrieve R fts_at query domain w =
     (case retrieve_cached R query domain w of
        (Some cached, w1) \<Rightarrow> (cached, w1)
      | (None, w1) \<Rightarrow>
          (let ((ann, fts), w2) = legs R fts_at query domain w1;
               merged = RRFMerge (r_range R) (r_sort R) ann fts 5
           in case r_keys R of
                None \<Rightarrow> (merged, w2)
              | Some K \<Rightarrow>
                  if merged \<noteq> [] then (merged, snd (rc_Set K (r_codec R) domain query merged w2))
                  else (merged, w2)))"

section \<open>Cached answers and the version of a domain\<close>

text \<open>What happens to the cache of a store: lookups, insertions, and the worker's version counter.\<close>

datatype cache_event =
    Cache_Get string string
  | Cache_Set string string "retrieval_result list"
  | Indexed string
  | Index_Failed string

fun event_domain :: "cache_event \<Rightarrow> string" where
  "event_domain (Cache_Get d q) = d"
| "event_domain (Cache_Set d q rs) = d"
| "event_domain (Indexed d) = d"
| "event_domain (Index_Failed d) = d"

fun run_event :: "'w redis_keys \<Rightarrow> codec \<Rightarrow> cache_event \<Rightarrow> 'w \<Rightarrow> 'w option" where
  "run_event K C (Cache_Get d q) w = Some (snd (rc_Get K C d q w))"
| "run_event K C (Cache_Set d q rs) w = Some (snd (rc_Set K C d q rs w))"
| "run_event K C (Indexed d) w = (case kv_incr K (version_key d) w of (Inr _, w1) \<Rightarrow> Some w1 | (Inl _, w1) \<Rightarrow> None)"
| "run_event K C (Index_Failed d) w = (case kv_incr K (version_key d) w of (Inr _, w1) \<Rightarrow> None | (Inl _, w1) \<Rightarrow> Some w1)"

text \<open>The state after a sequence of events, when they can happen in this order.\<close>

fun run_events :: "'w redis_keys \<Rightarrow> codec \<Rightarrow> cache_event list \<Rightarrow> 'w \<Rightarrow> 'w option" where
  "run_events K C [] w = Some w"
| "run_events K C (e # es) w = (case run_event K C e w of None \<Rightarrow> None | Some w1 \<Rightarrow> run_events K C es w1)"

text \<open>The answers stored for a query since the last event that indexed a document of the domain.\<close>

definition stored_since :: "codec \<Rightarrow> string \<Rightarrow> string \<Rightarrow> cache_event list \<Rightarrow> retrieval_result list set" where
  "stored_since C d h evs =
     {rs. \<exists>pre q post. evs = pre @ Cache_Set d q rs # post \<and> sha256 C q = h \<and> Indexed d \<notin> set post}"

definition has_version :: "redis_view \<Rightarrow> string \<Rightarrow> int \<Rightarrow> bool" where
  "has_version v d n \<longleftrightarrow>
     n = 0 \<and> vals v (version_key d) = None \<or> 1 \<le> n \<and> n < 2 ^ 63 \<and> vals v (version_key d) = Some (dec_of_int n)"

definition digest_key :: "string \<Rightarrow> string \<Rightarrow> string \<Rightarrow> string" where
  "digest_key d h version = ''caw:retrieval:'' @ d @ '':'' @ h @ '':'' @ version"

definition word :: "string \<Rightarrow> bool" where
  "word s \<longleftrightarrow> CHR '':'' \<notin> set s"

definition cache_inv :: "codec \<Rightarrow> cache_event list \<Rightarrow> redis_view \<Rightarrow> bool" where
  "cache_inv C evs v \<longleftrightarrow>
     (\<forall>d. word d \<longrightarrow> version_key d \<notin> ttl v \<and> (\<exists>n. has_version v d n
        \<and> (\<forall>h m x. word h \<longrightarrow> vals v (digest_key d h (dec_of_int m)) = Some x \<longrightarrow>
             m \<le> n \<and> (m = n \<longrightarrow> x \<in> marshal_results C ` stored_since C d h evs))))"

lemma word_split: "word a \<Longrightarrow> word b \<Longrightarrow> a @ CHR '':'' # x = b @ CHR '':'' # y \<longleftrightarrow> a = b \<and> x = y"
proof (induction a arbitrary: b)
  case Nil
  then show ?case by (cases b) (auto simp: word_def)
next
  case (Cons c a)
  then show ?case by (cases b) (auto simp: word_def)
qed

lemma word_version [simp]: "word ''version''"
  by (simp add: word_def)

lemma digest_key_inject:
  "word d \<Longrightarrow> word h \<Longrightarrow> word d' \<Longrightarrow> word h' \<Longrightarrow>
   digest_key d h x = digest_key d' h' y \<longleftrightarrow> d = d' \<and> h = h' \<and> x = y"
  by (simp add: digest_key_def word_split)

lemma version_key_inject [simp]: "version_key d = version_key d' \<longleftrightarrow> d = d'"
  by (simp add: version_key_def)

lemma digest_not_version: "word d \<Longrightarrow> word d' \<Longrightarrow> digest_key d h x \<noteq> version_key d'"
proof
  assume d: "word d" "word d'" and "digest_key d h x = version_key d'"
  then have "d @ CHR '':'' # h @ CHR '':'' # x = d' @ CHR '':'' # ''version''"
    by (simp add: digest_key_def version_key_def)
  with d have "h @ CHR '':'' # x = ''version''" using word_split by blast
  then have "CHR '':'' \<in> set ''version''" by (metis in_set_conv_decomp)
  then show False by simp
qed

lemma cache_key_digest: "cache_key C d q x = digest_key d (sha256 C q) x"
  by (simp add: cache_key_def digest_key_def)

lemma stored_since_append:
  "stored_since C d h evs \<subseteq> stored_since C d h (evs @ [e]) \<or> e = Indexed d"
proof (cases "e = Indexed d")
  case False
  have "rs \<in> stored_since C d h (evs @ [e])" if "rs \<in> stored_since C d h evs" for rs
  proof -
    from that obtain pre q post where p: "evs = pre @ Cache_Set d q rs # post" "sha256 C q = h" "Indexed d \<notin> set post"
      unfolding stored_since_def by blast
    then have "evs @ [e] = pre @ Cache_Set d q rs # (post @ [e])" "Indexed d \<notin> set (post @ [e])" using False by auto
    with p(2) show ?thesis unfolding stored_since_def by blast
  qed
  then show ?thesis by blast
qed blast

lemma stored_since_set: "rs \<in> stored_since C d (sha256 C q) (evs @ [Cache_Set d q rs])"
  unfolding stored_since_def by (rule CollectI, rule exI [of _ evs], rule exI [of _ q], rule exI [of _ "[]"]) simp

lemma cache_inv_aged: "cache_inv C evs v \<Longrightarrow> aged v v' \<Longrightarrow> cache_inv C evs v'"
  unfolding cache_inv_def
proof (intro allI impI)
  fix d assume "\<forall>d. word d \<longrightarrow> version_key d \<notin> ttl v \<and> (\<exists>n. has_version v d n
      \<and> (\<forall>h m x. word h \<longrightarrow> vals v (digest_key d h (dec_of_int m)) = Some x \<longrightarrow>
           m \<le> n \<and> (m = n \<longrightarrow> x \<in> marshal_results C ` stored_since C d h evs)))"
    and a: "aged v v'" and "word d"
  then obtain n where n: "version_key d \<notin> ttl v" "has_version v d n"
      "\<And>h m x. word h \<Longrightarrow> vals v (digest_key d h (dec_of_int m)) = Some x \<Longrightarrow>
         m \<le> n \<and> (m = n \<longrightarrow> x \<in> marshal_results C ` stored_since C d h evs)" by blast
  have "has_version v' d n" using n(2) aged_persistent [OF a n(1)] by (simp add: has_version_def)
  then show "version_key d \<notin> ttl v' \<and> (\<exists>n. has_version v' d n
      \<and> (\<forall>h m x. word h \<longrightarrow> vals v' (digest_key d h (dec_of_int m)) = Some x \<longrightarrow>
           m \<le> n \<and> (m = n \<longrightarrow> x \<in> marshal_results C ` stored_since C d h evs)))"
    using n(1,3) aged_ttl [OF a] aged_vals [OF a] by blast
qed

lemma cache_inv_more:
  assumes "cache_inv C evs v" and "\<And>d. e \<noteq> Indexed d"
  shows "cache_inv C (evs @ [e]) v"
  using assms stored_since_append [of C _ _ evs e] unfolding cache_inv_def by (meson image_mono subsetD)

text \<open>Reading the version.\<close>

lemma getVersion_word:
  assumes "keys_law K view" and "cache_inv C evs (view w)" and "word d" and "getVersion K d w = (r, w1)"
  shows "aged (view w) (view w1) \<and> (\<forall>x. r = Inr x \<longrightarrow> (\<exists>n. has_version (view w1) d n \<and> x = dec_of_int n))"
proof -
  obtain g w2 where g: "kv_get K (version_key d) w = (g, w2)" by fastforce
  then have w1: "w1 = w2" and a: "aged (view w) (view w2)"
    using assms(4) keys_get [OF assms(1) g] by (auto simp: getVersion_def split: sum.splits option.splits)
  obtain n where n: "has_version (view w2) d n"
    using cache_inv_aged [OF assms(2) a] assms(3) unfolding cache_inv_def by blast
  have "x = dec_of_int n" if r: "r = Inr x" for x
  proof (cases g)
    case (Inl e)
    then show ?thesis using assms(4) g r by (simp add: getVersion_def)
  next
    case (Inr y)
    with keys_get_value [OF assms(1)] g have y: "y = vals (view w2) (version_key d)" by blast
    have z: "dec_of_int 0 = ''0''" by code_simp
    show ?thesis
      using assms(4) g r Inr n unfolding has_version_def y by (auto simp: getVersion_def z split: option.splits)
  qed
  with a n w1 show ?thesis by blast
qed

lemma cacheKey_word:
  assumes "keys_law K view" and "cache_inv C evs (view w)" and "word d" and "rc_cacheKey K C d q w = (r, w1)"
  shows "aged (view w) (view w1)
    \<and> (\<forall>k. r = Inr k \<longrightarrow> (\<exists>n. has_version (view w1) d n \<and> k = digest_key d (sha256 C q) (dec_of_int n)))"
proof -
  obtain g w2 where g: "getVersion K d w = (g, w2)" by fastforce
  with assms(4) getVersion_word [OF assms(1-3) g] show ?thesis
    by (cases g) (auto simp: rc_cacheKey_def cache_key_digest)
qed

lemma rc_Get_word:
  assumes "keys_law K view" and "cache_inv C evs (view w)" and "word d" and "word (sha256 C q)"
    and "rc_Get K C d q w = (r, w1)"
  shows "aged (view w) (view w1) \<and> (\<forall>rs. r = Inr (Some rs) \<longrightarrow>
           Inr rs \<in> (unmarshal_results C \<circ> marshal_results C) ` stored_since C d (sha256 C q) evs)"
proof -
  obtain g w2 where g: "rc_cacheKey K C d q w = (g, w2)" by fastforce
  note k = cacheKey_word [OF assms(1-3) g]
  show ?thesis
  proof (cases g)
    case (Inl e)
    with assms(5) g k show ?thesis by (auto simp: rc_Get_def)
  next
    case (Inr key)
    obtain h w3 where h: "kv_get K key w2 = (h, w3)" by fastforce
    have a: "aged (view w2) (view w3)" by (rule keys_get [OF assms(1) h])
    have w1: "w1 = w3"
      using assms(5) g h Inr by (auto simp: rc_Get_def split: sum.splits option.splits)
    from k Inr obtain n where n: "has_version (view w2) d n" "key = digest_key d (sha256 C q) (dec_of_int n)" by blast
    have inv: "cache_inv C evs (view w2)" using cache_inv_aged [OF assms(2)] k by blast
    have "Inr rs \<in> (unmarshal_results C \<circ> marshal_results C) ` stored_since C d (sha256 C q) evs"
      if r: "r = Inr (Some rs)" for rs
    proof -
      from assms(5) g h Inr r obtain x where x: "h = Inr (Some x)" "unmarshal_results C x = Inr rs"
        by (auto simp: rc_Get_def split: sum.splits option.splits)
      from keys_get_value [OF assms(1) h [unfolded x(1)]] have "vals (view w3) key = Some x" by simp
      then have v: "vals (view w2) key = Some x" by (rule aged_vals [OF a])
      from inv assms(3,4) v obtain n' where n': "has_version (view w2) d n'" "n \<le> n'"
          "n = n' \<longrightarrow> x \<in> marshal_results C ` stored_since C d (sha256 C q) evs"
        unfolding cache_inv_def n(2) by blast
      have "n = n'" using n(1) n'(1) by (auto simp: has_version_def)
      with n'(3) obtain rs' where "rs' \<in> stored_since C d (sha256 C q) evs" "x = marshal_results C rs'" by blast
      with x(2) show ?thesis by (intro image_eqI [of _ _ rs']) simp_all
    qed
    with aged_trans [OF _ a] k w1 show ?thesis by blast
  qed
qed

lemma cache_inv_set:
  assumes "cache_inv C evs v" and "word d" and "word (sha256 C q)" and "has_version v d n"
  shows "cache_inv C (evs @ [Cache_Set d q rs]) (view_set (digest_key d (sha256 C q) (dec_of_int n)) (marshal_results C rs) v)"
    (is "cache_inv C ?evs ?v")
  unfolding cache_inv_def
proof (intro allI impI)
  fix d' assume d': "word d'"
  with assms(1) obtain n' where n': "version_key d' \<notin> ttl v" "has_version v d' n'"
      "\<And>h m x. word h \<Longrightarrow> vals v (digest_key d' h (dec_of_int m)) = Some x \<Longrightarrow>
         m \<le> n' \<and> (m = n' \<longrightarrow> x \<in> marshal_results C ` stored_since C d' h evs)"
    unfolding cache_inv_def by blast
  have k: "version_key d' \<noteq> digest_key d (sha256 C q) (dec_of_int n)" using digest_not_version [OF assms(2) d'] by metis
  have "m \<le> n' \<and> (m = n' \<longrightarrow> x \<in> marshal_results C ` stored_since C d' h ?evs)"
    if h: "word h" and x: "vals ?v (digest_key d' h (dec_of_int m)) = Some x" for h m x
  proof (cases "digest_key d' h (dec_of_int m) = digest_key d (sha256 C q) (dec_of_int n)")
    case True
    then have e: "d' = d" "h = sha256 C q" "m = n" using digest_key_inject [OF d' h assms(2,3)] by auto
    moreover have "n' = n" using n'(2) assms(4) unfolding e has_version_def by auto
    moreover have "x = marshal_results C rs" using x unfolding True by (simp add: view_set_def)
    ultimately show ?thesis using stored_since_set [of rs C d q evs] by simp
  next
    case False
    then have "vals v (digest_key d' h (dec_of_int m)) = Some x" using x by (simp add: view_set_def)
    from n'(3) [OF h this] show ?thesis using stored_since_append [of C d' h evs "Cache_Set d q rs"] by blast
  qed
  moreover have "has_version ?v d' n'" using n'(2) k by (simp add: has_version_def view_set_def)
  moreover have "version_key d' \<notin> ttl ?v" using n'(1) k by (simp add: view_set_def)
  ultimately show "version_key d' \<notin> ttl ?v \<and> (\<exists>n. has_version ?v d' n \<and> (\<forall>h m x. word h \<longrightarrow>
      vals ?v (digest_key d' h (dec_of_int m)) = Some x \<longrightarrow> m \<le> n \<and> (m = n \<longrightarrow> x \<in> marshal_results C ` stored_since C d' h ?evs)))"
    by blast
qed

lemma cache_inv_incr:
  assumes "cache_inv C evs v" and "word d" and "Some v' = view_incr (version_key d) v"
  shows "cache_inv C (evs @ [Indexed d]) v'"
  unfolding cache_inv_def
proof (intro allI impI)
  fix d' assume d': "word d'"
  with assms(1) obtain n where n: "version_key d' \<notin> ttl v" "has_version v d' n"
      "\<And>h m x. word h \<Longrightarrow> vals v (digest_key d' h (dec_of_int m)) = Some x \<Longrightarrow>
         m \<le> n \<and> (m = n \<longrightarrow> x \<in> marshal_results C ` stored_since C d' h evs)"
    unfolding cache_inv_def by blast
  from assms(3) obtain c where c: "counter_of (vals v (version_key d)) = Some c" "c < 2 ^ 63 - 1"
      "v' = v\<lparr>vals := (vals v)(version_key d \<mapsto> dec_of_int (c + 1))\<rparr>"
    by (auto simp: view_incr_def split: option.splits if_splits)
  have old: "vals v' (digest_key d' h x) = vals v (digest_key d' h x)" for h x
    using digest_not_version [OF d' assms(2)] by (simp add: c(3))
  let ?n = "if d' = d then n + 1 else n"
  have "has_version v' d' ?n"
  proof (cases "d' = d")
    case True
    have "c = n"
      using n(2) c(1) int_literal_dec [of n] unfolding True by (auto simp: has_version_def counter_of_def)
    then show ?thesis using n(2) c(2) unfolding True has_version_def by (auto simp: c(3))
  next
    case False
    then show ?thesis using n(2) by (simp add: has_version_def c(3))
  qed
  moreover have "m \<le> ?n \<and> (m = ?n \<longrightarrow> x \<in> marshal_results C ` stored_since C d' h (evs @ [Indexed d]))"
    if "word h" "vals v' (digest_key d' h (dec_of_int m)) = Some x" for h m x
    using n(3) [of h m x] that stored_since_append [of C d' h evs "Indexed d"] unfolding old by auto
  ultimately show "version_key d' \<notin> ttl v' \<and> (\<exists>n. has_version v' d' n \<and> (\<forall>h m x. word h \<longrightarrow>
      vals v' (digest_key d' h (dec_of_int m)) = Some x \<longrightarrow>
      m \<le> n \<and> (m = n \<longrightarrow> x \<in> marshal_results C ` stored_since C d' h (evs @ [Indexed d]))))"
    using n(1) by (intro conjI exI [of _ ?n]) (simp_all add: c(3))
qed

lemma run_event_inv:
  assumes "keys_law K view" and "\<And>q. word (sha256 C q)" and "word (event_domain e)"
    and "cache_inv C evs (view w)" and "run_event K C e w = Some w'"
  shows "cache_inv C (evs @ [e]) (view w')"
proof (cases e)
  case (Cache_Get d q)
  obtain r w1 where "rc_Get K C d q w = (r, w1)" by fastforce
  with rc_Get_word [OF assms(1,4) _ assms(2) this] assms(3,5) Cache_Get have "aged (view w) (view w')" by auto
  with assms(4) show ?thesis using Cache_Get by (intro cache_inv_more cache_inv_aged [OF assms(4)]) auto
next
  case (Cache_Set d q rs)
  with assms(3) have d: "word d" by simp
  obtain r w1 where r: "rc_cacheKey K C d q w = (r, w1)" by fastforce
  note k = cacheKey_word [OF assms(1,4) d r]
  have inv: "cache_inv C evs (view w1)" using cache_inv_aged [OF assms(4)] k by blast
  show ?thesis
  proof (cases r)
    case (Inl err)
    then have "w' = w1" using assms(5) r Cache_Set by (simp add: rc_Set_def)
    with inv show ?thesis using Cache_Set by (intro cache_inv_more) auto
  next
    case (Inr key)
    from k Inr obtain n where n: "has_version (view w1) d n" "key = digest_key d (sha256 C q) (dec_of_int n)" by blast
    obtain err w2 where s: "kv_set K key (marshal_results C rs) cacheTTL w1 = (err, w2)" by fastforce
    have w': "w' = w2" using assms(5) r s Inr Cache_Set by (simp add: rc_Set_def)
    obtain v where v: "aged (view w1) v" "view w' = view_set key (marshal_results C rs) v \<or> err \<noteq> None \<and> view w' = v"
      using keys_set [OF assms(1) s] w' by blast
    have inv': "cache_inv C evs v" using cache_inv_aged [OF inv v(1)] .
    have "has_version v d n"
      using n(1) aged_persistent [OF v(1)] inv d unfolding has_version_def cache_inv_def by metis
    from cache_inv_set [OF inv' d assms(2) this, where rs = rs] v(2) cache_inv_more [OF inv', of e] show ?thesis
      using Cache_Set n(2) by auto
  qed
next
  case (Indexed d)
  obtain r w1 where r: "kv_incr K (version_key d) w = (r, w1)" by fastforce
  with assms(5) Indexed have "w' = w1" "\<exists>i. r = Inr i" by (auto split: sum.splits)
  with keys_incr [OF assms(1) r] obtain v where "aged (view w) v" "Some (view w') = view_incr (version_key d) v"
    by (metis Inl_Inr_False)
  with cache_inv_incr [OF cache_inv_aged [OF assms(4)]] assms(3) show ?thesis unfolding Indexed by auto
next
  case (Index_Failed d)
  obtain r w1 where r: "kv_incr K (version_key d) w = (r, w1)" by fastforce
  with assms(5) Index_Failed have w': "w' = w1" by (auto split: sum.splits)
  obtain v where v: "aged (view w) v" "Some (view w') = view_incr (version_key d) v \<or> view w' = v"
    using keys_incr [OF assms(1) r] w' by metis
  have inv: "cache_inv C evs v" using cache_inv_aged [OF assms(4) v(1)] .
  then have "cache_inv C (evs @ [Index_Failed d]) v" by (intro cache_inv_more) auto
  moreover have "cache_inv C (evs @ [Index_Failed d]) (view w')" if "Some (view w') = view_incr (version_key d) v"
  proof -
    have s: "stored_since C d' h (evs @ [Indexed d]) \<subseteq> stored_since C d' h (evs @ [Index_Failed d])" for d' h
    proof
      fix rs assume "rs \<in> stored_since C d' h (evs @ [Indexed d])"
      then obtain pre q post where p: "evs @ [Indexed d] = pre @ Cache_Set d' q rs # post" "sha256 C q = h" "Indexed d' \<notin> set post"
        unfolding stored_since_def by blast
      then have "post \<noteq> []" by auto
      then obtain post' where "post = post' @ [Indexed d]" using p(1) by (cases post rule: rev_cases) auto
      with p have "evs @ [Index_Failed d] = pre @ Cache_Set d' q rs # (post' @ [Index_Failed d])" "Indexed d' \<notin> set (post' @ [Index_Failed d])"
        by auto
      with p(2) show "rs \<in> stored_since C d' h (evs @ [Index_Failed d])" unfolding stored_since_def by blast
    qed
    from cache_inv_incr [OF inv _ that] assms(3) Index_Failed have "cache_inv C (evs @ [Indexed d]) (view w')" by simp
    with s show ?thesis unfolding cache_inv_def by (meson image_mono subsetD)
  qed
  ultimately show ?thesis using v(2) unfolding Index_Failed by auto
qed

lemma run_events_inv:
  assumes "keys_law K view" and "\<And>q. word (sha256 C q)"
  shows "\<forall>e \<in> set es. word (event_domain e) \<Longrightarrow> cache_inv C evs (view w) \<Longrightarrow> run_events K C es w = Some w' \<Longrightarrow>
    cache_inv C (evs @ es) (view w')"
proof (induction es arbitrary: evs w)
  case (Cons e es)
  then obtain w1 where w1: "run_event K C e w = Some w1" "run_events K C es w1 = Some w'" by (auto split: option.splits)
  with Cons.prems Cons.IH [OF _ run_event_inv [OF assms]] show ?case by fastforce
qed simp

lemma cache_inv_start:
  assumes "\<And>k. vals v (''caw:retrieval:'' @ k) = None" and "\<And>k. ''caw:retrieval:'' @ k \<notin> ttl v"
  shows "cache_inv C [] v"
  using assms by (simp add: cache_inv_def version_key_def digest_key_def has_version_def)

section \<open>Properties\<close>


definition sample_codec :: codec where
  "sample_codec = \<lparr>sha256 = (\<lambda>q. ''0''), num_text = (\<lambda>x. ''1''), text_num = (\<lambda>x. 1)\<rparr>"

abbreviation (input) plain_redis :: "memory_redis redis_keys" where
  "plain_redis \<equiv> memory_keys (\<lambda>m. m) (\<lambda>m _. m)"

lemma plain_redis_law: "keys_law plain_redis (memory_view (\<lambda>m. m))"
  by (rule memory_keys_law) simp


text \<open>
  The answer of a retrieval is stored under the version the domain has when the searches are over,
  not under the one it had when they began: when a document is indexed in between, the answer that does
  not know the document is what the lookups of the new version find.
\<close>

theorem late_answers_get_the_new_version:
  assumes "keys_law K view" and "r_keys R = Some K" and "version_key d \<notin> ttl (view w2)"
    and "CHR '':'' \<notin> set d" and "CHR '':'' \<notin> set (sha256 (r_codec R) q)"
    and "has_version (view w) d old" and "has_version (view w2) d new" and "old < new"
    and "retrieve_cached R q d w = (None, w1)" and "legs R i q d w1 = ((ann, fts), w2)"
    and "RRFMerge (r_range R) (r_sort R) ann fts 5 = answer" and "answer \<noteq> []"
    and "rc_Set K (r_codec R) d q answer w2 = (None, w3)"
  shows "Retrieve R i q d w = (answer, w3) \<and> has_version (view w3) d new
    \<and> vals (view w3) (cache_key (r_codec R) d q (dec_of_int new)) = Some (marshal_results (r_codec R) answer)"
proof -
  note words = assms(4,5) [folded word_def]
  have "Retrieve R i q d w = (answer, w3)"
    using assms(2,9-13) by (simp add: Retrieve_def)
  moreover obtain g w' where g: "kv_get K (version_key d) w2 = (g, w')" by fastforce
  have a: "aged (view w2) (view w')" by (rule keys_get [OF assms(1) g])
  have v': "has_version (view w') d new"
    using assms(7) aged_persistent [OF a assms(3)] by (simp add: has_version_def)
  let ?key = "digest_key d (sha256 (r_codec R) q) (dec_of_int new)" and ?x = "marshal_results (r_codec R) answer"
  have s: "kv_set K ?key ?x cacheTTL w' = (None, w3)"
  proof (cases g)
    case (Inl e)
    then show ?thesis using assms(13) g by (simp add: rc_Set_def rc_cacheKey_def getVersion_def)
  next
    case (Inr y)
    with keys_get_value [OF assms(1)] g have y: "y = vals (view w') (version_key d)" by blast
    have z: "dec_of_int 0 = ''0''" by code_simp
    show ?thesis
      using assms(13) g Inr v' unfolding has_version_def y
      by (auto simp: rc_Set_def rc_cacheKey_def getVersion_def cache_key_digest z split: option.splits)
  qed
  obtain v where v: "aged (view w') v" "view w3 = view_set ?key ?x v" using keys_set [OF assms(1) s] by blast
  have "has_version v d new"
    using v' aged_persistent [OF v(1)] assms(3) aged_ttl [OF a] by (simp add: has_version_def)
  then have "has_version (view w3) d new"
    using digest_not_version [OF words(1) words(1), symmetric] by (auto simp: v(2) has_version_def view_set_def)
  ultimately show ?thesis by (simp add: v(2) view_set_def cache_key_digest)
qed

text \<open>A full-text search during which a document is indexed.\<close>

definition found_old :: pg_chunk where
  "found_old = \<lparr>CID = ''c'', CDocumentID = [], CIndex = 0, CContent = ''old'', CContentHash = [], CQdrantPointID = [],
     CDomain = ''code'', CEmbeddingModel = []\<rparr>"

definition racing_retriever :: "memory_redis hybrid_retriever" where
  "racing_retriever = \<lparr>
     r_embed = (\<lambda>q w. (Inl ''down'', w)), r_search = (\<lambda>d v k w. (Inl ''down'', w)),
     r_fts = (\<lambda>d q k w. (Inr [found_old], snd (kv_incr plain_redis (version_key d) w))),
     r_keys = Some plain_redis, r_codec = sample_codec, r_range = (\<lambda>ks. ks), r_sort = insertion_by\<rparr>"

lemma late_answers_get_the_new_version_witness:
  "\<exists>w3. Retrieve racing_retriever 0 ''q'' ''code'' ([], []) = ([(fts_result ''code'' (0, found_old))\<lparr>Score := 1 / 61\<rparr>], w3)
     \<and> vals (memory_view (\<lambda>m. m) w3) (cache_key sample_codec ''code'' ''q'' ''1'')
         = Some (marshal_results sample_codec [(fts_result ''code'' (0, found_old))\<lparr>Score := 1 / 61\<rparr>])"
proof -
  let ?R = "racing_retriever" and ?a = "[(fts_result ''code'' (0, found_old))\<lparr>Score := 1 / 61\<rparr>]"
  define w2 :: memory_redis where "w2 = ([(version_key ''code'', ''1'')], [])"
  define w3 where "w3 = snd (rc_Set plain_redis sample_codec ''code'' ''q'' ?a w2)"
  have one: "dec_of_int 1 = ''1''" by code_simp
  have l: "legs ?R 0 ''q'' ''code'' ([], []) = (([], [fts_result ''code'' (0, found_old)]), w2)"
    by (simp add: legs_def fts_leg_def ann_search_def racing_retriever_def memory_keys_def counter_of_def w2_def one)
  have c: "retrieve_cached ?R ''q'' ''code'' ([], []) = (None, ([], []))" by code_simp
  have m: "RRFMerge (r_range ?R) (r_sort ?R) [] [fts_result ''code'' (0, found_old)] 5 = ?a"
    by (simp add: racing_retriever_def RRFMerge_def rrf_collect_def rrf_add_def rrf_term_def insertion_by_def)
  have s: "rc_Set plain_redis sample_codec ''code'' ''q'' ?a w2 = (None, w3)"
    by (simp add: w3_def rc_Set_def rc_cacheKey_def getVersion_def memory_keys_def w2_def)
  have rc: "r_codec ?R = sample_codec" by (simp add: racing_retriever_def)
  have "Retrieve ?R 0 ''q'' ''code'' ([], []) = (?a, w3)
      \<and> has_version (memory_view (\<lambda>m. m) w3) ''code'' 1
      \<and> vals (memory_view (\<lambda>m. m) w3) (cache_key (r_codec ?R) ''code'' ''q'' (dec_of_int 1))
          = Some (marshal_results (r_codec ?R) ?a)"
    by (rule late_answers_get_the_new_version [where old = 0 and new = 1, OF plain_redis_law _ _ _ _ _ _ _ c l m _ s [folded rc]])
      (simp_all add: racing_retriever_def memory_view_def w2_def sample_codec_def has_version_def one)
  then show ?thesis by (simp add: one racing_retriever_def)
qed

end
