(* ===== verification/Ingest_Jobs.thy ===== *)
theory Ingest_Jobs
  imports Redis_Keys PG_Store Qdrant
begin

text \<open>
  Jobs of the document ingestion and their status: \<open>internal/ingest/types.go\<close>, \<open>enqueue.go\<close>, \<open>dlq.go\<close>,
  and the chunking of \<open>worker.go\<close>.

  A point in time is its RFC 3339 text; which texts the JSON decoder accepts is a parameter. What the
  worker uses, Redis streams and keys, the embedding client, the two stores, clock, UUIDs, SHA-256 and
  the scheduler of its goroutines, is the record \<open>ingest_env\<close>.
\<close>

record ingest_job =
  JDocumentID :: string
  JDomain :: string
  JContent :: string
  JTitle :: string
  JEnqueuedAt :: string
  JRetryCount :: int

record ingest_status =
  SDocumentID :: string
  SStatus :: string
  SErrorDetail :: string
  SUpdatedAt :: string

record stream_message =
  msg_id :: string
  msg_values :: "(string \<times> string) list"

datatype read_outcome = Read_Nothing | Read_Error goerr | Read_Messages "stream_message list"

record 'w ingest_env =
  i_keys :: "'w redis_keys"
  i_xadd :: "string \<Rightarrow> (string \<times> string) list \<Rightarrow> 'w \<Rightarrow> string result \<times> 'w"
  i_xack :: "string \<Rightarrow> string \<Rightarrow> string \<Rightarrow> 'w \<Rightarrow> int result \<times> 'w"
  i_xlen :: "string \<Rightarrow> 'w \<Rightarrow> int result \<times> 'w"
  i_xgroup :: "string \<Rightarrow> string \<Rightarrow> string \<Rightarrow> 'w \<Rightarrow> goerr option \<times> 'w"
  i_xread :: "string \<Rightarrow> string \<Rightarrow> string \<Rightarrow> 'w \<Rightarrow> read_outcome \<times> 'w"
  i_now :: "'w \<Rightarrow> string"
  i_time_ok :: "string \<Rightarrow> bool"
  i_uuid :: "'w \<Rightarrow> string \<times> 'w"
  i_sha :: "string \<Rightarrow> string"
  i_embed :: "string \<Rightarrow> 'w \<Rightarrow> string list result \<times> 'w"
  i_qdrant :: "string \<Rightarrow> qdrant_point list \<Rightarrow> 'w \<Rightarrow> goerr option \<times> 'w"
  i_pg :: "pg_chunk \<Rightarrow> 'w \<Rightarrow> goerr option \<times> 'w"
  i_cancelled :: "'w \<Rightarrow> goerr option"
  i_schedule :: "'w \<Rightarrow> nat list"

definition ingestStream :: string where "ingestStream = ''caw:ingest:stream''"
definition dlqStream :: string where "dlqStream = ''caw:ingest:dlq''"
definition statusKeyPrefix :: string where "statusKeyPrefix = ''caw:ingest:status:''"
definition statusTTL :: int where "statusTTL = 24 * 3600 * second"

section \<open>JSON\<close>

definition zero_time :: string where
  "zero_time = ''0001-01-01T00:00:00Z''"

definition as_time :: "(string \<Rightarrow> bool) \<Rightarrow> json \<Rightarrow> string result" where
  "as_time ok v = (case v of JNull \<Rightarrow> Inr zero_time
     | JStr s \<Rightarrow> (if ok s then Inr s else Inl ''parsing time: cannot parse'')
     | _ \<Rightarrow> Inl ''Time.UnmarshalJSON: input is not a JSON string'')"

definition time_field :: "(string \<Rightarrow> bool) \<Rightarrow> string \<Rightarrow> (string \<times> json) list \<Rightarrow> string result" where
  "time_field ok k ms = jfold (as_time ok) zero_time (jmatches k ms)"

definition marshal_job :: "ingest_job \<Rightarrow> string" where
  "marshal_job j = json_print (JObj ([(''document_id'', JStr (JDocumentID j)), (''domain'', JStr (JDomain j)),
     (''content'', JStr (JContent j))] @ (if JTitle j = [] then [] else [(''title'', JStr (JTitle j))])
     @ [(''enqueued_at'', JStr (JEnqueuedAt j)), (''retry_count'', JInt (JRetryCount j))]))"

definition unmarshal_job :: "(string \<Rightarrow> bool) \<Rightarrow> string \<Rightarrow> ingest_job result" where
  "unmarshal_job ok s =
     result_bind (unmarshal_obj s) (\<lambda>ms. result_bind (str_field ''document_id'' ms) (\<lambda>i.
       result_bind (str_field ''domain'' ms) (\<lambda>d. result_bind (str_field ''content'' ms) (\<lambda>c.
         result_bind (str_field ''title'' ms) (\<lambda>t. result_bind (time_field ok ''enqueued_at'' ms) (\<lambda>e.
           result_bind (int_field ''retry_count'' ms) (\<lambda>n.
             Inr \<lparr>JDocumentID = i, JDomain = d, JContent = c, JTitle = t, JEnqueuedAt = e, JRetryCount = n\<rparr>)))))))"

definition marshal_status :: "ingest_status \<Rightarrow> string" where
  "marshal_status s = json_print (JObj ([(''document_id'', JStr (SDocumentID s)), (''status'', JStr (SStatus s))]
     @ (if SErrorDetail s = [] then [] else [(''error_detail'', JStr (SErrorDetail s))])
     @ [(''updated_at'', JStr (SUpdatedAt s))]))"

definition unmarshal_status :: "(string \<Rightarrow> bool) \<Rightarrow> string \<Rightarrow> ingest_status result" where
  "unmarshal_status ok s =
     result_bind (unmarshal_obj s) (\<lambda>ms. result_bind (str_field ''document_id'' ms) (\<lambda>i.
       result_bind (str_field ''status'' ms) (\<lambda>st. result_bind (str_field ''error_detail'' ms) (\<lambda>e.
         result_bind (time_field ok ''updated_at'' ms) (\<lambda>t.
           Inr \<lparr>SDocumentID = i, SStatus = st, SErrorDetail = e, SUpdatedAt = t\<rparr>)))))"

section \<open>The queue, the status and the dead letters\<close>

definition updateStatus :: "'w ingest_env \<Rightarrow> string \<Rightarrow> string \<Rightarrow> string \<Rightarrow> 'w \<Rightarrow> goerr option \<times> 'w" where
  "updateStatus E docID status errDetail w =
     kv_set (i_keys E) (statusKeyPrefix @ docID)
       (marshal_status \<lparr>SDocumentID = docID, SStatus = status, SErrorDetail = errDetail, SUpdatedAt = i_now E w\<rparr>)
       statusTTL w"

definition Enqueue :: "'w ingest_env \<Rightarrow> ingest_job \<Rightarrow> 'w \<Rightarrow> goerr option \<times> 'w" where
  "Enqueue E job w =
     (case i_xadd E ingestStream [(''job'', marshal_job job)] w of
        (Inl e, w1) \<Rightarrow> (Some (''xadd ingest stream: '' @ e), w1)
      | (Inr _, w1) \<Rightarrow>
          (case kv_set (i_keys E) (statusKeyPrefix @ JDocumentID job)
                  (marshal_status \<lparr>SDocumentID = JDocumentID job, SStatus = ''pending'', SErrorDetail = [],
                     SUpdatedAt = i_now E w1\<rparr>) statusTTL w1 of
             (Some e, w2) \<Rightarrow> (Some (''set status: '' @ e), w2)
           | (None, w2) \<Rightarrow> (None, w2)))"

definition GetStatus :: "'w ingest_env \<Rightarrow> string \<Rightarrow> 'w \<Rightarrow> ingest_status result \<times> 'w" where
  "GetStatus E documentID w =
     (case kv_get (i_keys E) (statusKeyPrefix @ documentID) w of
        (Inr None, w1) \<Rightarrow> (Inl (''status not found for document '' @ go_quote documentID), w1)
      | (Inl e, w1) \<Rightarrow> (Inl (''get status: '' @ e), w1)
      | (Inr (Some raw), w1) \<Rightarrow>
          (case unmarshal_status (i_time_ok E) raw of
             Inl e \<Rightarrow> (Inl (''unmarshal status: '' @ e), w1)
           | Inr s \<Rightarrow> (Inr s, w1)))"

definition sendToDLQ :: "'w ingest_env \<Rightarrow> ingest_job \<Rightarrow> string \<Rightarrow> 'w \<Rightarrow> goerr option \<times> 'w" where
  "sendToDLQ E job0 errMsg w =
     (let job = job0\<lparr>JRetryCount := JRetryCount job0 + 1\<rparr>
      in if JRetryCount job \<ge> 3 then updateStatus E (JDocumentID job) ''failed'' errMsg w
         else case i_xadd E dlqStream [(''job'', marshal_job job)] w of
                (Inl e, w1) \<Rightarrow> (Some (''xadd dlq: '' @ e), w1)
              | (Inr _, w1) \<Rightarrow> (None, w1))"

definition SendToDLQ :: "'w ingest_env \<Rightarrow> ingest_job \<Rightarrow> string \<Rightarrow> 'w \<Rightarrow> goerr option \<times> 'w" where
  "SendToDLQ E = sendToDLQ E"

definition DLQDepth :: "'w ingest_env \<Rightarrow> 'w \<Rightarrow> int result \<times> 'w" where
  "DLQDepth E w =
     (case i_xlen E dlqStream w of
        (Inl e, w1) \<Rightarrow> (Inl (''xlen dlq: '' @ e), w1) | (Inr n, w1) \<Rightarrow> (Inr n, w1))"

section \<open>Chunking\<close>

definition wordsPerChunk :: nat where
  "wordsPerChunk = 500"

function chunk_words :: "string list \<Rightarrow> string list" where
  "chunk_words ws =
     (if ws = [] then [] else join '' '' (take wordsPerChunk ws) # chunk_words (drop wordsPerChunk ws))"
  by pat_completeness auto

termination
  by (relation "measure length") (auto simp: wordsPerChunk_def)

declare chunk_words.simps [simp del]

definition chunkContent :: "string \<Rightarrow> string list" where
  "chunkContent content = chunk_words (Go_Strings.fields content)"

definition job_chunks :: "ingest_job \<Rightarrow> string list" where
  "job_chunks job = (let cs = chunkContent (JContent job) in if cs = [] then [JContent job] else cs)"

lemma chunk_words_Nil [simp]: "chunk_words [] = []"
  by (simp add: chunk_words.simps)

lemma chunk_words_fields:
  assumes "\<And>w. w \<in> set ws \<Longrightarrow> w \<noteq> [] \<and> (\<forall>x \<in> set w. \<not> is_space x)"
  shows "concat (map Go_Strings.fields (chunk_words ws)) = ws"
  using assms
proof (induction ws rule: chunk_words.induct)
  case (1 ws)
  show ?case
  proof (cases "ws = []")
    case False
    have "Go_Strings.fields (join '' '' (take wordsPerChunk ws)) = take wordsPerChunk ws"
      using 1(2) by (intro fields_join) (metis in_set_takeD)
    moreover have "concat (map Go_Strings.fields (chunk_words (drop wordsPerChunk ws))) = drop wordsPerChunk ws"
      using 1(2) by (intro 1(1) [OF False]) (metis in_set_dropD)
    ultimately show ?thesis using False by (subst chunk_words.simps) simp
  qed simp
qed

lemma chunk_words_sizes:
  assumes "\<And>w. w \<in> set ws \<Longrightarrow> w \<noteq> [] \<and> (\<forall>x \<in> set w. \<not> is_space x)"
  shows "c \<in> set (butlast (chunk_words ws)) \<Longrightarrow> length (Go_Strings.fields c) = wordsPerChunk"
    and "c \<in> set (chunk_words ws) \<Longrightarrow> 0 < length (Go_Strings.fields c) \<and> length (Go_Strings.fields c) \<le> wordsPerChunk"
  using assms
proof (induction ws arbitrary: c rule: chunk_words.induct)
  case (1 ws)
  {
    case 1
    from 1(1) have ne: "ws \<noteq> []" by (auto simp: chunk_words.simps)
    have f: "Go_Strings.fields (join '' '' (take wordsPerChunk ws)) = take wordsPerChunk ws"
      using 1(2) by (intro fields_join) (metis in_set_takeD)
    from 1(1) ne have "chunk_words (drop wordsPerChunk ws) \<noteq> []"
      "c = join '' '' (take wordsPerChunk ws) \<or> c \<in> set (butlast (chunk_words (drop wordsPerChunk ws)))"
      by (simp_all add: chunk_words.simps [of ws] split: if_splits)
    moreover then have "length (take wordsPerChunk ws) = wordsPerChunk"
      by (cases "length ws \<le> wordsPerChunk") auto
    ultimately show ?case using f "1.IH"(1) [OF ne, of c] 1(2) by (auto dest: in_set_dropD)
  next
    case 2
    from 2(1) have ne: "ws \<noteq> []" by (auto simp: chunk_words.simps)
    have f: "Go_Strings.fields (join '' '' (take wordsPerChunk ws)) = take wordsPerChunk ws"
      using 2(2) by (intro fields_join) (metis in_set_takeD)
    from 2(1) ne have "c = join '' '' (take wordsPerChunk ws) \<or> c \<in> set (chunk_words (drop wordsPerChunk ws))"
      by (simp add: chunk_words.simps [of ws])
    then show ?case using f ne "1.IH"(2) [OF ne, of c] 2(2) by (auto simp: wordsPerChunk_def dest: in_set_dropD)
  }
qed

text \<open>
  C23. Chunking loses no word: the words of the chunks, in order, are the words of the content; every
  chunk has at most 500 words, and only the last may have fewer.
\<close>

theorem chunks_keep_all_words:
  "concat (map Go_Strings.fields (chunkContent content)) = Go_Strings.fields content
   \<and> (\<forall>c \<in> set (chunkContent content). 0 < length (Go_Strings.fields c) \<and> length (Go_Strings.fields c) \<le> 500)
   \<and> (\<forall>c \<in> set (butlast (chunkContent content)). length (Go_Strings.fields c) = 500)"
proof -
  have w: "w \<noteq> [] \<and> (\<forall>x \<in> set w. \<not> is_space x)" if "w \<in> set (Go_Strings.fields content)" for w
    using that fields_nonempty fields_no_space by blast
  show ?thesis
    using chunk_words_fields [OF w] chunk_words_sizes [OF w] by (simp add: chunkContent_def wordsPerChunk_def)
qed

lemma chunks_keep_all_words_witness:
  "concat (map Go_Strings.fields (chunkContent ''a  b'')) = [''a'', ''b'']"
proof -
  have "Go_Strings.fields ''a  b'' = [''a'', ''b'']" by code_simp
  then show ?thesis using chunks_keep_all_words [of "''a  b''"] by simp
qed

section \<open>Jobs and states survive the store\<close>

lemma unmarshal_print: "wf_json (JObj ms) \<Longrightarrow> unmarshal_obj (json_print (JObj ms)) = Inr ms"
  by (simp add: unmarshal_obj_def json_parse_print as_obj_def del: json_print.simps wf_json.simps)

lemmas field_simps_json = str_field_def int_field_def time_field_def jmatches_def to_lower_def lower_char_def is_upper_def
  as_str_def as_int_def as_time_def int_literal_dec

lemma status_roundtrip:
  assumes "ok (SUpdatedAt s)"
  shows "unmarshal_status ok (marshal_status s) = Inr s"
  unfolding unmarshal_status_def marshal_status_def
  using assms by (subst unmarshal_print) (auto simp: field_simps_json)

lemma job_roundtrip:
  assumes "ok (JEnqueuedAt j)" and "- (2 ^ 63) \<le> JRetryCount j" and "JRetryCount j < 2 ^ 63"
  shows "unmarshal_job ok (marshal_job j) = Inr j"
  unfolding unmarshal_job_def marshal_job_def
  using assms by (subst unmarshal_print) (auto simp: field_simps_json)

end
