(* ===== verification/Ingest_Worker.thy ===== *)
theory Ingest_Worker
  imports Ingest_Jobs
begin

text \<open>
  The ingestion worker, \<open>internal/ingest/worker.go\<close>.

  The chunks of a job are embedded by one goroutine each, of which at most four hold a slot of the
  semaphore at a time. A goroutine goes through the states of \<open>gstate\<close>; a schedule is the list of the
  goroutines that the scheduler lets do their next step, and picking one that cannot go on changes
  nothing. The worker handles one job at a time, so the semaphore is empty when a job begins. The wait
  for the goroutines is over when all have finished: a job is \<open>None\<close> while the schedule given has not
  brought them there.
\<close>

definition embedConcurrency :: nat where "embedConcurrency = 4"
definition consumerGroup :: string where "consumerGroup = ''caw-workers''"

section \<open>The goroutines of a job\<close>

datatype gstate = Waiting | Holding | Embedded "string list result" | Released "string list result" | Finished

record chunk_result =
  r_index :: nat
  r_chunk :: string
  r_vector :: "string list"
  r_err :: "goerr option"

record 'w embed_state =
  slots :: nat
  gs :: "gstate list"
  results :: "chunk_result list"
  firstErr :: "goerr option"
  ext :: 'w

definition no_result :: chunk_result where
  "no_result = \<lparr>r_index = 0, r_chunk = [], r_vector = [], r_err = None\<rparr>"

definition chunk_outcome :: "nat \<Rightarrow> string \<Rightarrow> string list result \<Rightarrow> chunk_result" where
  "chunk_outcome i text r =
     \<lparr>r_index = i, r_chunk = text, r_vector = (case r of Inl _ \<Rightarrow> [] | Inr v \<Rightarrow> v),
      r_err = (case r of Inl e \<Rightarrow> Some e | Inr _ \<Rightarrow> None)\<rparr>"

definition go_step :: "(string \<Rightarrow> 'w \<Rightarrow> string list result \<times> 'w) \<Rightarrow> string list \<Rightarrow> nat \<Rightarrow> 'w embed_state \<Rightarrow> 'w embed_state" where
  "go_step call chunks i s =
     (if length (gs s) \<le> i then s
      else case gs s ! i of
        Waiting \<Rightarrow>
          if slots s < embedConcurrency then s\<lparr>slots := slots s + 1, gs := (gs s)[i := Holding]\<rparr> else s
      | Holding \<Rightarrow>
          (let (r, w) = call (chunks ! i) (ext s) in s\<lparr>gs := (gs s)[i := Embedded r], ext := w\<rparr>)
      | Embedded r \<Rightarrow> s\<lparr>slots := slots s - 1, gs := (gs s)[i := Released r]\<rparr>
      | Released r \<Rightarrow>
          s\<lparr>gs := (gs s)[i := Finished],
            firstErr := (case (r, firstErr s) of (Inl e, None) \<Rightarrow> Some e | _ \<Rightarrow> firstErr s),
            results := (results s)[i := chunk_outcome i (chunks ! i) r]\<rparr>
      | Finished \<Rightarrow> s)"

definition embed_start :: "string list \<Rightarrow> 'w \<Rightarrow> 'w embed_state" where
  "embed_start chunks w =
     \<lparr>slots = 0, gs = replicate (length chunks) Waiting, results = replicate (length chunks) no_result,
      firstErr = None, ext = w\<rparr>"

definition embed_run :: "(string \<Rightarrow> 'w \<Rightarrow> string list result \<times> 'w) \<Rightarrow> string list \<Rightarrow> nat list \<Rightarrow> 'w \<Rightarrow> 'w embed_state" where
  "embed_run call chunks schedule w = fold (go_step call chunks) schedule (embed_start chunks w)"

definition all_finished :: "'w embed_state \<Rightarrow> bool" where
  "all_finished s \<longleftrightarrow> (\<forall>g \<in> set (gs s). g = Finished)"

section \<open>Processing a job\<close>

fun upsert_results :: "'w ingest_env \<Rightarrow> ingest_job \<Rightarrow> chunk_result list \<Rightarrow> 'w \<Rightarrow> goerr option \<times> 'w" where
  "upsert_results E job [] w = (None, w)"
| "upsert_results E job (r # rs) w =
     (let (pointID, w1) = i_uuid E w;
          point = \<lparr>PointID = pointID, Vector = r_vector r,
            Payload = [(''document_id'', JStr (JDocumentID job)), (''chunk_index'', JInt (int (r_index r))),
                       (''domain'', JStr (JDomain job))]\<rparr>
      in case i_qdrant E (JDomain job) [point] w1 of
           (Some e, w2) \<Rightarrow> (Some (''qdrant upsert chunk '' @ dec_of_nat (r_index r) @ '': '' @ e), w2)
         | (None, w2) \<Rightarrow>
             (case i_pg E \<lparr>CID = [], CDocumentID = JDocumentID job, CIndex = int (r_index r), CContent = r_chunk r,
                     CContentHash = i_sha E (r_chunk r), CQdrantPointID = pointID, CDomain = JDomain job,
                     CEmbeddingModel = ''all-MiniLM-L6-v2''\<rparr> w2 of
                (Some e, w3) \<Rightarrow> (Some (''pg upsert chunk '' @ dec_of_nat (r_index r) @ '': '' @ e), w3)
              | (None, w3) \<Rightarrow> upsert_results E job rs w3))"

definition versionKey :: "string \<Rightarrow> string" where
  "versionKey domain = ''caw:retrieval:'' @ domain @ '':version''"

definition finish_job :: "'w ingest_env \<Rightarrow> ingest_job \<Rightarrow> 'w \<Rightarrow> goerr option \<times> 'w" where
  "finish_job E job w =
     (case kv_incr (i_keys E) (versionKey (JDomain job)) w of
        (Inl e, w1) \<Rightarrow> (Some (''incr version: '' @ e), w1)
      | (Inr _, w1) \<Rightarrow> updateStatus E (JDocumentID job) ''indexed'' [] w1)"

definition store_results :: "'w ingest_env \<Rightarrow> ingest_job \<Rightarrow> 'w embed_state \<Rightarrow> goerr option \<times> 'w" where
  "store_results E job s =
     (case firstErr s of
        Some e \<Rightarrow> (Some (''embed chunk: '' @ e), ext s)
      | None \<Rightarrow>
          (case upsert_results E job (results s) (ext s) of
             (Some e, w) \<Rightarrow> (Some e, w)
           | (None, w) \<Rightarrow> finish_job E job w))"

definition processJob :: "'w ingest_env \<Rightarrow> ingest_job \<Rightarrow> 'w \<Rightarrow> (goerr option \<times> 'w) option" where
  "processJob E job w =
     (case updateStatus E (JDocumentID job) ''processing'' [] w of
        (Some e, w1) \<Rightarrow> Some (Some (''set processing status: '' @ e), w1)
      | (None, w1) \<Rightarrow>
          (let s = embed_run (i_embed E) (job_chunks job) (i_schedule E w1) w1
           in if all_finished s then Some (store_results E job s) else None))"

section \<open>The consumer loop\<close>

definition ack :: "'w ingest_env \<Rightarrow> stream_message \<Rightarrow> 'w \<Rightarrow> 'w" where
  "ack E m w = snd (i_xack E ingestStream consumerGroup (msg_id m) w)"

definition handle_message :: "'w ingest_env \<Rightarrow> stream_message \<Rightarrow> 'w \<Rightarrow> 'w option" where
  "handle_message E m w =
     (case map_of (rev (msg_values m)) ''job'' of
        None \<Rightarrow> Some (ack E m w)
      | Some jobData \<Rightarrow>
          (case unmarshal_job (i_time_ok E) jobData of
             Inl _ \<Rightarrow> Some (ack E m w)
           | Inr job \<Rightarrow>
               (case processJob E job w of
                  None \<Rightarrow> None
                | Some (Some e, w1) \<Rightarrow> Some (snd (sendToDLQ E job e w1))
                | Some (None, w1) \<Rightarrow> Some (ack E m w1))))"

fun handle_messages :: "'w ingest_env \<Rightarrow> stream_message list \<Rightarrow> 'w \<Rightarrow> 'w option" where
  "handle_messages E [] w = Some w"
| "handle_messages E (m # ms) w =
     (case handle_message E m w of None \<Rightarrow> None | Some w1 \<Rightarrow> handle_messages E ms w1)"

text \<open>The loop returns only when its context is cancelled.\<close>

partial_function (option) consume :: "'w ingest_env \<Rightarrow> string \<Rightarrow> 'w \<Rightarrow> (goerr \<times> 'w) option" where
  "consume E consumer w =
     (case i_cancelled E w of
        Some e \<Rightarrow> Some (e, w)
      | None \<Rightarrow>
          (case i_xread E ingestStream consumerGroup consumer w of
             (Read_Nothing, w1) \<Rightarrow> consume E consumer w1
           | (Read_Error e, w1) \<Rightarrow>
               (case i_cancelled E w1 of Some e' \<Rightarrow> Some (e', w1) | None \<Rightarrow> consume E consumer w1)
           | (Read_Messages ms, w1) \<Rightarrow>
               (case handle_messages E ms w1 of None \<Rightarrow> None | Some w2 \<Rightarrow> consume E consumer w2)))"

definition worker_Run :: "'w ingest_env \<Rightarrow> string \<Rightarrow> 'w \<Rightarrow> (goerr \<times> 'w) option" where
  "worker_Run E hostname w =
     (case i_xgroup E ingestStream consumerGroup ''0'' w of
        (Some e, w1) \<Rightarrow>
          (if contains e ''BUSYGROUP'' then consume E (''worker-'' @ hostname) w1
           else Some (''create consumer group: '' @ e, w1))
      | (None, w1) \<Rightarrow> consume E (''worker-'' @ hostname) w1)"

section \<open>The goroutines: slots, progress, outcome\<close>

definition holds :: "gstate \<Rightarrow> bool" where
  "holds g \<longleftrightarrow> (case g of Holding \<Rightarrow> True | Embedded _ \<Rightarrow> True | _ \<Rightarrow> False)"

definition stage :: "gstate \<Rightarrow> nat" where
  "stage g = (case g of Waiting \<Rightarrow> 4 | Holding \<Rightarrow> 3 | Embedded _ \<Rightarrow> 2 | Released _ \<Rightarrow> 1 | Finished \<Rightarrow> 0)"

definition holders :: "gstate list \<Rightarrow> nat" where
  "holders xs = length (filter holds xs)"

definition remaining :: "gstate list \<Rightarrow> nat" where
  "remaining xs = sum_list (map stage xs)"

text \<open>The semaphore counts the goroutines that hold a slot; what is recorded belongs to its chunk.\<close>

definition go_inv :: "string list \<Rightarrow> 'w embed_state \<Rightarrow> bool" where
  "go_inv chunks s \<longleftrightarrow> slots s = holders (gs s) \<and> slots s \<le> embedConcurrency
     \<and> length (gs s) = length chunks \<and> length (results s) = length chunks
     \<and> (\<forall>i < length chunks. gs s ! i = Finished \<longrightarrow>
          (\<exists>r. results s ! i = chunk_outcome i (chunks ! i) r \<and> (firstErr s = None \<longrightarrow> (\<exists>v. r = Inr v))))
     \<and> (firstErr s \<noteq> None \<longrightarrow> (\<exists>i < length chunks. gs s ! i = Finished \<and> r_err (results s ! i) \<noteq> None))"

lemma holders_update:
  "i < length xs \<Longrightarrow> holders (xs[i := g]) + (if holds (xs ! i) then 1 else 0) = holders xs + (if holds g then 1 else 0)"
proof (induction xs arbitrary: i)
  case (Cons x xs)
  then show ?case by (cases i) (auto simp: holders_def)
qed simp

lemma remaining_update: "i < length xs \<Longrightarrow> remaining (xs[i := g]) + stage (xs ! i) = remaining xs + stage g"
proof (induction xs arbitrary: i)
  case (Cons x xs)
  then show ?case by (cases i) (auto simp: remaining_def)
qed simp

lemma stage_pos: "g \<noteq> Finished \<Longrightarrow> 0 < stage g"
  by (cases g) (simp_all add: stage_def)

lemma remaining_0: "remaining xs = 0 \<longleftrightarrow> (\<forall>g \<in> set xs. g = Finished)"
  using stage_pos by (fastforce simp: remaining_def stage_def [of Finished])

lemma go_step_length [simp]: "length (gs (go_step call chunks i s)) = length (gs s)"
  by (auto simp: go_step_def Let_def split: gstate.splits prod.splits)

lemma embed_start_inv: "go_inv chunks (embed_start chunks w)"
  by (simp add: go_inv_def embed_start_def holders_def holds_def)

lemma go_step_cases:
  obtains (idle) "go_step call cs i s = s"
    | (acquire) "i < length (gs s)" "gs s ! i = Waiting" "slots s < embedConcurrency"
        "go_step call cs i s = s\<lparr>slots := slots s + 1, gs := (gs s)[i := Holding]\<rparr>"
    | (embed) r w where "i < length (gs s)" "gs s ! i = Holding" "call (cs ! i) (ext s) = (r, w)"
        "go_step call cs i s = s\<lparr>gs := (gs s)[i := Embedded r], ext := w\<rparr>"
    | (release) r where "i < length (gs s)" "gs s ! i = Embedded r"
        "go_step call cs i s = s\<lparr>slots := slots s - 1, gs := (gs s)[i := Released r]\<rparr>"
    | (store) r where "i < length (gs s)" "gs s ! i = Released r"
        "go_step call cs i s = s\<lparr>gs := (gs s)[i := Finished],
           firstErr := (case (r, firstErr s) of (Inl e, None) \<Rightarrow> Some e | _ \<Rightarrow> firstErr s),
           results := (results s)[i := chunk_outcome i (cs ! i) r]\<rparr>"
proof (cases "i < length (gs s)")
  case True
  show thesis
  proof (cases "gs s ! i")
    case Waiting
    then show thesis using True by (cases "slots s < embedConcurrency") (auto simp: go_step_def intro: idle acquire)
  next
    case Holding
    obtain r w where "call (cs ! i) (ext s) = (r, w)" by fastforce
    with Holding True show thesis by (intro embed) (simp_all add: go_step_def)
  next
    case (Embedded r)
    with True show thesis by (intro release) (simp_all add: go_step_def)
  next
    case (Released r)
    with True show thesis by (intro store) (simp_all add: go_step_def)
  next
    case Finished
    with True show thesis by (intro idle) (simp add: go_step_def)
  qed
qed (auto simp: go_step_def intro: idle)

lemma not_finished_update: "gs s ! i \<noteq> Finished \<Longrightarrow> g \<noteq> Finished \<Longrightarrow> ((gs s)[i := g]) ! j = Finished \<longleftrightarrow> gs s ! j = Finished"
  by (cases "i < length (gs s)"; cases "j = i") (auto simp: list_update_beyond)

lemma go_inv_move:
  assumes "go_inv cs s" and "gs s ! i \<noteq> Finished" and "g \<noteq> Finished" and "n = holders ((gs s)[i := g])" and "n \<le> embedConcurrency"
  shows "go_inv cs (s\<lparr>slots := n, gs := (gs s)[i := g], ext := w\<rparr>)"
  using assms by (simp add: go_inv_def not_finished_update)

lemma go_step_inv:
  assumes "go_inv cs s"
  shows "go_inv cs (go_step call cs i s)"
proof (cases call cs i s rule: go_step_cases)
  case idle
  with assms show ?thesis by simp
next
  case acquire
  then have "holders ((gs s)[i := Holding]) = slots s + 1"
    using holders_update [OF acquire(1), of Holding] assms by (simp add: holds_def go_inv_def)
  with acquire go_inv_move [OF assms, of i Holding _ "ext s"] show ?thesis by simp
next
  case (embed r w)
  have "holders ((gs s)[i := Embedded r]) = slots s" "slots s \<le> embedConcurrency"
    using holders_update [OF embed(1), of "Embedded r"] assms embed(2) by (simp_all add: holds_def go_inv_def)
  with embed go_inv_move [OF assms, of i "Embedded r" _ w] show ?thesis by simp
next
  case (release r)
  have "holders ((gs s)[i := Released r]) = slots s - 1" "slots s \<le> embedConcurrency"
    using holders_update [OF release(1), of "Released r"] assms release(2) by (simp_all add: holds_def go_inv_def)
  with release go_inv_move [OF assms, of i "Released r" _ "ext s"] show ?thesis by simp
next
  case (store r)
  let ?s = "go_step call cs i s"
  have h: "holders ((gs s)[i := Finished]) = slots s" "slots s \<le> embedConcurrency"
    using holders_update [OF store(1), of Finished] assms store(2) by (simp_all add: holds_def go_inv_def)
  have i: "i < length cs" "i < length (results s)" using store(1) assms by (simp_all add: go_inv_def)
  have old: "\<exists>r. results s ! j = chunk_outcome j (cs ! j) r \<and> (firstErr s = None \<longrightarrow> (\<exists>v. r = Inr v))"
    if "gs s ! j = Finished" "j < length cs" for j
    using assms that by (simp add: go_inv_def)
  have fin: "\<exists>r. results ?s ! j = chunk_outcome j (cs ! j) r \<and> (firstErr ?s = None \<longrightarrow> (\<exists>v. r = Inr v))"
    if "j < length cs" "gs ?s ! j = Finished" for j
  proof (cases "j = i")
    case True
    then show ?thesis using i by (cases r) (auto simp: store(3) split: option.splits)
  next
    case False
    then have "gs s ! j = Finished" using that(2) by (simp add: store(3))
    from old [OF this that(1)] False show ?thesis by (auto simp: store(3) split: sum.splits option.splits)
  qed
  have err: "\<exists>j < length cs. gs ?s ! j = Finished \<and> r_err (results ?s ! j) \<noteq> None" if e: "firstErr ?s \<noteq> None"
  proof (cases "firstErr s")
    case None
    then obtain x where "r = Inl x" using e by (cases r) (auto simp: store(3))
    then show ?thesis using i store(1) by (intro exI [of _ i]) (simp add: store(3) chunk_outcome_def)
  next
    case (Some x)
    then obtain j where "j < length cs" "gs s ! j = Finished" "r_err (results s ! j) \<noteq> None"
      using assms by (auto simp: go_inv_def)
    moreover then have "j \<noteq> i" using store(2) by auto
    ultimately show ?thesis by (intro exI [of _ j]) (simp add: store(3))
  qed
  have "slots ?s = holders (gs ?s)" "slots ?s \<le> embedConcurrency" "length (gs ?s) = length cs" "length (results ?s) = length cs"
    using h assms by (simp_all add: store(3) go_inv_def)
  with fin err show ?thesis unfolding go_inv_def by blast
qed

lemma embed_run_inv: "go_inv cs (embed_run call cs schedule w)"
proof -
  have "go_inv cs s \<Longrightarrow> go_inv cs (fold (go_step call cs) schedule s)" for s :: "'a embed_state"
    by (induction schedule arbitrary: s) (auto dest: go_step_inv)
  then show ?thesis by (simp add: embed_run_def embed_start_inv)
qed

lemma go_step_remaining:
  "go_step call cs i s = s \<or> remaining (gs (go_step call cs i s)) < remaining (gs s)"
proof (cases call cs i s rule: go_step_cases)
  case acquire
  with remaining_update [OF acquire(1), of Holding] show ?thesis by (simp add: stage_def)
next
  case (embed r w)
  with remaining_update [OF embed(1), of "Embedded r"] show ?thesis by (simp add: stage_def)
next
  case (release r)
  with remaining_update [OF release(1), of "Released r"] show ?thesis by (simp add: stage_def)
next
  case (store r)
  with remaining_update [OF store(1), of Finished] show ?thesis by (simp add: stage_def)
qed simp

text \<open>No deadlock: while a goroutine is unfinished, one can go on.\<close>

lemma some_goroutine_moves:
  assumes "go_inv cs s" and "\<not> all_finished s"
  shows "\<exists>i < length cs. go_step call cs i s \<noteq> s"
proof -
  have n: "length (gs s) = length cs" using assms(1) by (simp add: go_inv_def)
  have moves: "go_step call cs i s \<noteq> s" if "i < length cs" "gs (go_step call cs i s) ! i \<noteq> gs s ! i" for i
    using that by metis
  obtain i where i: "i < length cs" "gs s ! i \<noteq> Finished"
    using assms(2) n unfolding all_finished_def by (metis in_set_conv_nth)
  show ?thesis
  proof (cases "\<exists>j < length cs. holds (gs s ! j)")
    case True
    then obtain j where j: "j < length cs" "holds (gs s ! j)" by blast
    then have "go_step call cs j s \<noteq> s" using n
      by (intro moves) (auto simp: go_step_def holds_def Let_def split: gstate.splits prod.splits)
    with j(1) show ?thesis by blast
  next
    case False
    then have "filter holds (gs s) = []" using n by (metis filter_False_conv' in_set_conv_nth)
    then have "slots s = 0" using assms(1) by (simp add: go_inv_def holders_def)
    then have "go_step call cs i s \<noteq> s" using i n False
      by (intro moves) (auto simp: go_step_def holds_def embedConcurrency_def split: gstate.splits)
    with i(1) show ?thesis by blast
  qed
qed

lemma fold_remaining:
  "remaining (gs (fold (go_step call cs) R s)) < remaining (gs s)
   \<or> fold (go_step call cs) R s = s \<and> (\<forall>i \<in> set R. go_step call cs i s = s)"
proof (induction R arbitrary: s)
  case (Cons i R)
  from go_step_remaining [of call cs i s] Cons.IH [of "go_step call cs i s"] show ?case by fastforce
qed simp

text \<open>A fair schedule lets every goroutine take its turn at least \<open>4 * n\<close> times over.\<close>

definition fair :: "nat \<Rightarrow> nat list \<Rightarrow> bool" where
  "fair n schedule \<longleftrightarrow> (\<exists>rounds. schedule = concat rounds \<and> 4 * n \<le> length rounds \<and> (\<forall>R \<in> set rounds. {0..<n} \<subseteq> set R))"

lemma rounds_finish:
  assumes "\<forall>R \<in> set rounds. {0..<length cs} \<subseteq> set R"
  shows "go_inv cs s \<Longrightarrow> remaining (gs s) \<le> length rounds \<Longrightarrow> all_finished (fold (go_step call cs) (concat rounds) s)"
  using assms
proof (induction rounds arbitrary: s)
  case Nil
  then show ?case by (simp add: all_finished_def remaining_0)
next
  case (Cons R rounds)
  let ?s = "fold (go_step call cs) R s"
  have inv: "go_inv cs (fold (go_step call cs) Q s)" for Q
    using Cons.prems(1) by (induction Q rule: rev_induct) (auto dest: go_step_inv)
  have "remaining (gs ?s) \<le> length rounds"
  proof (cases "all_finished s")
    case True
    then have "remaining (gs s) = 0" by (simp add: all_finished_def remaining_0)
    with fold_remaining [of call cs R s] show ?thesis by auto
  next
    case False
    from some_goroutine_moves [OF Cons.prems(1) this, of call] Cons.prems(3) fold_remaining [of call cs R s] Cons.prems(2)
    show ?thesis by fastforce
  qed
  with Cons.IH [OF inv this] Cons.prems(3) show ?case by simp
qed

lemma remaining_start: "remaining (gs (embed_start cs w)) = 4 * length cs"
  by (simp add: embed_start_def remaining_def sum_list_replicate stage_def)

lemma fair_finishes:
  assumes "fair (length cs) schedule"
  shows "all_finished (embed_run call cs schedule w)"
proof -
  obtain rounds where r: "schedule = concat rounds" "4 * length cs \<le> length rounds"
      "\<forall>R \<in> set rounds. {0..<length cs} \<subseteq> set R"
    using assms unfolding fair_def by blast
  show ?thesis unfolding embed_run_def r(1)
    using r(2) by (intro rounds_finish [OF r(3) embed_start_inv]) (simp add: remaining_start)
qed

lemma finished_results:
  assumes "all_finished (embed_run call cs schedule w)" and "firstErr (embed_run call cs schedule w) = None"
  shows "\<exists>vs. length vs = length cs
    \<and> results (embed_run call cs schedule w) = map (\<lambda>i. chunk_outcome i (cs ! i) (Inr (vs ! i))) [0..<length cs]"
proof -
  let ?s = "embed_run call cs schedule w"
  have inv: "go_inv cs ?s" by (rule embed_run_inv)
  have "\<exists>v. results ?s ! i = chunk_outcome i (cs ! i) (Inr v)" if "i < length cs" for i
    using inv that assms unfolding go_inv_def all_finished_def by (metis nth_mem)
  then obtain f where f: "\<And>i. i < length cs \<Longrightarrow> results ?s ! i = chunk_outcome i (cs ! i) (Inr (f i))" by metis
  have "length (results ?s) = length cs" using inv by (simp add: go_inv_def)
  with f show ?thesis
    by (intro exI [of _ "map f [0..<length cs]"]) (auto intro: nth_equalityI)
qed

section \<open>Properties\<close>

text \<open>
  C24. Under every schedule at most four goroutines are between taking and giving back a slot, the
  semaphore counts exactly them, and it is empty again when all have finished.
\<close>

theorem embedding_slots_bounded:
  "let s = embed_run call cs schedule w in
     length (filter holds (gs s)) = slots s \<and> slots s \<le> 4 \<and> (if all_finished s then slots s = 0 else True)"
proof -
  have inv: "go_inv cs (embed_run call cs schedule w)" by (rule embed_run_inv)
  moreover have "filter holds xs = []" if "\<forall>g \<in> set xs. g = Finished" for xs
    using that by (intro filter_False_conv') (auto simp: holds_def)
  ultimately show ?thesis
    by (simp add: Let_def go_inv_def holders_def embedConcurrency_def all_finished_def)
qed

text \<open>
  C25. A job never gets stuck: as soon as the scheduler has let each of its goroutines take its turn often
  enough, in any order and whatever the embedding service answers, processing returns.
\<close>

theorem job_returns:
  assumes "\<And>w. fair (length (job_chunks job)) (i_schedule E w)"
  shows "\<exists>err w'. processJob E job w = Some (err, w')"
proof -
  obtain e w1 where u: "updateStatus E (JDocumentID job) ''processing'' [] w = (e, w1)" by fastforce
  have "all_finished (embed_run (i_embed E) (job_chunks job) (i_schedule E w1) w1)" by (rule fair_finishes [OF assms])
  then show ?thesis using u by (cases e) (auto simp: processJob_def Let_def intro: prod.exhaust)
qed

text \<open>A worker over nothing but a memory Redis: no vector comes back, both stores accept everything.\<close>

definition idle_worker :: "memory_redis ingest_env" where
  "idle_worker = \<lparr>
     i_keys = memory_keys (\<lambda>m. m) (\<lambda>m _. m),
     i_xadd = (\<lambda>s v w. (Inr ''1-0'', w)), i_xack = (\<lambda>s g i w. (Inr 1, w)), i_xlen = (\<lambda>s w. (Inr 0, w)),
     i_xgroup = (\<lambda>s g i w. (None, w)), i_xread = (\<lambda>s g c w. (Read_Nothing, w)), i_now = (\<lambda>w. zero_time),
     i_time_ok = (\<lambda>t. True), i_uuid = (\<lambda>w. (''u'', w)), i_sha = (\<lambda>t. t), i_embed = (\<lambda>t w. (Inr [], w)),
     i_qdrant = (\<lambda>d ps w. (None, w)), i_pg = (\<lambda>c w. (None, w)), i_cancelled = (\<lambda>w. None),
     i_schedule = (\<lambda>w. [0, 0, 0, 0])\<rparr>"

definition tiny_job :: ingest_job where
  "tiny_job = \<lparr>JDocumentID = ''d'', JDomain = ''code'', JContent = ''hello'', JTitle = [], JEnqueuedAt = zero_time, JRetryCount = 0\<rparr>"

lemma job_returns_witness:
  "\<exists>err w'. processJob idle_worker tiny_job ([], []) = Some (err, w')"
proof (rule job_returns)
  have "length (job_chunks tiny_job) = 1" by code_simp
  then show "fair (length (job_chunks tiny_job)) (i_schedule idle_worker w)" for w
    unfolding fair_def by (intro exI [of _ "[[0], [0], [0], [0]]"]) (simp add: idle_worker_def)
qed

end
