(* ===== verification/Ingest_Props.thy ===== *)
theory Ingest_Props
  imports Ingest_Worker
begin

text \<open>
  The worker together with its stores: what a job leaves in the relational store, what becomes of a job
  that fails, and of a document that is ingested again after it changed.
\<close>

section \<open>The worker over the relational store\<close>

text \<open>
  The world of such a worker ends with the database, which only \<open>UpsertChunk\<close> touches.
\<close>

definition keeps :: "('w \<Rightarrow> 'a) \<Rightarrow> ('w \<Rightarrow> 'r \<times> 'w) \<Rightarrow> bool" where
  "keeps f call \<longleftrightarrow> (\<forall>w. f (snd (call w)) = f w)"

definition on_pg :: "pg_env \<Rightarrow> ('x \<times> pgdb) ingest_env \<Rightarrow> bool" where
  "on_pg P E \<longleftrightarrow>
     (\<forall>c x db. i_pg E c (x, db) = (fst (UpsertChunk P c db), (x, snd (UpsertChunk P c db))))
     \<and> (\<forall>k v t. keeps snd (kv_set (i_keys E) k v t)) \<and> (\<forall>k. keeps snd (kv_incr (i_keys E) k))
     \<and> (\<forall>t. keeps snd (i_embed E t)) \<and> (\<forall>d ps. keeps snd (i_qdrant E d ps)) \<and> keeps snd (i_uuid E)"

lemma keepsD: "keeps f call \<Longrightarrow> call w = (r, w') \<Longrightarrow> f w' = f w"
  unfolding keeps_def by (metis snd_conv)

text \<open>What every call of the embedding service does to the world, the goroutines do.\<close>

lemma embed_run_rel:
  assumes "reflp R" and "transp R" and "\<And>t w. R w (snd (call t w))"
  shows "R w (ext (embed_run call cs schedule w))"
proof -
  have step: "R (ext s) (ext (go_step call cs i s))" for i s
  proof (cases call cs i s rule: go_step_cases)
    case (embed r w')
    with assms(3) [of "ext s" "cs ! i"] show ?thesis by simp
  qed (use assms(1) in \<open>simp_all add: reflpD\<close>)
  have "R (ext s) (ext (fold (go_step call cs) schedule s))" for s
  proof (induction schedule arbitrary: s)
    case (Cons i rest)
    then show ?case using step transpD [OF assms(2)] by fastforce
  qed (simp add: reflpD [OF assms(1)])
  from this [of "embed_start cs w"] show ?thesis by (simp add: embed_run_def embed_start_def)
qed

lemma embed_run_keeps:
  assumes "\<And>t. keeps f (call t)"
  shows "f (ext (embed_run call cs schedule w)) = f w"
  using assms by (intro embed_run_rel [where R = "\<lambda>w w'. f w' = f w"]) (auto simp: keeps_def reflp_def transp_def)

lemma updateStatus_keeps: "(\<And>k v t. keeps f (kv_set (i_keys E) k v t)) \<Longrightarrow> updateStatus E d st e w = (r, w') \<Longrightarrow> f w' = f w"
  unfolding updateStatus_def by (rule keepsD)

text \<open>What the statement does to the rows.\<close>

lemma UpsertChunk_rows:
  assumes "UpsertChunk P c db = (e, db')"
  shows "chunks_table db' = chunks_table db \<or> (\<exists>r. chunks_table db' = chunks_table db @ [r] \<and> c_hash r = CContentHash c
           \<and> c_content r = CContent c)"
    and "e = None \<Longrightarrow> CContentHash c \<in> c_hash ` set (chunks_table db')"
  using assms
  by (auto simp: UpsertChunk_def statement_def insert_chunk_def Let_def split: prod.splits sum.splits option.splits if_splits)

lemma UpsertChunk_refused:
  assumes "CContentHash c \<notin> c_hash ` set (chunks_table db)"
    and "\<And>doc. to_uuid P (CDocumentID c) = Some doc \<Longrightarrow>
      (doc, CIndex c) \<in> (\<lambda>r. (c_document r, c_index r)) ` set (chunks_table db) \<or> doc \<notin> d_id ` set (documents_table db)"
    and "UpsertChunk P c db = (e, db')"
  shows "e \<noteq> None \<and> chunks_table db' = chunks_table db"
  using assms
  by (auto simp: UpsertChunk_def statement_def insert_chunk_def Let_def split: prod.splits sum.splits option.splits if_splits)

definition hashes_ok :: "(string \<Rightarrow> string) \<Rightarrow> pgdb \<Rightarrow> bool" where
  "hashes_ok sha db \<longleftrightarrow> (\<forall>r \<in> set (chunks_table db). c_hash r = sha (c_content r))"

lemma upsert_results_step:
  assumes "on_pg P E" and "upsert_results E job (r # rs) (x, db) = (e, w)"
  obtains (vector_fails) x1 where "e \<noteq> None" and "w = (x1, db)"
    | (row_fails) x1 c db1 e1 where "e \<noteq> None" and "w = (x1, db1)" and "UpsertChunk P c db = (Some e1, db1)"
        "CDocumentID c = JDocumentID job" "CIndex c = int (r_index r)" "CContent c = r_chunk r" "CContentHash c = i_sha E (r_chunk r)"
    | (more) x1 c db1 where "UpsertChunk P c db = (None, db1)" and "upsert_results E job rs (x1, db1) = (e, w)"
        "CDocumentID c = JDocumentID job" "CIndex c = int (r_index r)" "CContent c = r_chunk r" "CContentHash c = i_sha E (r_chunk r)"
proof -
  obtain p w1 where u: "i_uuid E (x, db) = (p, w1)" by (metis prod.exhaust)
  let ?pt = "\<lparr>PointID = p, Vector = r_vector r, Payload = [(''document_id'', JStr (JDocumentID job)),
      (''chunk_index'', JInt (int (r_index r))), (''domain'', JStr (JDomain job))]\<rparr>"
  let ?c = "\<lparr>CID = [], CDocumentID = JDocumentID job, CIndex = int (r_index r), CContent = r_chunk r,
      CContentHash = i_sha E (r_chunk r), CQdrantPointID = p, CDomain = JDomain job, CEmbeddingModel = ''all-MiniLM-L6-v2''\<rparr>"
  obtain q w2 where q: "i_qdrant E (JDomain job) [?pt] w1 = (q, w2)" by (metis prod.exhaust)
  have "snd w1 = db" "snd w2 = snd w1"
    using assms(1) keepsD [where f = snd and call = "i_uuid E", OF _ u]
      keepsD [where f = snd and call = "i_qdrant E (JDomain job) [?pt]", OF _ q] by (simp_all add: on_pg_def)
  then obtain x1 where w2: "w2 = (x1, db)" by (cases w2) simp
  obtain e1 db1 where pg: "UpsertChunk P ?c db = (e1, db1)" by fastforce
  have pg': "i_pg E ?c (x1, db) = (e1, (x1, db1))" using assms(1) pg by (simp add: on_pg_def)
  show thesis
  proof (cases q)
    case (Some e')
    with assms(2) u q w2 show thesis by (intro vector_fails) (auto simp: Let_def)
  next
    case None
    show thesis
    proof (cases e1)
      case (Some e')
      with assms(2) u q None pg' w2 pg show thesis by (intro row_fails [of x1 db1 ?c e']) (auto simp: Let_def)
    next
      case N: None
      with assms(2) u q None pg' w2 pg show thesis by (intro more [of ?c db1 x1]) (auto simp: Let_def)
    qed
  qed
qed

lemma upsert_results_rows:
  assumes "on_pg P E"
  shows "upsert_results E job rs (x, db) = (e, (x', db')) \<Longrightarrow> hashes_ok (i_sha E) db \<Longrightarrow>
    hashes_ok (i_sha E) db' \<and> set (chunks_table db) \<subseteq> set (chunks_table db')
    \<and> (e = None \<longrightarrow> (\<forall>r \<in> set rs. i_sha E (r_chunk r) \<in> c_hash ` set (chunks_table db')))"
proof (induction rs arbitrary: x db)
  case Nil
  then show ?case by simp
next
  case (Cons r rs)
  show ?case
  proof (cases rule: upsert_results_step [OF assms Cons.prems(1)])
    case (1 x1)
    with Cons.prems(2) show ?thesis by auto
  next
    case (2 x1 c db1 e1)
    with UpsertChunk_rows(1) [OF 2(3)] Cons.prems(2) show ?thesis by (auto simp: hashes_ok_def)
  next
    case (3 x1 c db1)
    have "hashes_ok (i_sha E) db1" "set (chunks_table db) \<subseteq> set (chunks_table db1)"
      using UpsertChunk_rows(1) [OF 3(1)] Cons.prems(2) 3(5,6) by (auto simp: hashes_ok_def)
    moreover have "i_sha E (r_chunk r) \<in> c_hash ` set (chunks_table db1)"
      using UpsertChunk_rows(2) [OF 3(1)] 3(6) by simp
    ultimately show ?thesis using Cons.IH [OF 3(2)] by (auto simp: image_iff subset_iff)
  qed
qed

lemma finish_job_keeps:
  assumes "\<And>k v t. keeps f (kv_set (i_keys E) k v t)" and "\<And>k. keeps f (kv_incr (i_keys E) k)"
    and "finish_job E job w = (e, w')"
  shows "f w' = f w"
proof -
  obtain r w1 where r: "kv_incr (i_keys E) (versionKey (JDomain job)) w = (r, w1)" by fastforce
  have "f w1 = f w" using keepsD [OF assms(2) r] .
  with assms(3) r updateStatus_keeps [OF assms(1)] show ?thesis by (cases r) (fastforce simp: finish_job_def)+
qed

lemma processJob_pg:
  assumes "on_pg P E" and "processJob E job (x, db) = Some (e, (x', db'))"
  obtains (early) "e \<noteq> None" and "db' = db"
    | (stored) x1 s x2 u where "snd (ext s) = db" and "u = upsert_results E job (results s) (ext s)"
        "s = embed_run (i_embed E) (job_chunks job) (i_schedule E x1) x1"
        "all_finished s" "firstErr s = None" "u = (fst u, (x2, db'))" "fst u \<noteq> None \<Longrightarrow> e \<noteq> None"
proof -
  have k: "\<And>k v t. keeps snd (kv_set (i_keys E) k v t)" "\<And>k. keeps snd (kv_incr (i_keys E) k)" "\<And>t. keeps snd (i_embed E t)"
    using assms(1) by (auto simp: on_pg_def)
  obtain se w1 where se: "updateStatus E (JDocumentID job) ''processing'' [] (x, db) = (se, w1)" by (metis prod.exhaust)
  have w1: "snd w1 = db" using updateStatus_keeps [OF k(1) se] by simp
  show thesis
  proof (cases se)
    case (Some e')
    with assms(2) se w1 show thesis by (intro early) (auto simp: processJob_def)
  next
    case None
    define s where "s = embed_run (i_embed E) (job_chunks job) (i_schedule E w1) w1"
    have s: "snd (ext s) = db" using embed_run_keeps [OF k(3)] w1 by (simp add: s_def)
    have f: "all_finished s" "store_results E job s = (e, (x', db'))"
      using assms(2) se None by (auto simp: processJob_def s_def Let_def split: if_splits)
    show thesis
    proof (cases "firstErr s")
      case (Some e')
      with f s show thesis by (intro early) (auto simp: store_results_def)
    next
      case N: None
      obtain u x2 db2 where u: "upsert_results E job (results s) (ext s) = (u, (x2, db2))" by (metis prod.exhaust)
      have "db' = db2 \<and> (u \<noteq> None \<longrightarrow> e \<noteq> None)"
      proof (cases u)
        case None
        with f(2) N u have "finish_job E job (x2, db2) = (e, (x', db'))" by (simp add: store_results_def)
        from finish_job_keeps [OF k(1,2) this] None show ?thesis by simp
      qed (use f(2) N u in \<open>simp add: store_results_def\<close>)
      with u s f(1) N show thesis by (intro stored [of s _ w1 x2]) (auto simp: s_def)
    qed
  qed
qed

text \<open>
  C26. Over the relational store, a job reported as indexed has a row for each of its chunks, by the
  digest of its content, and the digests in the table stay those of the contents.
\<close>

theorem indexed_chunks_are_stored:
  assumes "on_pg P E" and "hashes_ok (i_sha E) db" and "processJob E job (x, db) = Some (None, (x', db'))"
  shows "hashes_ok (i_sha E) db'
    \<and> (\<forall>c \<in> set (job_chunks job). \<exists>r \<in> set (chunks_table db'). c_hash r = i_sha E c \<and> i_sha E (c_content r) = i_sha E c)"
proof (cases rule: processJob_pg [OF assms(1,3)])
  case (2 x1 s x2 u)
  have "upsert_results E job (results s) (fst (ext s), db) = (None, (x2, db'))"
    using 2(1,2,6,7) by (metis prod.collapse)
  note rows = upsert_results_rows [OF assms(1) this assms(2)]
  obtain vs where "results s = map (\<lambda>i. chunk_outcome i (job_chunks job ! i) (Inr (vs ! i))) [0..<length (job_chunks job)]"
    using finished_results [of "i_embed E" "job_chunks job" "i_schedule E x1" x1] 2(3-5) by auto
  then have "map r_chunk (results s) = job_chunks job"
    by (auto simp: chunk_outcome_def intro: nth_equalityI)
  then have "r_chunk ` set (results s) = set (job_chunks job)" by (metis list.set_map)
  then have "i_sha E c \<in> c_hash ` set (chunks_table db')" if "c \<in> set (job_chunks job)" for c
    using rows that by (metis (no_types, lifting) imageE)
  with rows show ?thesis unfolding hashes_ok_def by fastforce
qed simp

text \<open>A job whose first chunk the store refuses.\<close>

lemma finished_first:
  assumes "all_finished (embed_run call cs schedule w)" and "firstErr (embed_run call cs schedule w) = None" and "cs \<noteq> []"
  obtains r rs where "results (embed_run call cs schedule w) = r # rs" and "r_index r = 0" and "r_chunk r = hd cs"
proof -
  obtain vs where "results (embed_run call cs schedule w) = map (\<lambda>i. chunk_outcome i (cs ! i) (Inr (vs ! i))) [0..<length cs]"
    using finished_results [OF assms(1,2)] by blast
  with assms(3) show thesis
    by (cases cs) (auto simp: upt_conv_Cons chunk_outcome_def simp del: upt_Suc intro: that)
qed

lemma job_chunks_not_Nil [simp]: "job_chunks job \<noteq> []"
  by (simp add: job_chunks_def Let_def)

lemma first_chunk_refused:
  assumes "on_pg P E" and "i_sha E (hd (job_chunks job)) \<notin> c_hash ` set (chunks_table db)"
    and "\<And>doc. to_uuid P (JDocumentID job) = Some doc \<Longrightarrow>
      (doc, 0) \<in> (\<lambda>r. (c_document r, c_index r)) ` set (chunks_table db) \<or> doc \<notin> d_id ` set (documents_table db)"
    and "processJob E job (x, db) = Some (err, (x', db'))"
  shows "err \<noteq> None \<and> chunks_table db' = chunks_table db"
proof (cases rule: processJob_pg [OF assms(1,4)])
  case (2 x1 s x2 u)
  from finished_first [OF 2(4,5) [unfolded 2(3)] job_chunks_not_Nil]
  obtain r rs where r: "results s = r # rs" "r_index r = 0" "r_chunk r = hd (job_chunks job)"
    unfolding 2(3) by blast
  have u: "upsert_results E job (r # rs) (fst (ext s), db) = (fst u, (x2, db'))"
    using 2(1,2,6) r(1) by (metis prod.collapse)
  have "fst u \<noteq> None \<and> chunks_table db' = chunks_table db"
  proof (cases rule: upsert_results_step [OF assms(1) u])
    case (2 y c db1 e1)
    have "e1' \<noteq> None \<and> chunks_table db1 = chunks_table db" if "UpsertChunk P c db = (e1', db1)" for e1'
      using that 2(4-7) assms(2,3) r(2,3) by (intro UpsertChunk_refused [of c db]) simp_all
    from this [OF 2(3)] 2(1,2) show ?thesis by simp
  next
    case (3 y c db1)
    have "e1 \<noteq> None \<and> chunks_table db1 = chunks_table db" if "UpsertChunk P c db = (e1, db1)" for e1
      using that 3(3-6) assms(2,3) r(2,3) by (intro UpsertChunk_refused [of c db]) simp_all
    from this [OF 3(1)] show ?thesis by simp
  qed simp
  with 2(7) show ?thesis by simp
qed simp

text \<open>
  A document cannot be ingested again once its text changed: when the table has its first chunk with
  another content and does not have the new first chunk, no job for the new text succeeds and none of its
  rows is written.
\<close>

theorem changed_document_is_refused:
  assumes "on_pg P E" and "to_uuid P (JDocumentID job) = Some doc"
    and "(doc, 0) \<in> (\<lambda>r. (c_document r, c_index r)) ` set (chunks_table db)"
    and "i_sha E (hd (job_chunks job)) \<notin> c_hash ` set (chunks_table db)"
    and "processJob E job (x, db) = Some (err, (x', db'))"
  shows "err \<noteq> None \<and> chunks_table db' = chunks_table db"
  by (rule first_chunk_refused [OF assms(1,4) _ assms(5)]) (use assms(2,3) in simp)

text \<open>Nor can a job be processed for a domain the vector store does not have.\<close>

lemma unknown_domain_fails:
  assumes "\<And>ps w. fst (i_qdrant E (JDomain job) ps w) \<noteq> None"
  shows "processJob E job w \<noteq> Some (None, w')"
proof
  assume p: "processJob E job w = Some (None, w')"
  obtain se w1 where se: "updateStatus E (JDocumentID job) ''processing'' [] w = (se, w1)" by fastforce
  define s where "s = embed_run (i_embed E) (job_chunks job) (i_schedule E w1) w1"
  have s: "all_finished s" "store_results E job s = (None, w')"
    using p se by (cases se; auto simp: processJob_def s_def Let_def split: if_splits)+
  then have "firstErr s = None" by (auto simp: store_results_def split: option.splits)
  with finished_first [OF s(1) [unfolded s_def]] obtain r rs where r: "results s = r # rs"
    unfolding s_def by (metis job_chunks_not_Nil)
  obtain i w2 where "i_uuid E (ext s) = (i, w2)" by fastforce
  with assms have "fst (upsert_results E job (r # rs) (ext s)) \<noteq> None"
    by (simp add: Let_def split: prod.splits option.splits) (metis fst_conv option.distinct(1))
  with s(2) \<open>firstErr s = None\<close> r show False
    by (auto simp: store_results_def split: prod.splits option.splits)
qed

section \<open>Jobs that fail\<close>

text \<open>What Redis holds for the ingestion: keys, stream entries and acknowledged messages.\<close>

record ingest_view =
  kv :: redis_view
  stream_of :: "string \<Rightarrow> (string \<times> string) list list"
  acks :: "string set"

definition quiet :: "ingest_view \<Rightarrow> ingest_view \<Rightarrow> bool" where
  "quiet v v' \<longleftrightarrow> aged (kv v) (kv v') \<and> stream_of v' = stream_of v \<and> acks v' = acks v"

text \<open>
  The documented effect of the commands, and that the other services do not touch this Redis data.
  \<open>redis_up\<close>: no SET or XADD fails.
\<close>

definition ingest_law :: "'w ingest_env \<Rightarrow> ('w \<Rightarrow> ingest_view) \<Rightarrow> bool" where
  "ingest_law E view \<longleftrightarrow>
     keys_law (i_keys E) (kv \<circ> view)
     \<and> (\<forall>k v t w. let v' = view (snd (kv_set (i_keys E) k v t w)) in stream_of v' = stream_of (view w) \<and> acks v' = acks (view w))
     \<and> (\<forall>k w. let v' = view (snd (kv_incr (i_keys E) k w)) in stream_of v' = stream_of (view w) \<and> acks v' = acks (view w))
     \<and> (\<forall>s e w r w'. i_xadd E s e w = (r, w') \<longrightarrow> (\<exists>v. quiet (view w) v \<and>
          (view w' = v\<lparr>stream_of := (stream_of v)(s := stream_of v s @ [e])\<rparr> \<or> (\<exists>x. r = Inl x) \<and> view w' = v)))
     \<and> (\<forall>t w. quiet (view w) (view (snd (i_embed E t w)))) \<and> (\<forall>d ps w. quiet (view w) (view (snd (i_qdrant E d ps w))))
     \<and> (\<forall>c w. quiet (view w) (view (snd (i_pg E c w)))) \<and> (\<forall>w. quiet (view w) (view (snd (i_uuid E w))))"

lemma ingest_law_xadd:
  assumes "ingest_law E view" and "i_xadd E s e w = (r, w')"
  shows "\<exists>v. quiet (view w) v \<and>
    (view w' = v\<lparr>stream_of := (stream_of v)(s := stream_of v s @ [e])\<rparr> \<or> (\<exists>x. r = Inl x) \<and> view w' = v)"
proof -
  from assms(1) have "\<forall>s e w r w'. i_xadd E s e w = (r, w') \<longrightarrow> (\<exists>v. quiet (view w) v \<and>
      (view w' = v\<lparr>stream_of := (stream_of v)(s := stream_of v s @ [e])\<rparr> \<or> (\<exists>x. r = Inl x) \<and> view w' = v))"
    unfolding ingest_law_def by (elim conjE) assumption
  with assms(2) show ?thesis by simp
qed

definition redis_up :: "'w ingest_env \<Rightarrow> bool" where
  "redis_up E \<longleftrightarrow> (\<forall>k v t w. fst (kv_set (i_keys E) k v t w) = None) \<and> (\<forall>s v w e. fst (i_xadd E s v w) \<noteq> Inl e)"

lemma quiet_refl: "quiet v v"
  by (simp add: quiet_def aged_refl)

lemma quiet_trans: "quiet u v \<Longrightarrow> quiet v w \<Longrightarrow> quiet u w"
  unfolding quiet_def by (auto intro: aged_trans)

lemma upsert_results_quiet:
  assumes "ingest_law E view"
  shows "quiet (view w) (view (snd (upsert_results E job rs w)))"
proof (induction rs arbitrary: w)
  case Nil
  show ?case by (simp add: quiet_refl)
next
  case (Cons r rs)
  obtain p w1 where u: "i_uuid E w = (p, w1)" by fastforce
  obtain x w2 where x: "i_qdrant E (JDomain job) [\<lparr>PointID = p, Vector = r_vector r, Payload =
      [(''document_id'', JStr (JDocumentID job)), (''chunk_index'', JInt (int (r_index r))), (''domain'', JStr (JDomain job))]\<rparr>] w1
      = (x, w2)" by fastforce
  obtain y w3 where y: "i_pg E \<lparr>CID = [], CDocumentID = JDocumentID job, CIndex = int (r_index r), CContent = r_chunk r,
      CContentHash = i_sha E (r_chunk r), CQdrantPointID = p, CDomain = JDomain job, CEmbeddingModel = ''all-MiniLM-L6-v2''\<rparr> w2
      = (y, w3)" by fastforce
  have q: "quiet (view w) (view (snd (i_uuid E w)))" "\<And>w d ps. quiet (view w) (view (snd (i_qdrant E d ps w)))"
    "\<And>w c. quiet (view w) (view (snd (i_pg E c w)))" using assms by (simp_all add: ingest_law_def)
  have "quiet (view w) (view w1)" using q(1) u by simp
  moreover have "quiet (view w1) (view w2)" using q(2) [where w = w1] x by (metis snd_conv)
  ultimately have q2: "quiet (view w) (view w2)" by (rule quiet_trans)
  moreover have "quiet (view w2) (view w3)" using q(3) [where w = w2] y by (metis snd_conv)
  ultimately have q3: "quiet (view w) (view w3)" by (rule quiet_trans)
  have q4: "quiet (view w) (view (snd (upsert_results E job rs w3)))" by (rule quiet_trans [OF q3 Cons.IH])
  show ?case
  proof (cases x)
    case None
    then show ?thesis using u x y q3 q4 by (cases y) (simp_all add: Let_def)
  qed (use u x q2 in \<open>simp add: Let_def\<close>)
qed

lemma updateStatus_view:
  assumes "ingest_law E view" and "redis_up E" and "updateStatus E d st err w = (e, w')"
  shows "e = None \<and> stream_of (view w') = stream_of (view w) \<and> acks (view w') = acks (view w)
    \<and> (\<exists>t. vals (kv (view w')) (statusKeyPrefix @ d)
            = Some (marshal_status \<lparr>SDocumentID = d, SStatus = st, SErrorDetail = err, SUpdatedAt = t\<rparr>))"
proof -
  let ?x = "marshal_status \<lparr>SDocumentID = d, SStatus = st, SErrorDetail = err, SUpdatedAt = i_now E w\<rparr>"
  have s: "kv_set (i_keys E) (statusKeyPrefix @ d) ?x statusTTL w = (e, w')"
    using assms(3) by (simp add: updateStatus_def)
  have e: "e = None" using assms(2) s unfolding redis_up_def by (metis fst_conv)
  have "keys_law (i_keys E) (kv \<circ> view)" using assms(1) by (simp add: ingest_law_def)
  from keys_set [OF this s] e obtain v where "kv (view w') = view_set (statusKeyPrefix @ d) ?x v" by auto
  then have "vals (kv (view w')) (statusKeyPrefix @ d) = Some ?x" by (simp add: view_set_def)
  moreover have "stream_of (view w') = stream_of (view w) \<and> acks (view w') = acks (view w)"
    using assms(1) s unfolding ingest_law_def Let_def by (metis snd_conv)
  ultimately show ?thesis using e by blast
qed

text \<open>Only the increment can make the last step of a job fail then, and it does not touch a status.\<close>

definition calm :: "string \<Rightarrow> ingest_view \<Rightarrow> ingest_view \<Rightarrow> bool" where
  "calm d v v' \<longleftrightarrow> stream_of v' = stream_of v \<and> acks v' = acks v
     \<and> (\<forall>x. vals (kv v') (statusKeyPrefix @ d) = Some x \<longrightarrow> vals (kv v) (statusKeyPrefix @ d) = Some x)"

lemma quiet_calm: "quiet u v \<Longrightarrow> calm d u v"
  unfolding quiet_def calm_def by (auto intro: aged_vals)

lemma calm_trans: "calm d u v \<Longrightarrow> calm d v w \<Longrightarrow> calm d u w"
  by (simp add: calm_def)

lemma finish_job_fails:
  assumes "ingest_law E view" and "redis_up E" and "finish_job E job w = (Some e, w')"
  shows "calm d (view w) (view w')"
proof -
  obtain r w1 where r: "kv_incr (i_keys E) (versionKey (JDomain job)) w = (r, w1)" by fastforce
  have w': "w' = w1"
    using assms(2,3) r by (cases r) (auto simp: finish_job_def updateStatus_def redis_up_def, metis fst_conv option.distinct(1))
  have "keys_law (i_keys E) (kv \<circ> view)" using assms(1) by (simp add: ingest_law_def)
  from keys_incr [OF this r] obtain v where v: "aged (kv (view w)) v"
      "Some (kv (view w1)) = view_incr (versionKey (JDomain job)) v \<or> kv (view w1) = v" by auto
  have "vals (kv (view w1)) (statusKeyPrefix @ d) = vals v (statusKeyPrefix @ d)"
    using v(2) by (auto simp: view_incr_def versionKey_def statusKeyPrefix_def split: option.splits if_splits)
  moreover have "stream_of (view w1) = stream_of (view w) \<and> acks (view w1) = acks (view w)"
    using assms(1) r unfolding ingest_law_def Let_def by (metis snd_conv)
  ultimately show ?thesis using aged_vals [OF v(1)] by (simp add: calm_def w')
qed

text \<open>A job that fails leaves its document marked as being processed.\<close>

lemma failed_job_view:
  assumes "ingest_law E view" and "redis_up E" and "processJob E job w = Some (Some e, w1)"
  shows "stream_of (view w1) = stream_of (view w) \<and> acks (view w1) = acks (view w)
    \<and> (\<forall>x. vals (kv (view w1)) (statusKeyPrefix @ JDocumentID job) = Some x \<longrightarrow>
         (\<exists>t. x = marshal_status \<lparr>SDocumentID = JDocumentID job, SStatus = ''processing'', SErrorDetail = [], SUpdatedAt = t\<rparr>))"
proof -
  obtain se w0 where se: "updateStatus E (JDocumentID job) ''processing'' [] w = (se, w0)" by fastforce
  note u = updateStatus_view [OF assms(1,2) se]
  define s where "s = embed_run (i_embed E) (job_chunks job) (i_schedule E w0) w0"
  have q1: "quiet (view w0) (view (ext s))"
    unfolding s_def using assms(1) quiet_trans
    by (intro embed_run_rel [where R = "\<lambda>a b. quiet (view a) (view b)"])
      (auto simp: reflp_def transp_def quiet_refl ingest_law_def intro: quiet_trans)
  have st: "store_results E job s = (Some e, w1)"
    using assms(3) se u by (auto simp: processJob_def s_def Let_def split: if_splits)
  have "calm (JDocumentID job) (view (ext s)) (view w1)"
  proof (cases "firstErr s")
    case (Some x)
    with st show ?thesis by (simp add: store_results_def quiet_calm quiet_refl)
  next
    case None
    obtain r w2 where r: "upsert_results E job (results s) (ext s) = (r, w2)" by fastforce
    then have c: "calm (JDocumentID job) (view (ext s)) (view w2)"
      using upsert_results_quiet [OF assms(1), of "ext s" job "results s"] by (simp add: quiet_calm)
    show ?thesis
    proof (cases r)
      case (Some y)
      with st None r c show ?thesis by (simp add: store_results_def)
    next
      case N: None
      with st None r have "finish_job E job w2 = (Some e, w1)" by (simp add: store_results_def)
      from calm_trans [OF c finish_job_fails [OF assms(1,2) this]] show ?thesis .
    qed
  qed
  with quiet_calm [OF q1] have "calm (JDocumentID job) (view w0) (view w1)" by (rule calm_trans)
  with u show ?thesis by (auto simp: calm_def)
qed

text \<open>
  C27. A message whose job fails is never acknowledged. While retries are left, the job goes to the dead
  letters with its count raised and its document stays marked as processing; only the third failure marks
  it as failed.
\<close>

theorem failed_job_stays_pending:
  assumes "ingest_law E view" and "redis_up E"
    and "map_of (rev (msg_values m)) ''job'' = Some data" and "unmarshal_job (i_time_ok E) data = Inr job"
    and "processJob E job w = Some (Some e, w1)"
  shows "\<exists>w2. handle_message E m w = Some w2 \<and> acks (view w2) = acks (view w)
    \<and> (if JRetryCount job < 2
       then stream_of (view w2) = (stream_of (view w))(dlqStream := stream_of (view w) dlqStream
              @ [[(''job'', marshal_job (job\<lparr>JRetryCount := JRetryCount job + 1\<rparr>))]])
         \<and> (\<forall>x. vals (kv (view w2)) (statusKeyPrefix @ JDocumentID job) = Some x \<longrightarrow>
              (\<exists>t. x = marshal_status \<lparr>SDocumentID = JDocumentID job, SStatus = ''processing'', SErrorDetail = [], SUpdatedAt = t\<rparr>))
       else stream_of (view w2) = stream_of (view w)
         \<and> (\<exists>t. vals (kv (view w2)) (statusKeyPrefix @ JDocumentID job)
              = Some (marshal_status \<lparr>SDocumentID = JDocumentID job, SStatus = ''failed'', SErrorDetail = e, SUpdatedAt = t\<rparr>)))"
proof -
  note f = failed_job_view [OF assms(1,2,5)]
  let ?job = "job\<lparr>JRetryCount := JRetryCount job + 1\<rparr>"
  obtain x w2 where x: "sendToDLQ E job e w1 = (x, w2)" by fastforce
  have h: "handle_message E m w = Some w2" using assms(3-5) x by (simp add: handle_message_def)
  show ?thesis
  proof (cases "JRetryCount job < 2")
    case True
    obtain r w3 where r: "i_xadd E dlqStream [(''job'', marshal_job ?job)] w1 = (r, w3)" by fastforce
    have "\<nexists>y. r = Inl y" using assms(2) r unfolding redis_up_def by (metis fst_conv)
    moreover have "w2 = w3" using x r True by (auto simp: sendToDLQ_def Let_def split: sum.splits)
    ultimately obtain v where v: "quiet (view w1) v"
        "view w2 = v\<lparr>stream_of := (stream_of v)(dlqStream := stream_of v dlqStream @ [[(''job'', marshal_job ?job)]])\<rparr>"
      using assms(1) r unfolding ingest_law_def by blast
    then have "acks (view w2) = acks (view w)"
      "stream_of (view w2) = (stream_of (view w))(dlqStream := stream_of (view w) dlqStream @ [[(''job'', marshal_job ?job)]])"
      using f by (simp_all add: quiet_def)
    moreover have "vals (kv (view w1)) k = Some y" if "vals (kv (view w2)) k = Some y" for k y
      using that v unfolding quiet_def by (auto intro: aged_vals)
    ultimately show ?thesis using h True f by auto
  next
    case False
    with x have "updateStatus E (JDocumentID job) ''failed'' e w1 = (x, w2)" by (simp add: sendToDLQ_def)
    from updateStatus_view [OF assms(1,2) this] f h False show ?thesis by auto
  qed
qed

section \<open>Concrete runs\<close>

definition sample_pg :: pg_env where
  "sample_pg = \<lparr>fault = (\<lambda>n. None), now_at = (\<lambda>n. int n), random_uuid = (\<lambda>n. dec_of_nat n), to_uuid = Some,
     text_ok = (\<lambda>t. True), to_jsonb = Some, ts_match = (\<lambda>c q. contains c q), ts_rank = (\<lambda>c q. 1)\<rparr>"

definition sample_document :: document_row where
  "sample_document = \<lparr>d_id = ''d'', d_domain = ''code'', d_title = [], d_content = ''hello'', d_hash = ''hello'',
     d_status = ''pending'', d_created = 0, d_updated = 0\<rparr>"

definition sample_chunk :: chunk_row where
  "sample_chunk = \<lparr>c_id = ''0'', c_document = ''d'', c_index = 0, c_content = ''hi'', c_hash = ''hi'', c_point = None,
     c_domain = ''code'', c_model = [], c_created = 0\<rparr>"

definition sample_db :: "chunk_row list \<Rightarrow> pgdb" where
  "sample_db cs = \<lparr>relations = [''documents'', ''chunks''], documents_table = [sample_document], chunks_table = cs,
     tools_table = [], statements = 1\<rparr>"

definition pg_worker :: "(memory_redis \<times> pgdb) ingest_env" where
  "pg_worker = \<lparr>
     i_keys = memory_keys fst (\<lambda>m (_, db). (m, db)),
     i_xadd = (\<lambda>s v w. (Inr ''1-0'', w)), i_xack = (\<lambda>s g i w. (Inr 1, w)), i_xlen = (\<lambda>s w. (Inr 0, w)),
     i_xgroup = (\<lambda>s g i w. (None, w)), i_xread = (\<lambda>s g c w. (Read_Nothing, w)), i_now = (\<lambda>w. zero_time),
     i_time_ok = (\<lambda>t. True), i_uuid = (\<lambda>w. (''u'', w)), i_sha = (\<lambda>t. t), i_embed = (\<lambda>t w. (Inr [], w)),
     i_qdrant = (\<lambda>d ps w. (None, w)),
     i_pg = (\<lambda>c (m, db). (fst (UpsertChunk sample_pg c db), (m, snd (UpsertChunk sample_pg c db)))),
     i_cancelled = (\<lambda>w. None), i_schedule = (\<lambda>w. [0, 0, 0, 0])\<rparr>"

lemma pg_worker_on_pg: "on_pg sample_pg pg_worker"
  by (auto simp: on_pg_def pg_worker_def keeps_def memory_keys_def split: option.splits prod.splits)

lemma indexed_chunks_are_stored_witness:
  "\<exists>x' db'. processJob pg_worker tiny_job (([], []), sample_db []) = Some (None, (x', db'))
     \<and> (\<exists>r \<in> set (chunks_table db'). c_hash r = ''hello'')"
proof -
  let ?run = "processJob pg_worker tiny_job (([], []), sample_db [])"
  have "(case ?run of Some (None, _) \<Rightarrow> True | _ \<Rightarrow> False) = True" by code_simp
  then obtain x' db' where r: "?run = Some (None, (x', db'))" by (auto split: option.splits prod.splits)
  have c: "job_chunks tiny_job = [''hello'']" by code_simp
  have "i_sha pg_worker = (\<lambda>t. t)" by (simp add: pg_worker_def)
  with indexed_chunks_are_stored [OF pg_worker_on_pg _ r]
  have "hashes_ok (\<lambda>t. t) db'" "\<exists>r \<in> set (chunks_table db'). c_hash r = ''hello''"
    by (auto simp: c hashes_ok_def sample_db_def)
  with r show ?thesis by blast
qed

lemma changed_document_is_refused_witness:
  "\<exists>err x' db'. processJob pg_worker tiny_job (([], []), sample_db [sample_chunk]) = Some (Some err, (x', db'))
     \<and> chunks_table db' = [sample_chunk]"
proof -
  let ?run = "processJob pg_worker tiny_job (([], []), sample_db [sample_chunk])"
  have "(case ?run of Some _ \<Rightarrow> True | _ \<Rightarrow> False) = True" by code_simp
  then obtain err x' db' where r: "?run = Some (err, (x', db'))" by (auto split: option.splits)
  have c: "job_chunks tiny_job = [''hello'']" by code_simp
  have "err \<noteq> None \<and> chunks_table db' = chunks_table (sample_db [sample_chunk])"
    by (rule changed_document_is_refused [OF pg_worker_on_pg _ _ _ r, of "''d''"])
      (simp_all add: c, simp_all add: sample_pg_def tiny_job_def sample_db_def sample_chunk_def pg_worker_def)
  with r show ?thesis by (auto simp: sample_db_def)
qed

text \<open>A Redis with its streams, and an embedding service that is down.\<close>

record stream_world =
  sw_keys :: memory_redis
  sw_entries :: "string \<Rightarrow> (string \<times> string) list list"
  sw_acks :: "string set"

definition down_worker :: "stream_world ingest_env" where
  "down_worker = \<lparr>
     i_keys = memory_keys sw_keys (\<lambda>m w. w\<lparr>sw_keys := m\<rparr>),
     i_xadd = (\<lambda>s v w. (Inr ''1-0'', w\<lparr>sw_entries := (sw_entries w)(s := sw_entries w s @ [v])\<rparr>)),
     i_xack = (\<lambda>s g i w. (Inr 1, w\<lparr>sw_acks := insert i (sw_acks w)\<rparr>)), i_xlen = (\<lambda>s w. (Inr (int (length (sw_entries w s))), w)),
     i_xgroup = (\<lambda>s g i w. (None, w)), i_xread = (\<lambda>s g c w. (Read_Nothing, w)), i_now = (\<lambda>w. zero_time),
     i_time_ok = (\<lambda>t. True), i_uuid = (\<lambda>w. (''u'', w)), i_sha = (\<lambda>t. t), i_embed = (\<lambda>t w. (Inl ''down'', w)),
     i_qdrant = (\<lambda>d ps w. (None, w)), i_pg = (\<lambda>c w. (None, w)), i_cancelled = (\<lambda>w. None),
     i_schedule = (\<lambda>w. [0, 0, 0, 0])\<rparr>"

definition world_view :: "stream_world \<Rightarrow> ingest_view" where
  "world_view w = \<lparr>kv = memory_view sw_keys w, stream_of = sw_entries w, acks = sw_acks w\<rparr>"

definition idle_redis :: stream_world where
  "idle_redis = \<lparr>sw_keys = ([], []), sw_entries = (\<lambda>_. []), sw_acks = {}\<rparr>"

lemma down_worker_law: "ingest_law down_worker world_view"
proof -
  have "keys_law (memory_keys sw_keys (\<lambda>m w. w\<lparr>sw_keys := m\<rparr>)) (kv \<circ> world_view)"
    using memory_keys_law [of sw_keys "\<lambda>m w. w\<lparr>sw_keys := m\<rparr>"] by (simp add: world_view_def comp_def memory_view_def [abs_def])
  moreover have "\<exists>v. quiet (world_view w) v \<and> world_view (snd (i_xadd down_worker s e w))
      = v\<lparr>stream_of := (stream_of v)(s := stream_of v s @ [e])\<rparr>" for s e w
    by (intro exI [of _ "world_view w"]) (simp add: quiet_refl down_worker_def world_view_def memory_view_def)
  ultimately show ?thesis
    unfolding ingest_law_def by (auto simp: Let_def)
      (auto simp: down_worker_def world_view_def quiet_refl memory_keys_def split: option.splits if_splits)
qed

lemma failed_job_stays_pending_witness:
  "\<exists>w2. handle_message down_worker \<lparr>msg_id = ''1'', msg_values = [(''job'', marshal_job tiny_job)]\<rparr> idle_redis = Some w2
     \<and> sw_acks w2 = {} \<and> sw_entries w2 dlqStream = [[(''job'', marshal_job (tiny_job\<lparr>JRetryCount := 1\<rparr>))]]"
proof -
  let ?m = "\<lparr>msg_id = ''1'', msg_values = [(''job'', marshal_job tiny_job)]\<rparr>" and ?ok = "i_time_ok down_worker"
  have j: "unmarshal_job ?ok (marshal_job tiny_job) = Inr tiny_job"
    by (rule job_roundtrip) (simp_all add: down_worker_def tiny_job_def)
  have "(case processJob down_worker tiny_job idle_redis of Some (Some _, _) \<Rightarrow> True | _ \<Rightarrow> False) = True" by code_simp
  then obtain e w1 where r: "processJob down_worker tiny_job idle_redis = Some (Some e, w1)"
    by (auto split: option.splits prod.splits)
  have up: "redis_up down_worker"
    by (auto simp: redis_up_def down_worker_def memory_keys_def split: option.splits)
  show ?thesis
    using failed_job_stays_pending [OF down_worker_law _ _ j r, of ?m] up
    by (auto simp: tiny_job_def world_view_def idle_redis_def)
qed

end
