(* ===== verification/Reconciler.thy ===== *)
theory Reconciler
  imports Ingest_Props
begin

text \<open>
  The reconciler, \<open>internal/ingest/reconciler.go\<close>: it pages through the vector store and deletes the
  points without a row in the relational store.

  The world is a pair: the vector store and the log, and the store of the chunk rows. The two interfaces
  of the source are parameters. \<open>ChunkLookup\<close> is the locale \<open>chunk_lookup\<close>, which the relational store
  provides. \<open>QdrantScroller\<close> is used through \<open>scroll_law\<close>, the documented behaviour of the service: a page
  begins at the point whose id is the offset, and the next offset is the id of the first point after it.
\<close>

section \<open>The loop\<close>

type_synonym 'w scroller = "string \<Rightarrow> int \<Rightarrow> string \<Rightarrow> 'w \<Rightarrow> (qdrant_point list \<times> string) result \<times> 'w"

record 'w reconcile_env =
  q_scroll :: "'w scroller"
  q_delete :: "string \<Rightarrow> string list \<Rightarrow> 'w \<Rightarrow> goerr option \<times> 'w"
  q_log :: "string \<Rightarrow> 'w \<Rightarrow> 'w"

fun find_orphans :: "(string \<Rightarrow> 'd \<Rightarrow> bool result \<times> 'd) \<Rightarrow> qdrant_point list \<Rightarrow> 'd \<Rightarrow> string list result \<times> 'd" where
  "find_orphans has [] d = (Inr [], d)"
| "find_orphans has (p # ps) d =
     (case has (PointID p) d of
        (Inl e, d1) \<Rightarrow> (Inl (''has qdrant point '' @ PointID p @ '': '' @ e), d1)
      | (Inr found, d1) \<Rightarrow>
          (case find_orphans has ps d1 of
             (Inl e, d2) \<Rightarrow> (Inl e, d2)
           | (Inr orphans, d2) \<Rightarrow> (Inr (if found then orphans else PointID p # orphans), d2)))"

definition delete_orphans :: "'w reconcile_env \<Rightarrow> string \<Rightarrow> string list \<Rightarrow> 'w \<Rightarrow> goerr option \<times> 'w" where
  "delete_orphans Q domain orphans w =
     (if orphans = [] then (None, w)
      else case q_delete Q domain orphans w of
        (Some e, w1) \<Rightarrow> (Some (''delete orphan points domain='' @ domain @ '': '' @ e), w1)
      | (None, w1) \<Rightarrow> (None, w1))"

text \<open>The pages of a domain, with the numbers of orphans found and deleted so far.\<close>

partial_function (option) scroll_pages ::
  "'w reconcile_env \<Rightarrow> (string \<Rightarrow> 'd \<Rightarrow> bool result \<times> 'd) \<Rightarrow> string \<Rightarrow> string \<Rightarrow> nat \<Rightarrow> nat \<Rightarrow> 'w \<Rightarrow> 'd
   \<Rightarrow> ((nat \<times> nat) result \<times> 'w \<times> 'd) option" where
  "scroll_pages Q has domain offset found deleted w d =
     (case q_scroll Q domain 100 offset w of
        (Inl e, w1) \<Rightarrow> Some (Inl (''scroll points domain='' @ domain @ '': '' @ e), w1, d)
      | (Inr (points, nextOffset), w1) \<Rightarrow>
          (case find_orphans has points d of
             (Inl e, d1) \<Rightarrow> Some (Inl e, w1, d1)
           | (Inr orphans, d1) \<Rightarrow>
               (case delete_orphans Q domain orphans w1 of
                  (Some e, w2) \<Rightarrow> Some (Inl e, w2, d1)
                | (None, w2) \<Rightarrow>
                    if nextOffset = [] then Some (Inr (found + length orphans, deleted + length orphans), w2, d1)
                    else scroll_pages Q has domain nextOffset (found + length orphans) (deleted + length orphans) w2 d1)))"

fun Reconcile ::
  "'w reconcile_env \<Rightarrow> (string \<Rightarrow> 'd \<Rightarrow> bool result \<times> 'd) \<Rightarrow> string list \<Rightarrow> 'w \<Rightarrow> 'd \<Rightarrow> (goerr option \<times> 'w \<times> 'd) option" where
  "Reconcile Q has [] w d = Some (None, w, d)"
| "Reconcile Q has (domain # domains) w d =
     (case scroll_pages Q has domain [] 0 0 w d of
        None \<Rightarrow> None
      | Some (Inl e, w1, d1) \<Rightarrow> Some (Some e, w1, d1)
      | Some (Inr (found, deleted), w1, d1) \<Rightarrow>
          Reconcile Q has domains
            (q_log Q (''domain='' @ domain @ '' orphans_found='' @ dec_of_nat found @ '' orphans_deleted='' @ dec_of_nat deleted) w1) d1)"

section \<open>What the services promise\<close>

definition from_offset :: "string \<Rightarrow> qdrant_point list \<Rightarrow> qdrant_point list" where
  "from_offset offset ps = (if offset = [] then ps else dropWhile (\<lambda>p. PointID p \<noteq> offset) ps)"

definition next_offset :: "qdrant_point list \<Rightarrow> string" where
  "next_offset ps = (case ps of [] \<Rightarrow> [] | p # _ \<Rightarrow> PointID p)"

definition scroll_law :: "'w reconcile_env \<Rightarrow> ('w \<Rightarrow> string \<Rightarrow> qdrant_point list) \<Rightarrow> bool" where
  "scroll_law Q view \<longleftrightarrow>
     (\<forall>w d. distinct (map PointID (view w d)) \<and> (\<forall>p \<in> set (view w d). PointID p \<noteq> []))
     \<and> (\<forall>d n off w r w'. q_scroll Q d n off w = (r, w') \<longrightarrow> view w' = view w
          \<and> (\<forall>ps next. r = Inr (ps, next) \<longrightarrow> ps = take (nat n) (from_offset off (view w d))
               \<and> next = next_offset (drop (nat n) (from_offset off (view w d)))))
     \<and> (\<forall>d gone w w'. q_delete Q d gone w = (None, w') \<longrightarrow>
          view w' = (view w)(d := filter (\<lambda>p. PointID p \<notin> set gone) (view w d)))
     \<and> (\<forall>m w. view (q_log Q m w) = view w)"

locale chunk_lookup =
  fixes has_point :: "string \<Rightarrow> 'd \<Rightarrow> bool result \<times> 'd" and linked :: "'d \<Rightarrow> string set"
  assumes has_answer: "has_point i d = (Inr b, d') \<Longrightarrow> b = (i \<in> linked d)"
    and has_keeps: "has_point i d = (r, d') \<Longrightarrow> linked d' = linked d"
begin

lemma orphans_keeps: "find_orphans has_point ps d = (r, d') \<Longrightarrow> linked d' = linked d"
proof (induction ps arbitrary: d r d')
  case (Cons p ps)
  obtain b d1 where h: "has_point (PointID p) d = (b, d1)" by fastforce
  obtain os d2 where f: "find_orphans has_point ps d1 = (os, d2)" by fastforce
  have "linked d1 = linked d" by (rule has_keeps [OF h])
  moreover have "linked d2 = linked d1" by (rule Cons.IH [OF f])
  moreover have "d' = d1 \<or> d' = d2" using Cons.prems h f by (cases b; cases os) auto
  ultimately show ?case by auto
qed simp

lemma orphans_exact:
  "find_orphans has_point ps d = (Inr os, d') \<Longrightarrow> os = map PointID (filter (\<lambda>p. PointID p \<notin> linked d) ps)"
proof (induction ps arbitrary: d os d')
  case (Cons p ps)
  from Cons.prems obtain b d1 os1 where h: "has_point (PointID p) d = (Inr b, d1)"
    and f: "find_orphans has_point ps d1 = (Inr os1, d')" and os: "os = (if b then os1 else PointID p # os1)"
    by (auto split: prod.splits sum.splits)
  from Cons.IH [OF f] os has_answer [OF h] has_keeps [OF h] show ?case by simp
qed simp

end

section \<open>The client of the two interfaces\<close>

text \<open>
  Deleting orphans of a page: the points before the page and after it stay, so that the next page begins
  where the offset says.
\<close>

lemma from_offset_next:
  assumes "distinct (map PointID (pre @ post))" and "post \<noteq> []" and "PointID (hd post) \<noteq> []"
  shows "from_offset (next_offset post) (pre @ post) = post"
proof -
  obtain p ps where post: "post = p # ps" using assms(2) by (cases post) auto
  have "dropWhile (\<lambda>q. PointID q \<noteq> PointID p) (pre @ p # ps) = dropWhile (\<lambda>q. PointID q \<noteq> PointID p) (p # ps)"
  proof (rule dropWhile_append2)
    fix q assume "q \<in> set pre"
    then have "PointID q \<in> PointID ` set pre" by (rule imageI)
    moreover have "PointID p \<notin> PointID ` set pre" using assms(1) by (simp add: post)
    ultimately show "PointID q \<noteq> PointID p" by metis
  qed
  with assms(3) show ?thesis by (simp add: post from_offset_def next_offset_def)
qed

definition kept :: "string set \<Rightarrow> qdrant_point list \<Rightarrow> qdrant_point list" where
  "kept rows ps = filter (\<lambda>p. PointID p \<in> rows) ps"

lemma filter_page:
  assumes "distinct (map PointID (pre @ page @ post))"
  shows "filter (\<lambda>p. PointID p \<notin> set (map PointID (filter (\<lambda>p. PointID p \<notin> rows) page))) (pre @ page @ post)
    = pre @ kept rows page @ post"
proof -
  let ?gone = "set (map PointID (filter (\<lambda>p. PointID p \<notin> rows) page))"
  have "\<forall>p \<in> set pre \<union> set post. PointID p \<notin> ?gone" using assms by (auto simp: image_iff)
  then have "filter (\<lambda>p. PointID p \<notin> ?gone) pre = pre" "filter (\<lambda>p. PointID p \<notin> ?gone) post = post"
    by (simp_all add: filter_id_conv)
  moreover have "filter (\<lambda>p. PointID p \<notin> ?gone) page = kept rows page"
    unfolding kept_def by (rule filter_cong) (use assms in \<open>auto simp: distinct_map inj_on_def\<close>)
  ultimately show ?thesis by (simp only: filter_append)
qed

lemma scroll_lawD:
  assumes "scroll_law Q view"
  shows "distinct (map PointID (view w d))" and "p \<in> set (view w d) \<Longrightarrow> PointID p \<noteq> []"
    and "q_scroll Q d n off w = (r, w') \<Longrightarrow> view w' = view w"
    and "q_scroll Q d n off w = (Inr (ps, next), w') \<Longrightarrow> ps = take (nat n) (from_offset off (view w d))
           \<and> next = next_offset (drop (nat n) (from_offset off (view w d)))"
    and "q_delete Q d gone w = (None, w') \<Longrightarrow> view w' = (view w)(d := filter (\<lambda>p. PointID p \<notin> set gone) (view w d))"
    and "view (q_log Q m w) = view w"
  using assms unfolding scroll_law_def by blast+

lemma delete_orphans_view:
  assumes "scroll_law Q view" and "delete_orphans Q d gone w = (None, w')"
  shows "view w' = (view w)(d := filter (\<lambda>p. PointID p \<notin> set gone) (view w d))"
proof (cases "gone = []")
  case True
  with assms(2) show ?thesis by (auto simp: delete_orphans_def)
next
  case False
  with assms(2) have "q_delete Q d gone w = (None, w')" by (auto simp: delete_orphans_def split: prod.splits option.splits)
  then show ?thesis by (rule scroll_lawD(5) [OF assms(1)])
qed

context chunk_lookup
begin

lemma scroll_pages_exact:
  assumes "scroll_law Q view"
  shows "view w dm = pre @ post \<Longrightarrow> from_offset off (pre @ post) = post \<Longrightarrow>
    \<exists>r w' d'. scroll_pages Q has_point dm off i j w d = Some (r, w', d')
      \<and> (\<forall>n. r = Inr n \<longrightarrow> view w' = (view w)(dm := pre @ kept (linked d) post) \<and> linked d' = linked d)"
proof (induction "length post" arbitrary: off pre post i j w d rule: less_induct)
  case less
  note law = scroll_lawD [OF assms]
  obtain sr w1 where s: "q_scroll Q dm 100 off w = (sr, w1)" by fastforce
  note w1 = law(3) [OF s]
  show ?case
  proof (cases sr)
    case (Inl e)
    with s show ?thesis by (subst scroll_pages.simps) simp
  next
    case (Inr pn)
    let ?page = "take 100 post" and ?rest = "drop 100 post"
    obtain ps nx where pn: "pn = (ps, nx)" by fastforce
    have ps: "ps = ?page" "nx = next_offset ?rest"
      using law(4) [OF s [unfolded Inr pn]] less.prems by simp_all
    obtain fr d1 where f: "find_orphans has_point ps d = (fr, d1)" by fastforce
    show ?thesis
    proof (cases fr)
      case (Inl e)
      with s Inr pn f show ?thesis by (subst scroll_pages.simps) simp
    next
      case R: (Inr gone)
      obtain de w2 where de: "delete_orphans Q dm gone w1 = (de, w2)" by fastforce
      show ?thesis
      proof (cases de)
        case (Some e)
        with s Inr pn f R de show ?thesis by (subst scroll_pages.simps) simp
      next
        case None
        have dist: "distinct (map PointID (pre @ ?page @ ?rest))" using law(1) [of w dm] less.prems(1) by simp
        have gone: "gone = map PointID (filter (\<lambda>p. PointID p \<notin> linked d) ?page)"
          using orphans_exact [OF f [unfolded R]] ps(1) by simp
        have "view w2 = (view w)(dm := filter (\<lambda>p. PointID p \<notin> set gone) (pre @ ?page @ ?rest))"
          using delete_orphans_view [OF assms de [unfolded None]] less.prems(1) w1 by simp
        then have v2: "view w2 = (view w)(dm := (pre @ kept (linked d) ?page) @ ?rest)"
          unfolding gone filter_page [OF dist] by simp
        have l1: "linked d1 = linked d" by (rule orphans_keeps [OF f])
        have k: "kept (linked d) post = kept (linked d) ?page @ kept (linked d) ?rest"
          by (metis append_take_drop_id filter_append kept_def)
        show ?thesis
        proof (cases "?rest = []")
          case True
          then have nx: "nx = []" by (simp add: ps(2) next_offset_def)
          have "scroll_pages Q has_point dm off i j w d = Some (Inr (i + length gone, j + length gone), w2, d1)"
            using s Inr pn f R de None nx by (subst scroll_pages.simps) simp
          moreover have "view w2 = (view w)(dm := pre @ kept (linked d) post)"
            unfolding v2 using True by simp
          ultimately show ?thesis using l1 by blast
        next
          case False
          then have len: "length ?rest < length post" by simp
          have "hd ?rest \<in> set (view w dm)" using False less.prems(1) by (metis Un_iff hd_in_set in_set_dropD set_append)
          then have ne: "PointID (hd ?rest) \<noteq> []" by (rule law(2))
          then have nx: "nx \<noteq> []" using False ps(2) by (cases ?rest) (simp_all add: next_offset_def)
          have d2: "distinct (map PointID ((pre @ kept (linked d) ?page) @ ?rest))"
            using law(1) [of w2 dm] v2 by simp
          have off2: "from_offset nx ((pre @ kept (linked d) ?page) @ ?rest) = ?rest"
            unfolding ps(2) by (rule from_offset_next [OF d2 False ne])
          have v2': "view w2 dm = (pre @ kept (linked d) ?page) @ ?rest" by (simp add: v2)
          obtain r w' d' where r: "scroll_pages Q has_point dm nx (i + length gone) (j + length gone) w2 d1 = Some (r, w', d')"
              "\<forall>n. r = Inr n \<longrightarrow> view w' = (view w2)(dm := (pre @ kept (linked d) ?page) @ kept (linked d1) ?rest) \<and> linked d' = linked d1"
            using less.hyps [OF len v2' off2, of "i + length gone" "j + length gone" d1] by blast
          have "scroll_pages Q has_point dm off i j w d = Some (r, w', d')"
            using s Inr pn f R de None nx r(1) by (subst scroll_pages.simps) simp
          moreover have "(view w2)(dm := (pre @ kept (linked d) ?page) @ kept (linked d) ?rest) = (view w)(dm := pre @ kept (linked d) post)"
            unfolding v2 k by simp
          ultimately show ?thesis using r(2) unfolding l1 by auto
        qed
      qed
    qed
  qed
qed

lemma reconcile_exact:
  assumes "scroll_law Q view"
  shows "\<exists>err w' d'. Reconcile Q has_point domains w d = Some (err, w', d')
    \<and> (err = None \<longrightarrow> linked d' = linked d
        \<and> view w' = (\<lambda>dm. if dm \<in> set domains then kept (linked d) (view w dm) else view w dm))"
proof (induction domains arbitrary: w d)
  case Nil
  show ?case by simp
next
  case (Cons dm domains)
  obtain r w1 d1 where r: "scroll_pages Q has_point dm [] 0 0 w d = Some (r, w1, d1)"
      "\<forall>n. r = Inr n \<longrightarrow> view w1 = (view w)(dm := kept (linked d) (view w dm)) \<and> linked d1 = linked d"
    using scroll_pages_exact [OF assms, of w dm "[]" "view w dm" "[]" 0 0 d] by (auto simp: from_offset_def)
  show ?case
  proof (cases r)
    case (Inl e)
    with r show ?thesis by simp
  next
    case (Inr n)
    obtain x y where n: "n = (x, y)" by fastforce
    let ?w = "q_log Q (''domain='' @ dm @ '' orphans_found='' @ dec_of_nat x @ '' orphans_deleted='' @ dec_of_nat y) w1"
    obtain err w' d' where c: "Reconcile Q has_point domains ?w d1 = Some (err, w', d')"
        "err = None \<longrightarrow> linked d' = linked d1
         \<and> view w' = (\<lambda>dm. if dm \<in> set domains then kept (linked d1) (view ?w dm) else view ?w dm)"
      using Cons.IH by blast
    have "kept a (kept a ps) = kept a ps" for a ps by (simp add: kept_def)
    then show ?thesis
      using c r Inr n scroll_lawD(6) [OF assms] by (auto simp: fun_eq_iff)
  qed
qed

end

section \<open>Over the relational store\<close>

definition linked_points :: "pg_env \<Rightarrow> pgdb \<Rightarrow> string set" where
  "linked_points P db = {i. \<exists>u. to_uuid P i = Some u \<and> (\<exists>c \<in> set (chunks_table db). c_point c = Some u)}"

interpretation pg: chunk_lookup "HasQdrantPoint P" "linked_points P"
  by unfold_locales
    (auto simp: HasQdrantPoint_def linked_points_def statement_def Let_def
      split: prod.splits sum.splits option.splits if_splits)

text \<open>
  C28. Reconciliation always ends. When it reports no error, exactly the points that a row of the store
  refers to are left in the given domains, in their order, however the pages fall; other domains are
  untouched.
\<close>

theorem reconciliation_is_exact:
  assumes "scroll_law Q view"
  shows "\<exists>err w' db'. Reconcile Q (HasQdrantPoint P) domains w db = Some (err, w', db')
    \<and> (err = None \<longrightarrow> (\<forall>dm. view w' dm =
         (if dm \<in> set domains then filter (\<lambda>p. PointID p \<in> linked_points P db) (view w dm) else view w dm)))"
  using pg.reconcile_exact [OF assms, of P domains w db] by (auto simp: kept_def)

text \<open>
  No row the program writes refers to a point, so on any database that its store operations can reach
  reconciliation deletes every point of the domains it is given, those of indexed documents included.
\<close>

theorem reconciliation_empties_the_store:
  assumes "scroll_law Q view" and "pg_reachable P db"
    and "Reconcile Q (HasQdrantPoint P) domains w db = Some (None, w', db')" and "dm \<in> set domains"
  shows "view w' dm = []"
proof -
  have "linked_points P db = {}"
    using pg_inv_reachable [OF assms(2)] by (auto simp: linked_points_def pg_inv_def)
  with pg.reconcile_exact [OF assms(1), of P domains w db] assms(3,4) show ?thesis by (auto simp: kept_def)
qed

section \<open>Concrete runs\<close>

text \<open>A vector store with one collection.\<close>

definition one_collection :: "qdrant_point list \<Rightarrow> string \<Rightarrow> qdrant_point list" where
  "one_collection ps d =
     (if d = ''code'' \<and> distinct (map PointID ps) \<and> [] \<notin> set (map PointID ps) then ps else [])"

definition sample_store :: "qdrant_point list reconcile_env" where
  "sample_store = \<lparr>
     q_scroll = (\<lambda>d n off w. let ps = from_offset off (one_collection w d)
                  in (Inr (take (nat n) ps, next_offset (drop (nat n) ps)), w)),
     q_delete = (\<lambda>d gone w. (None, if one_collection w d = [] then w else filter (\<lambda>p. PointID p \<notin> set gone) w)),
     q_log = (\<lambda>m w. w)\<rparr>"

lemma sample_store_law: "scroll_law sample_store one_collection"
proof -
  have "one_collection (if one_collection w d = [] then w else filter (\<lambda>p. PointID p \<notin> set gone) w)
      = (one_collection w)(d := filter (\<lambda>p. PointID p \<notin> set gone) (one_collection w d))" for w d gone
    by (auto simp: one_collection_def fun_eq_iff distinct_map_filter)
  moreover have "distinct (map PointID (one_collection w d))" "p \<in> set (one_collection w d) \<Longrightarrow> PointID p \<noteq> []" for w d p
    by (auto simp: one_collection_def image_iff split: if_splits)
  ultimately show ?thesis
    by (simp add: scroll_law_def sample_store_def Let_def)
qed

definition sample_point :: qdrant_point where
  "sample_point = \<lparr>PointID = ''p'', Vector = [], Payload = []\<rparr>"

lemma reconciliation_is_exact_witness:
  "\<exists>err w' db'. Reconcile sample_store (HasQdrantPoint sample_pg) [''code''] [sample_point] (sample_db []) = Some (err, w', db')
     \<and> (err = None \<longrightarrow> one_collection w' ''code'' = [])"
  using reconciliation_is_exact [OF sample_store_law, of sample_pg "[''code'']" "[sample_point]" "sample_db []"]
  by (auto simp: linked_points_def sample_db_def)

lemma reconciliation_empties_the_store_witness:
  "\<exists>w' db'. Reconcile sample_store (HasQdrantPoint sample_pg) [''code''] [sample_point] (snd (Bootstrap sample_pg empty_db))
       = Some (None, w', db') \<and> one_collection w' ''code'' = []"
proof -
  let ?db = "snd (Bootstrap sample_pg empty_db)"
  let ?run = "Reconcile sample_store (HasQdrantPoint sample_pg) [''code''] [sample_point] ?db"
  define db' where "db' = snd (find_orphans (HasQdrantPoint sample_pg) [sample_point] ?db)"
  have f: "find_orphans (HasQdrantPoint sample_pg) [sample_point] ?db = (Inr [''p''], db')"
    unfolding db'_def by code_simp
  have q: "q_scroll sample_store ''code'' 100 [] [sample_point] = (Inr ([sample_point], []), [sample_point])" by code_simp
  have d: "delete_orphans sample_store ''code'' [''p''] [sample_point] = (None, [])" by code_simp
  have "scroll_pages sample_store (HasQdrantPoint sample_pg) ''code'' [] 0 0 [sample_point] ?db = Some (Inr (1, 1), [], db')"
    by (subst scroll_pages.simps) (simp add: q f d del: find_orphans.simps)
  then have r: "?run = Some (None, [], db')" by (simp add: sample_store_def)
  have "pg_reachable sample_pg ?db" by (rule pg_reachable.step [OF pg_reachable.start pg_step.bootstrap])
  from reconciliation_empties_the_store [OF sample_store_law this r] r show ?thesis by simp
qed

end
