(* ===== verification/Documents.thy ===== *)
theory Documents
  imports Ingest_Props Gateway_Core
begin

text \<open>
  The document endpoints (\<open>internal/gateway/documents.go\<close>), the deletion of a session
  (\<open>sessions.go\<close>) and the probes (\<open>probes.go\<close>), and what becomes of the documents they accept: the
  endpoint, the queue, the worker and the relational store together.
\<close>

section \<open>Handlers\<close>

record document_request =
  DReqDomain :: string
  DReqTitle :: string
  DReqContent :: string

definition parse_document :: "string \<Rightarrow> document_request result" where
  "parse_document body =
     result_bind (unmarshal_obj body) (\<lambda>ms. result_bind (str_field ''domain'' ms) (\<lambda>d.
       result_bind (str_field ''title'' ms) (\<lambda>t. result_bind (str_field ''content'' ms) (\<lambda>c.
         Inr \<lparr>DReqDomain = d, DReqTitle = t, DReqContent = c\<rparr>))))"

definition document_response :: "string \<Rightarrow> string \<Rightarrow> json" where
  "document_response docID status = JObj [(''document_id'', JStr docID), (''status'', JStr status)]"

definition EnqueueDocument :: "'w ingest_env \<Rightarrow> string \<Rightarrow> 'w \<Rightarrow> reply \<times> 'w" where
  "EnqueueDocument E body w =
     (case parse_document body of
        Inl _ \<Rightarrow> (reply_json 422 (errResp ''invalid request body''), w)
      | Inr req \<Rightarrow>
          if DReqDomain req = [] then (reply_json 422 (errResp ''domain is required''), w)
          else if DReqContent req = [] then (reply_json 422 (errResp ''content is required''), w)
          else
            (let (docID, w1) = i_uuid E w;
                 job = \<lparr>JDocumentID = docID, JDomain = DReqDomain req, JContent = DReqContent req,
                   JTitle = DReqTitle req, JEnqueuedAt = i_now E w1, JRetryCount = 0\<rparr>
             in case Enqueue E job w1 of
                  (Some e, w2) \<Rightarrow> (reply_json 500 (errResp e), w2)
                | (None, w2) \<Rightarrow> (reply_json 202 (document_response docID ''pending''), w2)))"

definition json_of_status :: "ingest_status \<Rightarrow> json" where
  "json_of_status s = JObj ([(''document_id'', JStr (SDocumentID s)), (''status'', JStr (SStatus s))]
     @ (if SErrorDetail s = [] then [] else [(''error_detail'', JStr (SErrorDetail s))])
     @ [(''updated_at'', JStr (SUpdatedAt s))])"

definition DocumentStatus :: "'w ingest_env \<Rightarrow> string \<Rightarrow> 'w \<Rightarrow> reply \<times> 'w" where
  "DocumentStatus E i w =
     (case GetStatus E i w of
        (Inl e, w1) \<Rightarrow> (reply_json 404 (errResp e), w1)
      | (Inr status, w1) \<Rightarrow> (reply_json 200 (json_of_status status), w1))"

definition DeleteSessionHandler :: "'w redis \<Rightarrow> string \<Rightarrow> 'w \<Rightarrow> reply \<times> 'w" where
  "DeleteSessionHandler R i w =
     (case DeleteSession R i w of
        (Some e, w1) \<Rightarrow> (reply_json 500 (errResp e), w1)
      | (None, w1) \<Rightarrow> (\<lparr>ReplyStatus = 204, ReplyHeaders = [], ReplyBody = TextBody []\<rparr>, w1))"

definition HealthzHandler :: reply where
  "HealthzHandler = reply_json 200 (JObj [(''status'', JStr ''ok'')])"

definition ReadyzHandler :: "('w \<Rightarrow> goerr option \<times> 'w) \<Rightarrow> 'w \<Rightarrow> reply \<times> 'w" where
  "ReadyzHandler health w =
     (case health w of
        (Some e, w1) \<Rightarrow> (reply_json 503 (JObj [(''error'', JStr e), (''status'', JStr ''not ready'')]), w1)
      | (None, w1) \<Rightarrow> (reply_json 200 (JObj [(''status'', JStr ''ready'')]), w1))"

section \<open>Databases of the program\<close>

text \<open>
  \<open>UpsertDocument\<close> has no caller outside the tests: the states of the database that the program reaches
  are those of \<open>pg_step\<close> without that step.
\<close>

inductive program_db :: "pg_env \<Rightarrow> pgdb \<Rightarrow> bool" for P where
  start: "program_db P empty_db"
| bootstrap: "program_db P db \<Longrightarrow> program_db P (snd (Bootstrap P db))"
| chunk: "program_db P db \<Longrightarrow> program_db P (snd (UpsertChunk P c db))"
| has_point: "program_db P db \<Longrightarrow> program_db P (snd (HasQdrantPoint P p db))"
| search: "program_db P db \<Longrightarrow> program_db P (snd (FTSSearch P sort_chunks d q limit db))"
| list_tools: "program_db P db \<Longrightarrow> program_db P (snd (ListTools P sort_tools db))"
| get_tool: "program_db P db \<Longrightarrow> program_db P (snd (GetTool P name db))"
| create_tool: "program_db P db \<Longrightarrow> program_db P (snd (CreateTool P t db))"

definition no_documents :: "pgdb \<Rightarrow> bool" where
  "no_documents db \<longleftrightarrow> documents_table db = [] \<and> chunks_table db = []"

lemma no_documents_simps [simp]: "no_documents (db\<lparr>statements := n\<rparr>) = no_documents db"
  "no_documents (db\<lparr>relations := rs\<rparr>) = no_documents db" "no_documents (db\<lparr>tools_table := ts\<rparr>) = no_documents db"
  by (simp_all add: no_documents_def)

lemma no_documents_statement:
  assumes "no_documents db" and "\<And>r db1. body db = (r, db1) \<Longrightarrow> no_documents db1"
  shows "no_documents (snd (statement P needs body db))"
  using statement_keeps [of P needs body db _ _ no_documents] assms by (metis no_documents_simps(1) prod.collapse)

lemma no_documents_bootstrap: "no_documents db \<Longrightarrow> no_documents (snd (bootstrap_loop P ss db))"
proof (induction ss arbitrary: db)
  case (Cons s ss)
  have "no_documents (snd (statement P (ddl_needs s) (exec_ddl s) db))"
    using Cons.prems by (intro no_documents_statement) (cases s; auto split: if_splits)+
  with Cons.IH show ?case by (auto split: prod.splits sum.splits)
qed simp

lemma program_db_empty: "program_db P db \<Longrightarrow> no_documents db"
proof (induction rule: program_db.induct)
  case start
  show ?case by (simp add: no_documents_def empty_db_def)
next
  case (bootstrap db)
  then show ?case by (simp add: Bootstrap_def no_documents_bootstrap del: bootstrap_loop.simps)
next
  case (chunk db c)
  then show ?case
    by (auto simp: UpsertChunk_def no_documents_def insert_chunk_def Let_def
        intro!: no_documents_statement [unfolded no_documents_def] split: option.splits if_splits)
next
  case (create_tool db t)
  then show ?case
    by (auto simp: CreateTool_def Let_def insert_tool_def intro!: no_documents_statement split: option.splits if_splits)
qed (auto simp: HasQdrantPoint_def FTSSearch_def ListTools_def GetTool_def
  intro!: no_documents_statement split: option.splits if_splits)

section \<open>Properties\<close>

text \<open>
  C29. No document is ever indexed: chunk rows refer to rows of the document table, and nothing in the
  program fills that table. On every database the program can reach, every ingestion job ends with an
  error and leaves the chunk table empty.
\<close>

theorem no_document_is_ever_indexed:
  assumes "on_pg P E" and "program_db P db" and "processJob E job (x, db) = Some (err, (x', db'))"
  shows "err \<noteq> None \<and> chunks_table db' = []"
proof -
  have e: "documents_table db = []" "chunks_table db = []"
    using program_db_empty [OF assms(2)] by (simp_all add: no_documents_def)
  have "err \<noteq> None \<and> chunks_table db' = chunks_table db"
    by (rule first_chunk_refused [OF assms(1) _ _ assms(3)]) (simp_all add: e)
  then show ?thesis by (simp add: e)
qed

lemma no_document_is_ever_indexed_witness:
  "\<exists>err x' db'. processJob pg_worker tiny_job (([], []), snd (Bootstrap sample_pg empty_db)) = Some (Some err, (x', db'))
     \<and> chunks_table db' = []"
proof -
  let ?run = "processJob pg_worker tiny_job (([], []), snd (Bootstrap sample_pg empty_db))"
  have "(case ?run of Some _ \<Rightarrow> True | _ \<Rightarrow> False) = True" by code_simp
  then obtain err x' db' where r: "?run = Some (err, (x', db'))" by (auto split: option.splits)
  have "program_db sample_pg (snd (Bootstrap sample_pg empty_db))"
    by (rule program_db.bootstrap [OF program_db.start])
  from no_document_is_ever_indexed [OF pg_worker_on_pg this r] r show ?thesis by auto
qed

text \<open>
  An accepted document is queued under the id that the client is told, and asking for its status
  before anything else happens answers 200 with exactly that id and the status pending, unless Redis has
  already dropped the key.
\<close>

theorem accepted_document_is_pending:
  assumes "ingest_law E view" and "\<And>w. i_time_ok E (i_now E w)"
    and "EnqueueDocument E body w = (r, w1)" and "ReplyStatus r = 202"
    and "\<And>k w e. fst (kv_get (i_keys E) k w) \<noteq> Inl e"
  shows "\<exists>i job. ReplyBody r = JSONBody (document_response i ''pending'') \<and> JDocumentID job = i
    \<and> stream_of (view w1) ingestStream = stream_of (view w) ingestStream @ [[(''job'', marshal_job job)]]
    \<and> (ReplyStatus (fst (DocumentStatus E i w1)) = 404
       \<or> (\<exists>t. fst (DocumentStatus E i w1) = reply_json 200 (JObj [(''document_id'', JStr i), (''status'', JStr ''pending''), (''updated_at'', JStr t)])))"
proof -
  obtain req where req: "parse_document body = Inr req" "DReqDomain req \<noteq> []" "DReqContent req \<noteq> []"
    using assms(3,4) by (auto simp: EnqueueDocument_def reply_json_def split: sum.splits if_splits prod.splits)
  obtain i w2 where u: "i_uuid E w = (i, w2)" by fastforce
  define job where "job = \<lparr>JDocumentID = i, JDomain = DReqDomain req, JContent = DReqContent req,
      JTitle = DReqTitle req, JEnqueuedAt = i_now E w2, JRetryCount = 0\<rparr>"
  have q: "Enqueue E job w2 = (None, w1)" "r = reply_json 202 (document_response i ''pending'')"
    using assms(3,4) req u by (auto simp: EnqueueDocument_def job_def Let_def reply_json_def split: prod.splits option.splits)
  let ?s = "\<lambda>t. \<lparr>SDocumentID = i, SStatus = ''pending'', SErrorDetail = [], SUpdatedAt = t\<rparr>"
  obtain xr w3 where x: "i_xadd E ingestStream [(''job'', marshal_job job)] w2 = (Inr xr, w3)"
    and s: "kv_set (i_keys E) (statusKeyPrefix @ i) (marshal_status (?s (i_now E w3))) statusTTL w3 = (None, w1)"
    using q(1) by (auto simp: Enqueue_def job_def split: prod.splits sum.splits option.splits)
  have law: "keys_law (i_keys E) (kv \<circ> view)" "quiet (view w) (view (snd (i_uuid E w)))"
    using assms(1) by (simp_all add: ingest_law_def)
  obtain v where v: "quiet (view w2) v"
      "view w3 = v\<lparr>stream_of := (stream_of v)(ingestStream := stream_of v ingestStream @ [[(''job'', marshal_job job)]])\<rparr>"
    using assms(1) x unfolding ingest_law_def by blast
  have "stream_of (view w1) = stream_of (view w3)"
    using assms(1) s unfolding ingest_law_def Let_def by (metis snd_conv)
  moreover have "stream_of v = stream_of (view w)" using v(1) law(2) u by (simp add: quiet_def)
  ultimately have en: "stream_of (view w1) ingestStream = stream_of (view w) ingestStream @ [[(''job'', marshal_job job)]]"
    using v(2) by simp
  from keys_set [OF law(1) s] obtain v1 where "kv (view w1) = view_set (statusKeyPrefix @ i) (marshal_status (?s (i_now E w3))) v1" by auto
  then have val: "vals (kv (view w1)) (statusKeyPrefix @ i) = Some (marshal_status (?s (i_now E w3)))" by (simp add: view_set_def)
  obtain g w4 where g: "kv_get (i_keys E) (statusKeyPrefix @ i) w1 = (g, w4)" by fastforce
  then obtain y where y: "g = Inr y" using assms(5) by (metis fst_conv sum.exhaust)
  have "y = None \<or> y = Some (marshal_status (?s (i_now E w3)))"
    using keys_get [OF law(1) g] keys_get_value [OF law(1) g [unfolded y]] aged_vals val by (cases y) fastforce+
  then have "ReplyStatus (fst (DocumentStatus E i w1)) = 404
      \<or> fst (DocumentStatus E i w1) = reply_json 200 (json_of_status (?s (i_now E w3)))"
    using g y status_roundtrip [of "i_time_ok E" "?s (i_now E w3)"] assms(2)
    by (auto simp: DocumentStatus_def GetStatus_def reply_json_def)
  then show ?thesis using en q(2)
    by (intro exI [of _ i] exI [of _ job]) (auto simp: job_def reply_json_def json_of_status_def)
qed

lemma accepted_document_is_pending_witness:
  "\<exists>r w1. EnqueueDocument down_worker (json_print (JObj [(''domain'', JStr ''code''), (''content'', JStr ''hi'')])) idle_redis = (r, w1)
     \<and> ReplyBody r = JSONBody (document_response ''u'' ''pending'') \<and> length (sw_entries w1 ingestStream) = 1"
proof -
  let ?body = "json_print (JObj [(''domain'', JStr ''code''), (''content'', JStr ''hi'')])"
  obtain r w1 where e: "EnqueueDocument down_worker ?body idle_redis = (r, w1)" by fastforce
  have s: "ReplyStatus (fst (EnqueueDocument down_worker ?body idle_redis)) = 202"
    "ReplyBody (fst (EnqueueDocument down_worker ?body idle_redis)) = JSONBody (document_response ''u'' ''pending'')"
    by code_simp+
  have "\<exists>i job. ReplyBody r = JSONBody (document_response i ''pending'') \<and> JDocumentID job = i
    \<and> stream_of (world_view w1) ingestStream = stream_of (world_view idle_redis) ingestStream @ [[(''job'', marshal_job job)]]
    \<and> (ReplyStatus (fst (DocumentStatus down_worker i w1)) = 404
       \<or> (\<exists>t. fst (DocumentStatus down_worker i w1) = reply_json 200 (JObj [(''document_id'', JStr i), (''status'', JStr ''pending''), (''updated_at'', JStr t)])))"
    by (rule accepted_document_is_pending [OF down_worker_law _ e]) (use s e in \<open>simp_all add: down_worker_def memory_keys_def\<close>)
  with e s show ?thesis by (auto simp: world_view_def idle_redis_def)
qed

end
