(* ===== verification/Web_Tools.thy ===== *)
theory Web_Tools
  imports Ingest_Props Web_Augmenter Go_Regexp
begin

text \<open>
  The two tools of the web, \<open>internal/tools/web_search.go\<close> and \<open>web_fetch.go\<close>, and the searcher the
  orchestration gets, \<open>internal/orchestration/web_searcher_adapter.go\<close>.

  The environment, the HTTP client and the check of a URL are parameters. An answer of the client is
  the bytes of its body with the error that broke it off, if any; the tools do not look at its status.
  What a tool starts in the background is returned as a \<open>learn_task\<close>, which \<open>run_learn\<close> runs.
\<close>

record web_result =
  WTitle :: string
  WURL :: string
  WSnippet :: string

record 'w web_env =
  w_getenv :: "string \<Rightarrow> string"
  w_url_ok :: "string \<Rightarrow> bool"
  w_get :: "string \<Rightarrow> (string \<times> string) list \<Rightarrow> 'w \<Rightarrow> (string \<times> goerr option) result \<times> 'w"

datatype learn_task = Learn_Search string "web_result list" | Learn_Fetch string string

section \<open>Queries in URLs\<close>

definition url_plain :: "char \<Rightarrow> bool" where
  "url_plain c \<longleftrightarrow> is_upper c \<or> is_lower c \<or> is_digit c \<or> c \<in> set ''-_.~''"

definition upper_hex :: "nat \<Rightarrow> char" where
  "upper_hex n = upper_char (hex_char n)"

definition QueryEscape :: "string \<Rightarrow> string" where
  "QueryEscape s = concat (map (\<lambda>c.
     if url_plain c then [c] else if c = CHR '' '' then ''+''
     else [CHR ''%'', upper_hex (of_char c div 16), upper_hex (of_char c mod 16)]) s)"

section \<open>Search\<close>

text \<open>A body that breaks off is decoded as far as it goes.\<close>

definition decode_body :: "string \<Rightarrow> ((string \<times> json) list \<Rightarrow> 'a result) \<Rightarrow> string \<Rightarrow> 'a result" where
  "decode_body what f body =
     (case (case json_decode body of None \<Rightarrow> Inl ErrJSONSyntax | Some (v, _) \<Rightarrow> result_bind (as_obj v) f) of
        Inl e \<Rightarrow> Inl (what @ '' decode: '' @ e) | Inr x \<Rightarrow> Inr x)"

definition fetch_json ::
  "'w web_env \<Rightarrow> string \<Rightarrow> string \<Rightarrow> (string \<times> string) list \<Rightarrow> ((string \<times> json) list \<Rightarrow> 'a result) \<Rightarrow> 'w \<Rightarrow> 'a result \<times> 'w" where
  "fetch_json E what u headers f w =
     (case w_get E u headers w of
        (Inl e, w1) \<Rightarrow> (Inl (what @ '' request: '' @ e), w1)
      | (Inr (body, _), w1) \<Rightarrow> (decode_body what f body, w1))"

datatype ddg_topic = DDG_Topic (TopicText: string) (TopicURL: string) (Topics: "ddg_topic list")

text \<open>The value of a field from the decoded values of its occurrences; \<open>None\<close> is a null, which changes nothing.\<close>

fun latest :: "'a \<Rightarrow> 'a result option list \<Rightarrow> 'a result" where
  "latest a [] = Inr a"
| "latest a (None # xs) = latest a xs"
| "latest a (Some (Inl e) # xs) = Inl e"
| "latest a (Some (Inr b) # xs) = latest b xs"

fun as_topic :: "json \<Rightarrow> ddg_topic result" and as_topics :: "json \<Rightarrow> ddg_topic list result option" where
  "as_topic (JObj ms) =
     (let nested = map (\<lambda>(k, v). (k, as_topics v)) ms in
      result_bind (str_field ''text'' ms) (\<lambda>t. result_bind (str_field ''firsturl'' ms) (\<lambda>u.
        result_bind (latest [] (map snd (filter (\<lambda>m. to_lower (fst m) = ''topics'') nested))) (\<lambda>ts.
          Inr (DDG_Topic t u ts)))))"
| "as_topic JNull = Inr (DDG_Topic [] [] [])"
| "as_topic v = Inl ErrJSONType"
| "as_topics (JArr vs) = Some (traverse (\<lambda>r. r) (map as_topic vs))"
| "as_topics JNull = None"
| "as_topics v = Some (Inl ErrJSONType)"

record ddg_answer =
  AbstractText :: string
  AbstractURL :: string
  AbstractSource :: string
  RelatedTopics :: "ddg_topic list"

definition as_ddg_result :: "json \<Rightarrow> (string \<times> string) result" where
  "as_ddg_result v = result_bind (as_obj v) (\<lambda>ms. result_bind (str_field ''text'' ms) (\<lambda>t.
     result_bind (str_field ''firsturl'' ms) (\<lambda>u. Inr (t, u))))"

definition as_ddg_answer :: "(string \<times> json) list \<Rightarrow> ddg_answer result" where
  "as_ddg_answer ms =
     result_bind (str_field ''abstracttext'' ms) (\<lambda>t. result_bind (str_field ''abstracturl'' ms) (\<lambda>u.
       result_bind (str_field ''abstractsource'' ms) (\<lambda>s. result_bind (list_field as_ddg_result ''results'' ms) (\<lambda>_.
         result_bind (latest [] (map as_topics (jmatches ''relatedtopics'' ms))) (\<lambda>ts.
           Inr \<lparr>AbstractText = t, AbstractURL = u, AbstractSource = s, RelatedTopics = ts\<rparr>)))))"

text \<open>Headers of a category, which have no URL, are skipped; one level of groups is opened.\<close>

definition flat_topics :: "ddg_topic list \<Rightarrow> ddg_topic list" where
  "flat_topics ts = concat (map (\<lambda>t. (if TopicURL t \<noteq> [] then [t] else []) @ filter (\<lambda>s. TopicURL s \<noteq> []) (Topics t)) ts)"

definition topic_title :: "string \<Rightarrow> string" where
  "topic_title t = (case index_of t ('' '' @ em_dash @ '' '') of Some i \<Rightarrow> if 0 < i then take i t else t | None \<Rightarrow> t)"

fun add_topics :: "int \<Rightarrow> web_result list \<Rightarrow> ddg_topic list \<Rightarrow> web_result list" where
  "add_topics limit rs [] = rs"
| "add_topics limit rs (t # ts) =
     (if limit \<le> int (length rs) then rs
      else add_topics limit (rs @ [\<lparr>WTitle = topic_title (TopicText t), WURL = TopicURL t, WSnippet = TopicText t\<rparr>]) ts)"

definition ddg_results :: "int \<Rightarrow> ddg_answer \<Rightarrow> web_result list" where
  "ddg_results limit r =
     add_topics limit
       (if AbstractText r \<noteq> [] \<and> 0 < limit
        then [\<lparr>WTitle = AbstractSource r, WURL = AbstractURL r, WSnippet = AbstractText r\<rparr>] else [])
       (flat_topics (RelatedTopics r))"

definition searchDDG :: "'w web_env \<Rightarrow> string \<Rightarrow> int \<Rightarrow> ('w, web_result list result) prog" where
  "searchDDG E query limit = grun (\<lambda>w.
     let (r, w1) = fetch_json E ''ddg''
           (''https://api.duckduckgo.com/?q='' @ QueryEscape query @ ''&format=json&no_html=1&skip_disambig=1&t=caw-bot'')
           [(''User-Agent'', ''CAW-bot/1.0'')] as_ddg_answer w
     in (case r of Inl e \<Rightarrow> Inl e | Inr a \<Rightarrow> Inr (ddg_results limit a), w1))"

text \<open>A result of the other providers, whose snippet is in the field \<open>snippet\<close>.\<close>

definition as_web_result :: "string \<Rightarrow> json \<Rightarrow> web_result result" where
  "as_web_result snippet v =
     result_bind (as_obj v) (\<lambda>ms. result_bind (str_field ''title'' ms) (\<lambda>t. result_bind (str_field ''url'' ms) (\<lambda>u.
       result_bind (str_field snippet ms) (\<lambda>s. Inr \<lparr>WTitle = t, WURL = u, WSnippet = s\<rparr>))))"

definition first_results :: "int \<Rightarrow> web_result list result \<Rightarrow> web_result list result" where
  "first_results limit r = (case r of Inl e \<Rightarrow> Inl e | Inr rs \<Rightarrow> Inr (take (nat limit) rs))"

text \<open>The base URL comes from the environment; a malformed one leaves no request, which the client dereferences.\<close>

definition searxng_url :: "'w web_env \<Rightarrow> string \<Rightarrow> string" where
  "searxng_url E query =
     (if w_getenv E ''SEARXNG_URL'' = [] then ''http://localhost:8888'' else w_getenv E ''SEARXNG_URL'')
     @ ''/search?q='' @ QueryEscape query @ ''&format=json''"

definition searchSearXNG :: "'w web_env \<Rightarrow> string \<Rightarrow> int \<Rightarrow> ('w, web_result list result) prog" where
  "searchSearXNG E query limit =
     (if \<not> w_url_ok E (searxng_url E query) then gpanic ''runtime error: invalid memory address or nil pointer dereference''
      else grun (\<lambda>w.
        let (r, w1) = fetch_json E ''searxng'' (searxng_url E query) [] (list_field (as_web_result ''content'') ''results'') w
        in (first_results limit r, w1)))"

definition brave_results :: "(string \<times> json) list \<Rightarrow> web_result list result" where
  "brave_results ms = result_bind (obj_field ''web'' ms) (list_field (as_web_result ''description'') ''results'')"

definition searchBrave :: "'w web_env \<Rightarrow> string \<Rightarrow> int \<Rightarrow> ('w, web_result list result) prog" where
  "searchBrave E query limit =
     (let apiKey = w_getenv E ''BRAVE_SEARCH_API_KEY''
      in if apiKey = [] then gret (Inl ''BRAVE_SEARCH_API_KEY not set'')
         else grun (\<lambda>w.
           let (r, w1) = fetch_json E ''brave''
                 (''https://api.search.brave.com/res/v1/web/search?q='' @ QueryEscape query @ ''&count='' @ dec_of_int limit)
                 [(''Accept'', ''application/json''), (''X-Subscription-Token'', apiKey)] brave_results w
           in (first_results limit r, w1)))"

definition search_limit :: "int \<Rightarrow> int" where
  "search_limit maxResults = (if maxResults \<le> 0 then 5 else maxResults)"

definition web_search ::
  "'w web_env \<Rightarrow> bool \<Rightarrow> string \<Rightarrow> int \<Rightarrow> ('w, web_result list result \<times> learn_task option) prog" where
  "web_search E learns query maxResults =
     (let limit = search_limit maxResults; provider = w_getenv E ''SEARCH_PROVIDER'' in
      gbind (if provider = ''brave'' then searchBrave E query limit
             else if provider = ''searxng'' then searchSearXNG E query limit
             else searchDDG E query limit) (\<lambda>r. case r of
        Inl e \<Rightarrow> gret (Inl e, None)
      | Inr rs \<Rightarrow> gret (Inr rs, if learns \<and> rs \<noteq> [] then Some (Learn_Search query rs) else None)))"

text \<open>The searcher of the orchestration; what the search learns in the background is left out of its answer.\<close>

definition toolsWebSearchAdapter :: "'w web_env \<Rightarrow> bool \<Rightarrow> 'w web_searcher" where
  "toolsWebSearchAdapter E learns query maxResults =
     gbind (web_search E learns query maxResults) (\<lambda>(r, _). gret (case r of
        Inl e \<Rightarrow> Inl e
      | Inr rs \<Rightarrow> Inr (map (\<lambda>r. \<lparr>Title = WTitle r, URL = WURL r, Snippet = WSnippet r\<rparr>) rs)))"

section \<open>Fetching a page\<close>

definition rnot :: "string \<Rightarrow> re" where
  "rnot cs = RSet (\<lambda>c. c \<notin> set cs)"

definition script_or_style :: re where
  "script_or_style = RAlt (rlit_ci ''script'') (rlit_ci ''style'')"

definition scriptStyleRe :: re where
  "scriptStyleRe = rseq [rlit ''<'', RCap 1 script_or_style, RStar True (rnot ''>''), rlit ''>'',
     RStar False (RSet rany), rlit ''</'', RCap 2 script_or_style, rlit ''>'']"

definition tagRe :: "string \<Rightarrow> re" where
  "tagRe tag = rseq [rlit ''<'', ropt (rlit ''/''), rlit_ci tag, RStar True (rnot ''>''), rlit ''>'']"

definition allTagsRe :: re where
  "allTagsRe = rseq [rlit ''<'', rplus (rnot ''>''), rlit ''>'']"

definition blank :: "char \<Rightarrow> bool" where
  "blank c \<longleftrightarrow> c = CHR '' '' \<or> c = CHR 0x09"

definition multiSpaceRe :: re where
  "multiSpaceRe = rseq [RSet blank, RSet blank, RStar True (RSet blank)]"

definition multiNewline :: re where
  "multiNewline = rseq [rlit ''\<newline>\<newline>\<newline>'', RStar True (rlit ''\<newline>'')]"

definition replaced :: "re \<Rightarrow> string \<Rightarrow> string \<Rightarrow> string" where
  "replaced r new s = re_replace_all (length s) r new [] s"

text \<open>\<open>strings.NewReplacer\<close>: at each position the first pair whose old text begins there.\<close>

definition first_prefix :: "(string \<times> string) list \<Rightarrow> string \<Rightarrow> (string \<times> string) option" where
  "first_prefix pairs s = find (\<lambda>p. has_prefix s (fst p)) pairs"

function replacer :: "(string \<times> string) list \<Rightarrow> string \<Rightarrow> string" where
  "replacer pairs s =
     (case s of [] \<Rightarrow> []
      | c # r \<Rightarrow>
        (case first_prefix pairs s of
           None \<Rightarrow> c # replacer pairs r
         | Some (old, new) \<Rightarrow> new @ replacer pairs (drop (length old - 1) r)))"
  by pat_completeness auto
termination
  by (relation "measure (\<lambda>(_, s). length s)") auto

declare replacer.simps [simp del]

definition entities :: "(string \<times> string) list" where
  "entities = [(''&amp;'', ''&''), (''&lt;'', ''<''), (''&gt;'', ''>''), (''&quot;'', [CHR 0x22]),
     (''&#39;'', [CHR 0x27]), (''&nbsp;'', '' '')]"

definition block_tags :: "string list" where
  "block_tags = [''p'', ''div'', ''br'', ''h1'', ''h2'', ''h3'', ''h4'', ''li'', ''tr'']"

definition extractText :: "string \<Rightarrow> string" where
  "extractText html =
     (let t1 = replaced scriptStyleRe [] html;
          t2 = fold (\<lambda>tag t. replaced (tagRe tag) ''\<newline>'' t) block_tags t1;
          t3 = replaced allTagsRe [] t2;
          t4 = replacer entities t3;
          t5 = replaced multiSpaceRe '' '' t4;
          t6 = replaced multiNewline ''\<newline>\<newline>'' t5
      in join ''\<newline>'' (filter (\<lambda>l. l \<noteq> []) (map trim_space (split_on (CHR 0x0A) t6))))"

definition fetch_limit :: "int \<Rightarrow> int" where
  "fetch_limit maxBytes = (if maxBytes \<le> 0 then 32 * 1024 else maxBytes)"

text \<open>The body is read up to the limit; an error before the limit is one of the read.\<close>

definition web_fetch ::
  "'w web_env \<Rightarrow> bool \<Rightarrow> string \<Rightarrow> int \<Rightarrow> 'w \<Rightarrow> (string result \<times> learn_task option) \<times> 'w" where
  "web_fetch E learns rawURL maxBytes w =
     (if \<not> w_url_ok E rawURL then ((Inl ''web_fetch: build request: invalid URL'', None), w)
      else case w_get E rawURL [(''User-Agent'', ''Mozilla/5.0 (compatible; CAW-bot/1.0)''), (''Accept'', ''text/html,text/plain'')] w of
        (Inl e, w1) \<Rightarrow> ((Inl (''web_fetch: GET '' @ rawURL @ '': '' @ e), None), w1)
      | (Inr (body, broken), w1) \<Rightarrow>
          (let n = nat (fetch_limit maxBytes)
           in case (if length body < n then broken else None) of
                Some e \<Rightarrow> ((Inl (''web_fetch: read body: '' @ e), None), w1)
              | None \<Rightarrow>
                  (let text = extractText (take n body)
                   in ((Inr text, if learns \<and> text \<noteq> [] then Some (Learn_Fetch rawURL text) else None), w1))))"

section \<open>Learning\<close>

definition search_document :: "string \<Rightarrow> web_result list \<Rightarrow> string" where
  "search_document query rs = ''Web search query: '' @ query @ ''\<newline>\<newline>''
     @ concat (map (\<lambda>r. ''## '' @ WTitle r @ ''\<newline>Source: '' @ WURL r @ ''\<newline>'' @ WSnippet r @ ''\<newline>\<newline>'') rs)"

definition learn_job :: "learn_task \<Rightarrow> string \<Rightarrow> string \<Rightarrow> ingest_job" where
  "learn_job t docID now = (case t of
     Learn_Search query rs \<Rightarrow>
       \<lparr>JDocumentID = docID, JDomain = ''web-search'', JContent = search_document query rs,
        JTitle = ''Web search: '' @ query, JEnqueuedAt = now, JRetryCount = 0\<rparr>
   | Learn_Fetch rawURL text \<Rightarrow>
       \<lparr>JDocumentID = docID, JDomain = ''web-fetch'', JContent = text, JTitle = ''Fetched: '' @ rawURL,
        JEnqueuedAt = now, JRetryCount = 0\<rparr>)"

definition learn :: "'w ingest_env \<Rightarrow> learn_task \<Rightarrow> 'w \<Rightarrow> 'w" where
  "learn E t w = (let (docID, w1) = i_uuid E w in snd (Enqueue E (learn_job t docID (i_now E w1)) w1))"

end
