(* ===== verification/Web_Props.thy ===== *)
theory Web_Props
  imports Web_Tools
begin

text \<open>
  What the web tools promise: the number and order of search results, the words of a page without
  markup, and what becomes of the documents they learn.
\<close>

section \<open>Expressions that cannot match, and those that match white space\<close>

lemma re_find_from_none:
  "(\<And>pre u. u \<noteq> [] \<Longrightarrow> set u \<subseteq> set s \<Longrightarrow> re_match r \<lparr>passed = pre, ahead = u, groups = []\<rparr> = []) \<Longrightarrow>
   (\<And>pre. re_match r \<lparr>passed = pre, ahead = [], groups = []\<rparr> = []) \<Longrightarrow> re_find_from r pre s = None"
proof (induction s arbitrary: pre)
  case (Cons c s)
  have "re_match r \<lparr>passed = pre, ahead = c # s, groups = []\<rparr> = []" using Cons.prems(1) [of "c # s"] by simp
  moreover have "re_find_from r (c # pre) s = None" using Cons by (meson set_subset_Cons subset_trans)
  ultimately show ?case by simp
qed simp

lemma replaced_none: "re_find_from r [] s = None \<Longrightarrow> replaced r new s = s"
  by (cases "length s") (simp_all add: replaced_def)

lemma replaced_absent:
  assumes "c \<notin> set s"
  shows "replaced (RSeq (rlit [c]) r) new s = s"
proof (rule replaced_none, rule re_find_from_none)
  fix pre u assume "set u \<subseteq> set s"
  with assms show "re_match (RSeq (rlit [c]) r) \<lparr>passed = pre, ahead = u, groups = []\<rparr> = []"
    by (cases u) (auto simp: re_match_rlit)
qed simp

text \<open>All that an expression matches consists of characters with a property.\<close>

definition over :: "(char \<Rightarrow> bool) \<Rightarrow> re \<Rightarrow> bool" where
  "over p r \<longleftrightarrow> (\<forall>st st'. st' \<in> set (re_match r st) \<longrightarrow> (\<exists>w. (\<forall>c \<in> set w. p c) \<and> ahead st = w @ ahead st'))"

lemma overD: "over p r \<Longrightarrow> st' \<in> set (re_match r st) \<Longrightarrow> \<exists>w. (\<forall>c \<in> set w. p c) \<and> ahead st = w @ ahead st'"
  unfolding over_def by blast

lemma over_REps [simp]: "over p REps"
  by (auto simp: over_def intro: exI [of _ "[]"])

lemma over_RSet: "(\<And>c. q c \<Longrightarrow> p c) \<Longrightarrow> over p (RSet q)"
  unfolding over_def by (auto split: list.splits if_splits) (metis append_Cons append_Nil empty_iff empty_set set_ConsD)

lemma over_RSeq: "over p r1 \<Longrightarrow> over p r2 \<Longrightarrow> over p (RSeq r1 r2)"
  unfolding over_def by (auto, metis Un_iff append.assoc set_append)

lemma over_RStar:
  assumes "over p r"
  shows "over p (RStar g r)"
proof -
  have "st' \<in> set (star_iter n g (re_match r) st) \<Longrightarrow> \<exists>w. (\<forall>c \<in> set w. p c) \<and> ahead st = w @ ahead st'" for n st st'
  proof (induction n arbitrary: st)
    case (Suc n)
    then consider "st' = st" | a where "a \<in> set (re_match r st)" "st' \<in> set (star_iter n g (re_match r) a)"
      by (auto simp: Let_def split: if_splits)
    then show ?case
    proof cases
      case 2
      with overD [OF assms 2(1)] Suc.IH [OF 2(2)] show ?thesis by (metis Un_iff append.assoc set_append)
    qed (auto intro: exI [of _ "[]"])
  qed (auto intro: exI [of _ "[]"])
  then show ?thesis unfolding over_def by simp
qed

lemma over_rlit: "(\<forall>c \<in> set l. p c) \<Longrightarrow> over p (rlit l)"
  by (induction l) (auto intro!: over_RSeq over_RSet)

definition spaces_only :: "re \<Rightarrow> bool" where
  "spaces_only r \<longleftrightarrow> (\<forall>st st'. st' \<in> set (re_match r st) \<longrightarrow>
     (\<exists>w. w \<noteq> [] \<and> (\<forall>c \<in> set w. is_space c) \<and> ahead st = w @ ahead st'))"

lemma spaces_only_set:
  assumes "\<And>c. q c \<Longrightarrow> is_space c" and "over is_space r"
  shows "spaces_only (RSeq (RSet q) r)"
  unfolding spaces_only_def
proof (intro allI impI)
  fix st st' assume "st' \<in> set (re_match (RSeq (RSet q) r) st)"
  then obtain c s where c: "ahead st = c # s" "q c" "st' \<in> set (re_match r (st\<lparr>passed := c # passed st, ahead := s\<rparr>))"
    by (cases "ahead st") (auto split: if_splits)
  with overD [OF assms(2) c(3)] obtain w where "\<forall>c \<in> set w. is_space c" "s = w @ ahead st'" by auto
  with c assms(1) show "\<exists>w. w \<noteq> [] \<and> (\<forall>c \<in> set w. is_space c) \<and> ahead st = w @ ahead st'"
    by (intro exI [of _ "c # w"]) simp
qed

lemma fields_replace_spaces:
  assumes "spaces_only r" and "new \<noteq> []" and "\<forall>c \<in> set new. is_space c"
  shows "Go_Strings.fields (re_replace_all n r new pre s) = Go_Strings.fields s"
proof (induction n arbitrary: pre s)
  case (Suc n)
  show ?case
  proof (cases "re_find_from r pre s")
    case (Some p)
    obtain start st where p: "p = (start, st)" by fastforce
    with re_find_from_split [of r pre s] Some obtain u w where
      u: "s = u @ w @ ahead st" "start = rev u @ pre" and m: "st \<in> set (re_match r \<lparr>passed = start, ahead = w @ ahead st, groups = []\<rparr>)"
      by blast
    from assms(1) m have "w \<noteq> []" "\<forall>c \<in> set w. is_space c"
      unfolding spaces_only_def by fastforce+
    then have "Go_Strings.fields s = Go_Strings.fields u @ Go_Strings.fields (ahead st)" using u(1) fields_gap by metis
    then show ?thesis using Some p u Suc.IH assms(2,3) by (simp add: fields_gap)
  qed simp
qed simp

section \<open>A page without markup\<close>

lemma spaces_multi [simp]: "spaces_only multiSpaceRe" "spaces_only multiNewline"
proof -
  have b: "blank c \<Longrightarrow> is_space c" for c by (auto simp: blank_def is_space_def)
  show "spaces_only multiSpaceRe"
    unfolding multiSpaceRe_def rseq.simps
    by (intro spaces_only_set over_RSeq over_RSet over_RStar over_REps) (simp_all add: b)
  have nl: "rlit ''\<newline>\<newline>\<newline>'' = RSeq (RSet (\<lambda>x. x = CHR 0x0A)) (rlit ''\<newline>\<newline>'')" by simp
  have o: "over is_space (RSeq (rlit ''\<newline>\<newline>'') (RSeq (RStar True (rlit ''\<newline>'')) REps))"
    by (intro over_RSeq over_RStar over_rlit over_REps) simp_all
  show "spaces_only multiNewline"
    unfolding spaces_only_def
  proof (intro allI impI)
    fix st st' assume "st' \<in> set (re_match multiNewline st)"
    then have "st' \<in> set (re_match (RSeq (RSet (\<lambda>x. x = CHR 0x0A)) (RSeq (rlit ''\<newline>\<newline>'') (RSeq (RStar True (rlit ''\<newline>'')) REps))) st)"
      unfolding multiNewline_def rseq.simps nl re_match.simps(3) by (auto simp del: rlit.simps)
    with spaces_only_set [OF _ o, of "\<lambda>x. x = CHR 0x0A"]
    show "\<exists>w. w \<noteq> [] \<and> (\<forall>c \<in> set w. is_space c) \<and> ahead st = w @ ahead st'"
      unfolding spaces_only_def by (metis is_space_newline)
  qed
qed

lemma replacer_absent: "CHR ''&'' \<notin> set s \<Longrightarrow> replacer entities s = s"
proof (induction entities s rule: replacer.induct)
  case (1 s)
  show ?case
  proof (cases s)
    case (Cons c r)
    with 1 have "first_prefix entities s = None" by (auto simp: first_prefix_def entities_def)
    with 1 Cons show ?thesis by (simp add: replacer.simps [of _ "c # r"])
  qed (simp add: replacer.simps [of _ "[]"])
qed

lemma no_tags:
  assumes "CHR ''<'' \<notin> set s"
  shows "replaced scriptStyleRe new s = s" and "replaced (tagRe tag) new s = s" and "replaced allTagsRe new s = s"
  using replaced_absent [OF assms] by (simp_all only: scriptStyleRe_def tagRe_def allTagsRe_def rseq.simps)

lemma fold_no_tags: "CHR ''<'' \<notin> set s \<Longrightarrow> fold (\<lambda>tag t. replaced (tagRe tag) new t) tags s = s"
  by (induction tags) (simp_all add: no_tags)



section \<open>Search results\<close>

definition topic_result :: "ddg_topic \<Rightarrow> web_result" where
  "topic_result t = \<lparr>WTitle = topic_title (TopicText t), WURL = TopicURL t, WSnippet = TopicText t\<rparr>"

text \<open>All results of an answer, in its order: the abstract, then the topics that have a URL.\<close>

definition ddg_all :: "ddg_answer \<Rightarrow> web_result list" where
  "ddg_all a = (if AbstractText a = [] then []
     else [\<lparr>WTitle = AbstractSource a, WURL = AbstractURL a, WSnippet = AbstractText a\<rparr>])
     @ map topic_result (flat_topics (RelatedTopics a))"

lemma add_topics_take:
  "int (length rs) \<le> limit \<Longrightarrow> add_topics limit rs ts = take (nat limit) (rs @ map topic_result ts)"
proof (induction ts arbitrary: rs)
  case (Cons t ts)
  show ?case
  proof (cases "int (length rs) = limit")
    case False
    with Cons.prems Cons.IH [of "rs @ [topic_result t]"] show ?thesis
      by (simp add: topic_result_def take_Cons' nat_eq_iff)
  qed (use Cons.prems in auto)
qed auto

lemma ddg_results_take: "0 < limit \<Longrightarrow> ddg_results limit a = take (nat limit) (ddg_all a)"
  by (auto simp: ddg_results_def ddg_all_def add_topics_take)

text \<open>The answer of a provider that was asked, as the results it holds.\<close>

definition provider_results :: "string \<Rightarrow> string \<Rightarrow> web_result list result" where
  "provider_results provider body =
     (if provider = ''brave'' then decode_body ''brave'' brave_results body
      else if provider = ''searxng''
      then decode_body ''searxng'' (list_field (as_web_result ''content'') ''results'') body
      else case decode_body ''ddg'' as_ddg_answer body of Inl e \<Rightarrow> Inl e | Inr a \<Rightarrow> Inr (ddg_all a))"

lemma search_limit_pos [simp]: "0 < search_limit n"
  by (simp add: search_limit_def)

text \<open>\<open>x\<close> is what a search over \<open>parse\<close> may return: an error, or the first results of one answer.\<close>

definition first_found ::
  "'w web_env \<Rightarrow> (string \<Rightarrow> web_result list result) \<Rightarrow> int \<Rightarrow> 'w \<Rightarrow> web_result list result \<times> 'w \<Rightarrow> bool" where
  "first_found E parse limit w x \<longleftrightarrow> (case x of (Inl e, w1) \<Rightarrow> True
     | (Inr rs, w1) \<Rightarrow> \<exists>u hs body broken found. w_get E u hs w = (Inr (body, broken), w1)
          \<and> parse body = Inr found \<and> rs = take (nat limit) found)"

lemma first_found_fetch:
  assumes "fetch_json E what u hs f w = (r, w1)"
    and "\<And>body a. decode_body what f body = Inr a \<Longrightarrow> parse body = Inr (all_of a)"
  shows "first_found E parse limit w (case r of Inl e \<Rightarrow> Inl e | Inr a \<Rightarrow> Inr (take (nat limit) (all_of a)), w1)"
proof (cases r)
  case (Inr a)
  with assms(1) obtain body broken where "w_get E u hs w = (Inr (body, broken), w1)" "decode_body what f body = Inr a"
    by (auto simp: fetch_json_def split: prod.splits sum.splits)
  then show ?thesis unfolding first_found_def Inr using assms(2) by fastforce
qed (simp add: first_found_def)

lemma search_found:
  assumes "\<And>body a. decode_body what f body = Inr a \<Longrightarrow> parse body = Inr a"
  shows "first_found E parse limit w (let (r, w1) = fetch_json E what u hs f w in (first_results limit r, w1))"
proof -
  obtain r w1 where "fetch_json E what u hs f w = (r, w1)" by fastforce
  with first_found_fetch [OF this, of parse "\<lambda>a. a"] assms show ?thesis by (simp add: first_results_def)
qed

lemma brave_found:
  "first_found E (provider_results ''brave'') limit w
     (let (r, w1) = fetch_json E ''brave'' u hs brave_results w in (first_results limit r, w1))"
  by (rule search_found) (simp add: provider_results_def)

lemma searxng_found:
  "first_found E (provider_results ''searxng'') limit w
     (let (r, w1) = fetch_json E ''searxng'' u hs (list_field (as_web_result ''content'') ''results'') w in (first_results limit r, w1))"
  by (rule search_found) (simp add: provider_results_def)

lemma ddg_found:
  assumes "0 < limit" and "p \<noteq> ''brave''" and "p \<noteq> ''searxng''"
  shows "first_found E (provider_results p) limit w
     (let (r, w1) = fetch_json E ''ddg'' u hs as_ddg_answer w
      in (case r of Inl e \<Rightarrow> Inl e | Inr a \<Rightarrow> Inr (ddg_results limit a), w1))"
proof -
  obtain r w1 where f: "fetch_json E ''ddg'' u hs as_ddg_answer w = (r, w1)" by fastforce
  have "first_found E (provider_results p) limit w
      (case r of Inl e \<Rightarrow> Inl e | Inr a \<Rightarrow> Inr (take (nat limit) (ddg_all a)), w1)"
    by (rule first_found_fetch [OF f]) (simp add: provider_results_def assms(2,3))
  then show ?thesis by (cases r) (simp_all add: f ddg_results_take [OF assms(1)])
qed

text \<open>
  C31. A web search that answers gives the first results of what the provider sent, in the provider's
  order and at most as many as asked for (five by default), from one request; exactly when there are
  results and learning is on, they are handed to the ingestion. It panics only for a SearXNG base URL
  that is malformed.
\<close>

theorem search_gives_the_first_results:
  "case web_search E learns query n w of
     (Panic _, w1) \<Rightarrow> w_getenv E ''SEARCH_PROVIDER'' = ''searxng'' \<and> \<not> w_url_ok E (searxng_url E query)
   | (Ret (Inl e, task), w1) \<Rightarrow> task = None
   | (Ret (Inr rs, task), w1) \<Rightarrow>
       (\<exists>u hs body broken found. w_get E u hs w = (Inr (body, broken), w1)
          \<and> provider_results (w_getenv E ''SEARCH_PROVIDER'') body = Inr found \<and> rs = take (nat (search_limit n)) found)
       \<and> task = (if learns \<and> rs \<noteq> [] then Some (Learn_Search query rs) else None)"
proof -
  let ?p = "w_getenv E ''SEARCH_PROVIDER''" and ?k = "search_limit n"
  define m where "m = (if ?p = ''brave'' then searchBrave E query ?k
     else if ?p = ''searxng'' then searchSearXNG E query ?k else searchDDG E query ?k)"
  have "case m w of (Panic _, w1) \<Rightarrow> ?p = ''searxng'' \<and> \<not> w_url_ok E (searxng_url E query)
      | (Ret r, w1) \<Rightarrow> first_found E (provider_results ?p) ?k w (r, w1)"
    using brave_found searxng_found ddg_found [OF search_limit_pos]
    by (auto simp: m_def searchBrave_def searchSearXNG_def searchDDG_def Let_def first_found_def [of _ _ _ _ "(Inl _, _)"]
      split del: sum.split)
  then show ?thesis
    unfolding web_search_def m_def [symmetric] Let_def gbind_def
    by (auto simp: first_found_def split: prod.splits go.splits sum.splits)
qed

section \<open>What is learned\<close>

lemma learn_job_domain [simp]: "JDomain (learn_job t i now) = (case t of Learn_Search _ _ \<Rightarrow> ''web-search'' | Learn_Fetch _ _ \<Rightarrow> ''web-fetch'')"
  by (cases t) (simp_all add: learn_job_def)

lemma learn_job_fields [simp]:
  "JDocumentID (learn_job t i now) = i" "JRetryCount (learn_job t i now) = 0" "JEnqueuedAt (learn_job t i now) = now"
  by (cases t; simp add: learn_job_def)+

lemma Enqueue_stream:
  assumes "ingest_law E view" and "redis_up E"
  shows "stream_of (view (snd (Enqueue E job w))) = (stream_of (view w))(ingestStream :=
    stream_of (view w) ingestStream @ [[(''job'', marshal_job job)]])"
proof -
  obtain r w1 where x: "i_xadd E ingestStream [(''job'', marshal_job job)] w = (r, w1)" by fastforce
  with assms(2) obtain a where r: "r = Inr a" unfolding redis_up_def by (metis fst_conv sum.exhaust)
  from assms(1) x r obtain v where v: "quiet (view w) v"
      "view w1 = v\<lparr>stream_of := (stream_of v)(ingestStream := stream_of v ingestStream @ [[(''job'', marshal_job job)]])\<rparr>"
    unfolding ingest_law_def by blast
  have "stream_of (view (snd (kv_set (i_keys E) k x t w1))) = stream_of (view w1)" for k x t
    using assms(1) by (simp add: ingest_law_def Let_def)
  then have "stream_of (view (snd (Enqueue E job w))) = stream_of (view w1)"
    using x r by (simp add: Enqueue_def split: prod.splits option.splits) (metis snd_conv)
  with v show ?thesis by (simp add: quiet_def)
qed

lemma failed_job_acks:
  fixes E :: "'a ingest_env"
  assumes "ingest_law E view" and "redis_up E" and "processJob E job w = Some (Some e, w1)"
  shows "acks (view (snd (sendToDLQ E job e w1))) = acks (view w)"
proof -
  have x: "acks (view (snd (i_xadd E s v w'))) = acks (view w')" for s v w'
  proof -
    obtain r w2 where i: "i_xadd E s v w' = (r, w2)" by fastforce
    from ingest_law_xadd [OF assms(1) i] obtain u where u: "quiet (view w') u"
      and w2: "view w2 = u\<lparr>stream_of := (stream_of u)(s := stream_of u s @ [v])\<rparr> \<or> (\<exists>x. r = Inl x) \<and> view w2 = u" by (elim exE conjE)
    from w2 have "acks (view w2) = acks u" by (elim disjE conjE) simp_all
    with u i show ?thesis by (simp add: quiet_def)
  qed
  have "acks (view (snd (updateStatus E d st err w'))) = acks (view w')" for d st err w'
    using assms(1) by (simp add: updateStatus_def ingest_law_def Let_def)
  moreover have "snd (case p of (Inl e, w1) \<Rightarrow> (Some (f e), w1) | (Inr _, w1) \<Rightarrow> (None, w1)) = snd p" for p :: "string result \<times> 'a" and f
    by (simp split: prod.splits sum.splits)
  ultimately have "acks (view (snd (sendToDLQ E job e w1))) = acks (view w1)"
    using x by (simp add: sendToDLQ_def Let_def)
  then show ?thesis using failed_job_view [OF assms] by simp
qed

text \<open>
  What the web tools learn is never indexed. The tool puts one job into the stream, which the worker
  reads back unchanged; but its domain, web-search or web-fetch, is none of those the vector store client
  accepts, so processing it never succeeds, and its message is never acknowledged.
\<close>

theorem learned_pages_are_never_indexed:
  assumes "ingest_law E view" and "redis_up E" and "\<And>w. i_time_ok E (i_now E w)" and "i_qdrant E = q_Upsert C base"
  shows "\<exists>i now. stream_of (view (learn E t w)) ingestStream
        = stream_of (view w) ingestStream @ [[(''job'', marshal_job (learn_job t i now))]]
    \<and> unmarshal_job (i_time_ok E) (marshal_job (learn_job t i now)) = Inr (learn_job t i now)
    \<and> (\<forall>w1 w2. processJob E (learn_job t i now) w1 \<noteq> Some (None, w2))
    \<and> (\<forall>m w1 w2. handle_message E \<lparr>msg_id = m, msg_values = [(''job'', marshal_job (learn_job t i now))]\<rparr> w1 = Some w2
         \<longrightarrow> acks (view w2) = acks (view w1))"
proof -
  obtain i wi where i: "i_uuid E w = (i, wi)" by fastforce
  let ?job = "learn_job t i (i_now E wi)"
  have u: "stream_of (view wi) = stream_of (view w)"
    using assms(1) i unfolding ingest_law_def quiet_def by (metis snd_conv)
  have r: "unmarshal_job (i_time_ok E) (marshal_job ?job) = Inr ?job"
    by (rule job_roundtrip) (simp_all add: assms(3))
  have n: "processJob E ?job w1 \<noteq> Some (None, w')" for w1 w'
    by (rule unknown_domain_fails) (cases t; simp add: assms(4) q_Upsert_def validateDomain_def validDomains_def)
  have a: "acks (view w3) = acks (view w1)"
    if h: "handle_message E \<lparr>msg_id = m, msg_values = [(''job'', marshal_job ?job)]\<rparr> w1 = Some w3" for m w1 w3
  proof -
    obtain e w' where p: "processJob E ?job w1 = Some (Some e, w')"
    proof (cases "processJob E ?job w1")
      case None
      with h r show ?thesis by (simp add: handle_message_def)
    next
      case (Some p)
      with n that show ?thesis by (cases p; cases "fst p") auto
    qed
    then have "handle_message E \<lparr>msg_id = m, msg_values = [(''job'', marshal_job ?job)]\<rparr> w1
        = Some (snd (sendToDLQ E ?job e w'))" by (simp add: handle_message_def r)
    with failed_job_acks [OF assms(1,2) p] h show ?thesis by simp
  qed
  from Enqueue_stream [OF assms(1,2), of ?job wi] u i r n a show ?thesis
    by (intro exI [of _ i] exI [of _ "i_now E wi"]) (simp add: learn_def)
qed

definition offline :: "stream_world adapter_env" where
  "offline = \<lparr>http_do = (\<lambda>r w. (Inl ''connection refused'', w)), clock = (\<lambda>w. 0), uuid = (\<lambda>w. (''u'', w))\<rparr>"

definition learning_worker :: "stream_world ingest_env" where
  "learning_worker = down_worker\<lparr>i_qdrant := q_Upsert offline ''http://qdrant''\<rparr>"

lemma learning_worker_law: "ingest_law learning_worker world_view"
proof -
  have "snd (q_Upsert offline base d ps w) = w" for base d ps w
    by (simp add: q_Upsert_def qdrant_do_def offline_def split: option.split)
  with down_worker_law show ?thesis
    unfolding ingest_law_def learning_worker_def by (simp add: quiet_refl)
qed

lemma sw_entries_idle: "sw_entries idle_redis s = []"
  by (simp add: idle_redis_def)

lemma learned_pages_are_never_indexed_witness:
  "\<exists>job. sw_entries (learn learning_worker (Learn_Fetch ''http://a'' ''hi'') idle_redis) ingestStream = [[(''job'', marshal_job job)]]
     \<and> processJob learning_worker job idle_redis \<noteq> Some (None, idle_redis)"
proof -
  have up: "redis_up learning_worker" "\<And>w. i_time_ok learning_worker (i_now learning_worker w)"
      "i_qdrant learning_worker = q_Upsert offline ''http://qdrant''"
    by (auto simp: redis_up_def learning_worker_def down_worker_def memory_keys_def split: option.splits)
  from learned_pages_are_never_indexed [OF learning_worker_law up, of "Learn_Fetch ''http://a'' ''hi''" idle_redis]
  show ?thesis by (auto simp: world_view_def sw_entries_idle)
qed

end
