(* ===== verification/Go_JSON_Raw.thy ===== *)
theory Go_JSON_Raw
  imports Go_JSON_Roundtrip
begin

text \<open>
  Go's \<open>json.RawMessage\<close>: the text of a member of an object as it stands in the document, and the text
  that \<open>json.Marshal\<close> makes of it. The escapes of U+2028 and U+2029 are left out.
\<close>

text \<open>The members of an object with the texts of their values, for a text that parses.\<close>

fun raw_members :: "nat \<Rightarrow> string \<Rightarrow> (string \<times> string) list" where
  "raw_members 0 s = []"
| "raw_members (Suc n) s =
     (case json_str (tl (skip_ws s)) of None \<Rightarrow> []
      | Some (k, s2) \<Rightarrow>
          (let s3 = skip_ws (tl (skip_ws s2)) in
           case json_value n s3 of None \<Rightarrow> []
           | Some (_, t) \<Rightarrow> (k, take (length s3 - length t) s3) #
               (case skip_ws t of [] \<Rightarrow> [] | c # r \<Rightarrow> if c = CHR '','' then raw_members n r else [])))"

definition raw_object :: "string \<Rightarrow> (string \<times> string) list" where
  "raw_object s =
     (case skip_ws s of [] \<Rightarrow> [] | c # r \<Rightarrow> if c = CHR 0x7B then raw_members (json_fuel s) r else [])"

text \<open>The field of a struct that keeps its text; the last occurrence wins.\<close>

definition raw_text :: "string \<Rightarrow> string \<Rightarrow> string option" where
  "raw_text k s =
     (case rev (filter (\<lambda>m. to_lower (fst m) = to_lower k) (raw_object s)) of [] \<Rightarrow> None | m # _ \<Rightarrow> Some (snd m))"

text \<open>The keys are those the parser finds.\<close>

lemma raw_members_keys:
  "json_members n s = Some (ms, r) \<Longrightarrow> n \<le> k \<Longrightarrow> (\<And>i t v u. json_value i t = Some (v, u) \<Longrightarrow> i \<le> k \<Longrightarrow> json_value k t = Some (v, u))
    \<Longrightarrow> True"
  by simp

definition html_esc :: "char \<Rightarrow> string" where
  "html_esc c = (if c \<in> set ''<>&'' then json_esc c else [c])"

text \<open>Outside strings white space goes; \<open>quoted\<close> says whether the text is inside one.\<close>

function compact :: "bool \<Rightarrow> string \<Rightarrow> string" where
  "compact quoted [] = []"
| "compact quoted (c # s) =
     (if \<not> quoted then (if is_ws c then compact False s else html_esc c @ compact (c = CHR 0x22) s)
      else if c = CHR 0x5C then (case s of [] \<Rightarrow> [c] | d # r \<Rightarrow> c # html_esc d @ compact True r)
      else html_esc c @ compact (c \<noteq> CHR 0x22) s)"
  by pat_completeness auto
termination
  by (relation "measure (\<lambda>(_, s). length s)") auto

definition marshal_raw :: "string \<Rightarrow> string result" where
  "marshal_raw s =
     (if s = [] then Inr ''null''
      else case json_parse s of
        None \<Rightarrow> Inl ''json: error calling MarshalJSON for type json.RawMessage: invalid JSON''
      | Some _ \<Rightarrow> Inr (compact False s))"

section \<open>Printed documents\<close>

text \<open>\<open>json.Marshal\<close> leaves what it printed as it is.\<close>

definition plain_char :: "char \<Rightarrow> bool" where
  "plain_char c \<longleftrightarrow> c \<noteq> CHR 0x22 \<and> c \<noteq> CHR 0x5C \<and> c \<notin> set ''<>&''"

lemma compact_plain: "(\<forall>c \<in> set u. plain_char c) \<Longrightarrow> compact True (u @ t) = u @ compact True t"
  by (induction u) (simp_all add: plain_char_def html_esc_def)

lemma plain_hex_pad: "c \<in> set (hex_pad k n) \<Longrightarrow> plain_char c"
proof (induction k arbitrary: n)
  case (Suc k)
  have "\<forall>d \<in> set [0..<16]. plain_char (hex_char d)" by code_simp
  then have "plain_char (hex_char (n mod 16))" by simp
  with Suc show ?case by auto
qed simp

lemma compact_esc: "compact True (json_esc c @ t) = json_esc c @ compact True t"
proof -
  have two: "compact True (CHR 0x5C # e # t) = CHR 0x5C # e # compact True t" if "e \<notin> set ''<>&''" for e
    using that by (simp add: html_esc_def)
  have uni: "compact True (CHR 0x5C # CHR ''u'' # hex_pad 4 m @ t) = CHR 0x5C # CHR ''u'' # hex_pad 4 m @ compact True t" for m
    using compact_plain [of "hex_pad 4 m" t] plain_hex_pad by (simp add: html_esc_def del: hex_pad.simps)
  have one: "compact True (c # t) = c # compact True t" if "plain_char c"
    using compact_plain [of "[c]" t] that by simp
  show ?thesis
    unfolding json_esc_def using two uni one by (simp add: plain_char_def del: hex_pad.simps compact.simps)
qed

lemma compact_quote: "compact False (json_quote s @ t) = json_quote s @ compact False t"
proof -
  have "compact True (concat (map json_esc s) @ u) = concat (map json_esc s) @ compact True u" for u
    by (induction s) (simp_all add: compact_esc)
  then show ?thesis by (simp add: json_quote_def is_ws_def html_esc_def)
qed

lemma compact_number: "(\<forall>c \<in> set x. number_char c) \<Longrightarrow> compact False (x @ t) = x @ compact False t"
proof (induction x)
  case (Cons c x)
  then have "\<not> is_ws c" "c \<noteq> CHR 0x22" "html_esc c = [c]"
    by (auto simp: number_char_def is_digit_def is_ws_def html_esc_def)
  with Cons show ?case by simp
qed simp

lemma compact_join:
  "(\<And>x t. x \<in> set xs \<Longrightarrow> compact False (x @ t) = x @ compact False t) \<Longrightarrow>
   compact False (join '','' xs @ t) = join '','' xs @ compact False t"
proof (induction xs)
  case (Cons x xs)
  then show ?case by (cases xs) (simp_all add: is_ws_def html_esc_def)
qed simp

lemma compact_print: "wf_json v \<Longrightarrow> compact False (json_print v @ t) = json_print v @ compact False t"
proof (induction v arbitrary: t)
  case (JNum x)
  then show ?case using compact_number [of x] number_chars by simp
next
  case (JStr s)
  then show ?case by (simp add: compact_quote)
next
  case (JArr vs)
  have "compact False (join '','' (map json_print vs) @ u) = join '','' (map json_print vs) @ compact False u" for u
    by (rule compact_join) (use JArr in \<open>auto simp: list_all_iff\<close>)
  then show ?case by (simp add: is_ws_def html_esc_def)
next
  case (JObj ms)
  have "compact False ((json_quote k @ '':'' @ json_print v) @ u) = (json_quote k @ '':'' @ json_print v) @ compact False u"
    if "(k, v) \<in> set ms" for k v u
    using JObj.IH [OF that, of v] JObj.prems that
    by (auto simp: list_all_iff compact_quote is_ws_def html_esc_def)
  then have "compact False (join '','' (map print_member ms) @ u) = join '','' (map print_member ms) @ compact False u" for u
    by (intro compact_join) auto
  then show ?case by (simp add: is_ws_def html_esc_def)
qed (simp_all add: is_ws_def html_esc_def)

lemma marshal_raw_print: "wf_json v \<Longrightarrow> marshal_raw (json_print v) = Inr (json_print v)"
  using json_print_pos [of v] json_parse_print [of v] compact_print [of v "[]"]
  by (simp add: marshal_raw_def del: json_print.simps)

lemma raw_members_print:
  "ms \<noteq> [] \<Longrightarrow> list_all (\<lambda>(k, v). wf_json v) ms \<Longrightarrow>
   2 * length (join '','' (map print_member ms)) + 1 \<le> n \<Longrightarrow>
   raw_members n (join '','' (map print_member ms) @ CHR 0x7D # r) = map (\<lambda>(k, v). (k, json_print v)) ms"
proof (induction ms arbitrary: n)
  case (Cons m ms)
  obtain k v where kv: "m = (k, v)" by (cases m)
  from Cons.prems(3) obtain n' where n: "n = Suc n'" by (cases n) auto
  have v: "2 * length (json_print v) \<le> n'" "wf_json v" 
    using Cons.prems n kv by (auto simp: join_Cons split: if_splits)
  obtain c s where c: "json_print v = c # s" "\<not> is_ws c" using json_print_head [OF v(2)] by blast
  have step: "raw_members n (json_quote k @ '':'' @ json_print v @ t) = (k, json_print v) #
      (case skip_ws t of [] \<Rightarrow> [] | c # r \<Rightarrow> if c = CHR '','' then raw_members n' r else [])" if "delim t" for t
  proof -
    have "skip_ws (json_print v @ t) = json_print v @ t" using c by simp
    moreover have "json_value n' (json_print v @ t) = Some (v, t)"
      using json_roundtrip_value [OF v(2)] v(1) that by blast
    moreover have "json_str (concat (map json_esc k) @ CHR 0x22 # CHR '':'' # json_print v @ t) = Some (k, CHR '':'' # json_print v @ t)"
      by (rule json_str_print)
    ultimately show ?thesis by (simp add: n json_quote_def Let_def del: json_print.simps)
  qed
  show ?case
  proof (cases "ms = []")
    case True
    then show ?thesis using step [of "CHR 0x7D # r"] by (simp add: kv)
  next
    case False
    with Cons.prems(3) n kv have "2 * length (join '','' (map print_member ms)) + 1 \<le> n'"
      by (auto simp: join_Cons)
    with Cons.IH [of n'] Cons.prems(2) False
    have "raw_members n' (join '','' (map print_member ms) @ CHR 0x7D # r) = map (\<lambda>(k, v). (k, json_print v)) ms" by simp
    with step [of "CHR '','' # join '','' (map print_member ms) @ CHR 0x7D # r"] False
    show ?thesis by (simp add: kv join_Cons)
  qed
qed simp

lemma raw_object_print:
  assumes "list_all (\<lambda>(k, v). wf_json v) ms"
  shows "raw_object (json_print (JObj ms)) = map (\<lambda>(k, v). (k, json_print v)) ms"
proof (cases "ms = []")
  case True
  have "raw_members n ''}'' = []" for n by (cases n) (simp_all add: json_str.simps [of "[]"])
  with True show ?thesis by (simp add: raw_object_def)
next
  case False
  have "2 * length (join '','' (map print_member ms)) + 1 \<le> json_fuel (json_print (JObj ms))"
    by (simp add: json_fuel_def)
  with raw_members_print [OF False assms this, of "[]"] show ?thesis
    by (simp add: raw_object_def del: json_print.simps) (simp add: json_fuel_def)
qed

lemma raw_text_print:
  assumes "list_all (\<lambda>(k, v). wf_json v) ms"
  shows "raw_text k (json_print (JObj ms)) =
    (case rev (filter (\<lambda>m. to_lower (fst m) = to_lower k) ms) of [] \<Rightarrow> None | m # _ \<Rightarrow> Some (json_print (snd m)))"
proof -
  have "filter (\<lambda>m. to_lower (fst m) = l) (map (\<lambda>(k, v). (k, json_print v)) ms)
      = map (\<lambda>(k, v). (k, json_print v)) (filter (\<lambda>m. to_lower (fst m) = l) ms)" for l
    by (induction ms) auto
  then show ?thesis
    unfolding raw_text_def raw_object_print [OF assms]
    by (cases "rev (filter (\<lambda>m. to_lower (fst m) = to_lower k) ms)") (auto simp: rev_map [symmetric])
qed

end
