(* ===== verification/Tool_Registry.thy ===== *)
theory Tool_Registry
  imports PG_Store Gateway_Core Adapters Go_JSON_Raw
begin

text \<open>
  The tool registry: \<open>internal/tools/types.go\<close>, \<open>registry.go\<close>, \<open>handler.go\<close>, \<open>plugin_loader.go\<close>, and the
  store it gets from the main program, \<open>cmd/wrapper/pg_adapter.go\<close>, over the relational store.

  A raw JSON message is its text. Times are numbers; their JSON text, the directory listing and the
  joining of paths are parameters.
\<close>

record tool =
  ToolID :: string
  ToolName :: string
  ToolDescription :: string
  InputSchema :: "string option"
  ExecutorType :: string
  EndpointURL :: string
  ToolSource :: string
  ToolEnabled :: bool
  ToolCreatedAt :: int

record tool_call_request =
  CallID :: string
  CallTool :: string
  CallInput :: string

record tool_result =
  ResCallID :: string
  ResOutput :: string
  ResError :: string
  ResDurationMs :: int

definition ValidExecutorTypes :: "string list" where
  "ValidExecutorTypes = [''builtin'', ''subprocess'', ''http'', ''plugin'']"

text \<open>The interface \<open>PGToolStore\<close>.\<close>

record 'd tool_store =
  ts_list :: "'d \<Rightarrow> tool list result \<times> 'd"
  ts_get :: "string \<Rightarrow> 'd \<Rightarrow> tool result \<times> 'd"
  ts_create :: "tool \<Rightarrow> 'd \<Rightarrow> tool result \<times> 'd"

section \<open>The registry\<close>

type_synonym registry = "(string \<times> tool) list"

definition NewRegistry :: registry where
  "NewRegistry = []"

definition reg_List :: "'d tool_store \<Rightarrow> 'd \<Rightarrow> tool list result \<times> 'd" where
  "reg_List S d =
     (case ts_list S d of
        (Inl e, d1) \<Rightarrow> (Inl (''list tools: '' @ e), d1)
      | (Inr ts, d1) \<Rightarrow> (Inr (filter ToolEnabled ts), d1))"

definition reg_Register :: "'d tool_store \<Rightarrow> tool \<Rightarrow> registry \<times> 'd \<Rightarrow> tool result \<times> (registry \<times> 'd)" where
  "reg_Register S t = (\<lambda>(cache, d).
     case ts_create S t d of
       (Inl e, d1) \<Rightarrow> (Inl (''register tool: '' @ e), cache, d1)
     | (Inr created, d1) \<Rightarrow> (Inr created, (ToolName created, created) # cache, d1))"

definition reg_Get :: "'d tool_store \<Rightarrow> string \<Rightarrow> registry \<times> 'd \<Rightarrow> tool result \<times> (registry \<times> 'd)" where
  "reg_Get S name = (\<lambda>(cache, d).
     case map_of cache name of
       Some t \<Rightarrow> (Inr t, cache, d)
     | None \<Rightarrow>
         (case ts_get S name d of
            (Inl e, d1) \<Rightarrow> (Inl (''get tool '' @ go_quote name @ '': '' @ e), cache, d1)
          | (Inr t, d1) \<Rightarrow> (Inr t, (name, t) # cache, d1)))"

section \<open>The store of the main program\<close>

definition recordToTool :: "tool_record \<Rightarrow> tool" where
  "recordToTool r = \<lparr>ToolID = TID r, ToolName = TName r, ToolDescription = TDescription r, InputSchema = TInputSchema r,
     ExecutorType = TExecutorType r, EndpointURL = TEndpointURL r, ToolSource = [], ToolEnabled = TEnabled r,
     ToolCreatedAt = TCreatedAt r\<rparr>"

definition toolToRecord :: "tool \<Rightarrow> tool_record" where
  "toolToRecord t = \<lparr>TID = [], TName = ToolName t, TDescription = ToolDescription t,
     TInputSchema = Some (case InputSchema t of None \<Rightarrow> ''{}'' | Some s \<Rightarrow> s), TExecutorType = ExecutorType t,
     TEndpointURL = EndpointURL t, TEnabled = ToolEnabled t, TCreatedAt = 0\<rparr>"

definition pgToolStoreAdapter ::
  "pg_env \<Rightarrow> ((tool_row \<Rightarrow> tool_row \<Rightarrow> bool) \<Rightarrow> tool_row list \<Rightarrow> tool_row list) \<Rightarrow> pgdb tool_store" where
  "pgToolStoreAdapter P sort_slice = \<lparr>
     ts_list = (\<lambda>db. case ListTools P sort_slice db of
        (Inl e, db1) \<Rightarrow> (Inl e, db1) | (Inr rs, db1) \<Rightarrow> (Inr (map recordToTool rs), db1)),
     ts_get = (\<lambda>name db. case GetTool P name db of
        (Inl e, db1) \<Rightarrow> (Inl e, db1) | (Inr r, db1) \<Rightarrow> (Inr (recordToTool r), db1)),
     ts_create = (\<lambda>t db. case CreateTool P (toolToRecord t) db of
        (Inl e, db1) \<Rightarrow> (Inl e, db1) | (Inr r, db1) \<Rightarrow> (Inr (recordToTool r), db1))\<rparr>"

section \<open>HTTP\<close>

definition errorResponse :: "string \<Rightarrow> json" where
  "errorResponse m = JObj [(''error'', JObj [(''message'', JStr m), (''type'', JStr ''tool_error'')])]"

text \<open>A tool as JSON; a schema that is not JSON makes the encoder fail.\<close>

definition tool_json :: "(int \<Rightarrow> string) \<Rightarrow> tool \<Rightarrow> json option" where
  "tool_json time_text t =
     map_option (\<lambda>schema. JObj ([(''id'', JStr (ToolID t)), (''name'', JStr (ToolName t)),
         (''description'', JStr (ToolDescription t)), (''input_schema'', schema),
         (''executor_type'', JStr (ExecutorType t))]
       @ (if EndpointURL t = [] then [] else [(''endpoint_url'', JStr (EndpointURL t))])
       @ (if ToolSource t = [] then [] else [(''source'', JStr (ToolSource t))])
       @ [(''enabled'', JBool (ToolEnabled t)), (''created_at'', JStr (time_text (ToolCreatedAt t)))]))
     (case InputSchema t of None \<Rightarrow> Some JNull | Some s \<Rightarrow> json_parse s)"

definition encode_failure :: reply where
  "encode_failure = \<lparr>ReplyStatus = 500, ReplyHeaders = [], ReplyBody = TextBody ''json: error calling MarshalJSON''\<rparr>"

fun all_json :: "(int \<Rightarrow> string) \<Rightarrow> tool list \<Rightarrow> json list option" where
  "all_json time_text [] = Some []"
| "all_json time_text (t # ts) =
     (case (tool_json time_text t, all_json time_text ts) of (Some v, Some vs) \<Rightarrow> Some (v # vs) | _ \<Rightarrow> None)"

definition ListToolsHandler :: "(int \<Rightarrow> string) \<Rightarrow> 'd tool_store \<Rightarrow> 'd \<Rightarrow> reply \<times> 'd" where
  "ListToolsHandler time_text S d =
     (case reg_List S d of
        (Inl e, d1) \<Rightarrow> (reply_json 500 (errorResponse e), d1)
      | (Inr ts, d1) \<Rightarrow>
          (case all_json time_text ts of
             None \<Rightarrow> (encode_failure, d1)
           | Some vs \<Rightarrow> (reply_json 200 (JObj [(''count'', JInt (int (length ts))), (''tools'', JArr vs)]), d1)))"

definition as_instant :: "(string \<Rightarrow> int option) \<Rightarrow> json \<Rightarrow> int result" where
  "as_instant time_value v = (case v of JNull \<Rightarrow> Inr 0
     | JStr s \<Rightarrow> (case time_value s of Some i \<Rightarrow> Inr i | None \<Rightarrow> Inl ''parsing time: cannot parse'')
     | _ \<Rightarrow> Inl ''Time.UnmarshalJSON: input is not a JSON string'')"

definition parse_tool :: "(string \<Rightarrow> int option) \<Rightarrow> string \<Rightarrow> tool result" where
  "parse_tool time_value body =
     result_bind (unmarshal_obj body) (\<lambda>ms. result_bind (str_field ''id'' ms) (\<lambda>i.
       result_bind (str_field ''name'' ms) (\<lambda>n. result_bind (str_field ''description'' ms) (\<lambda>d.
         result_bind (str_field ''executor_type'' ms) (\<lambda>x. result_bind (str_field ''endpoint_url'' ms) (\<lambda>u.
           result_bind (str_field ''source'' ms) (\<lambda>s. result_bind (bool_field ''enabled'' ms) (\<lambda>e.
             result_bind (jfold (as_instant time_value) 0 (jmatches ''created_at'' ms)) (\<lambda>c.
               Inr \<lparr>ToolID = i, ToolName = n, ToolDescription = d, InputSchema = raw_text ''input_schema'' body,
                 ExecutorType = x, EndpointURL = u, ToolSource = s, ToolEnabled = e, ToolCreatedAt = c\<rparr>)))))))))"

definition RegisterToolHandler ::
  "(string \<Rightarrow> int option) \<Rightarrow> (int \<Rightarrow> string) \<Rightarrow> 'd tool_store \<Rightarrow> string \<Rightarrow> registry \<times> 'd \<Rightarrow> reply \<times> (registry \<times> 'd)" where
  "RegisterToolHandler time_value time_text S body s =
     (case parse_tool time_value body of
        Inl _ \<Rightarrow> (reply_json 422 (errorResponse ''invalid request body''), s)
      | Inr t \<Rightarrow>
          if ToolName t = [] then (reply_json 422 (errorResponse ''name is required''), s)
          else if ExecutorType t \<notin> set ValidExecutorTypes
          then (reply_json 422 (errorResponse ''invalid executor_type: must be builtin, subprocess, or http''), s)
          else
            (let t1 = (if InputSchema t = None then t\<lparr>InputSchema := Some ''{}''\<rparr> else t)
             in case reg_Register S t1 s of
                  (Inl e, s1) \<Rightarrow> (reply_json 500 (errorResponse e), s1)
                | (Inr created, s1) \<Rightarrow>
                    (case tool_json time_text created of
                       None \<Rightarrow> (encode_failure, s1)
                     | Some v \<Rightarrow> (reply_json 201 v, s1))))"

section \<open>Plugins\<close>

text \<open>A directory entry; \<open>mode\<close> is \<open>None\<close> when its information cannot be read.\<close>

record dir_entry =
  EntryName :: string
  IsDir :: bool
  EntryMode :: "int option"

text \<open>\<open>mode & 0111\<close>.\<close>

definition executable_mode :: "int \<Rightarrow> bool" where
  "executable_mode m \<longleftrightarrow> m mod 2 = 1 \<or> m div 8 mod 2 = 1 \<or> m div 64 mod 2 = 1"

definition plugin_tool :: "(string \<Rightarrow> string \<Rightarrow> string) \<Rightarrow> string \<Rightarrow> string \<Rightarrow> tool" where
  "plugin_tool path_join dir name = \<lparr>ToolID = [], ToolName = name, ToolDescription = ''Community plugin: '' @ name,
     InputSchema = Some ''{}'', ExecutorType = ''plugin'', EndpointURL = path_join dir name, ToolSource = ''plugin'',
     ToolEnabled = True, ToolCreatedAt = 0\<rparr>"

fun load_entries ::
  "(string \<Rightarrow> string \<Rightarrow> string) \<Rightarrow> 'd tool_store \<Rightarrow> string \<Rightarrow> dir_entry list \<Rightarrow> registry \<times> 'd \<Rightarrow> goerr option \<times> (registry \<times> 'd)" where
  "load_entries path_join S dir [] s = (None, s)"
| "load_entries path_join S dir (e # es) s =
     (if IsDir e then load_entries path_join S dir es s
      else case EntryMode e of
        None \<Rightarrow> load_entries path_join S dir es s
      | Some m \<Rightarrow>
          if \<not> executable_mode m then load_entries path_join S dir es s
          else (case reg_Register S (plugin_tool path_join dir (EntryName e)) s of
             (Inl err, s1) \<Rightarrow> (Some (''register plugin '' @ go_quote (EntryName e) @ '': '' @ err), s1)
           | (Inr _, s1) \<Rightarrow> load_entries path_join S dir es s1))"

definition LoadPlugins ::
  "(string \<Rightarrow> dir_entry list result) \<Rightarrow> (string \<Rightarrow> string \<Rightarrow> string) \<Rightarrow> 'd tool_store \<Rightarrow> string
   \<Rightarrow> registry \<times> 'd \<Rightarrow> goerr option \<times> (registry \<times> 'd)" where
  "LoadPlugins read_dir path_join S dir s =
     (if dir = [] then (None, s)
      else case read_dir dir of
        Inl e \<Rightarrow> (Some (''plugin dir '' @ go_quote dir @ '': '' @ e), s)
      | Inr es \<Rightarrow> load_entries path_join S dir es s)"

section \<open>A registry over a store of named tools\<close>

text \<open>
  The contract of the store: no two tools share a name, a creation adds the tool it returns, a lookup
  returns the tool of that name, and nothing else changes the tools.
\<close>

locale named_tools =
  fixes store :: "'d tool_store" and rows :: "'d \<Rightarrow> string \<Rightarrow> tool option"
  assumes lists_keep: "ts_list store d = (ts, d') \<Longrightarrow> rows d' = rows d"
    and gets: "ts_get store n d = (r, d') \<Longrightarrow> rows d' = rows d \<and> (\<forall>t. r = Inr t \<longrightarrow> rows d n = Some t)"
    and creates: "ts_create store t d = (r, d') \<Longrightarrow> (\<forall>e. r = Inl e \<longrightarrow> rows d' = rows d)
      \<and> (\<forall>c. r = Inr c \<longrightarrow> rows d (ToolName c) = None \<and> rows d' = (rows d)(ToolName c \<mapsto> c))"
begin

definition coherent :: "registry \<times> 'd \<Rightarrow> bool" where
  "coherent s \<longleftrightarrow> (\<forall>n t. map_of (fst s) n = Some t \<longrightarrow> rows (snd s) n = Some t)"

lemma coherent_Register:
  assumes "coherent s" and "reg_Register store t s = (r, s')"
  shows "coherent s'"
proof -
  obtain cache d where s: "s = (cache, d)" by fastforce
  obtain x d1 where c: "ts_create store t d = (x, d1)" by fastforce
  from creates [OF c] show ?thesis
    using assms c by (cases x) (auto simp: coherent_def reg_Register_def s)
qed

lemma coherent_Get:
  assumes "coherent s" and "reg_Get store n s = (r, s')"
  shows "coherent s' \<and> (\<forall>t. r = Inr t \<longrightarrow> rows (snd s') n = Some t)"
proof -
  obtain cache d where s: "s = (cache, d)" by fastforce
  show ?thesis
  proof (cases "map_of cache n")
    case (Some t)
    with assms show ?thesis by (auto simp: coherent_def reg_Get_def s)
  next
    case None
    obtain x d1 where g: "ts_get store n d = (x, d1)" by fastforce
    from gets [OF g] show ?thesis
      using assms g None by (cases x) (auto simp: coherent_def reg_Get_def s split: if_splits)
  qed
qed

lemma coherent_List: "coherent (cache, d) \<Longrightarrow> reg_List store d = (r, d') \<Longrightarrow> coherent (cache, d')"
  using lists_keep by (fastforce simp: coherent_def reg_List_def split: prod.splits sum.splits)

end

section \<open>Over the relational store\<close>

definition pg_rows :: "pgdb \<Rightarrow> string \<Rightarrow> tool option" where
  "pg_rows db n = map_option (\<lambda>r. recordToTool (scan_tool r)) (find (\<lambda>r. t_name r = n) (tools_table db))"

lemma pg_rows_simps [simp]: "pg_rows (db\<lparr>statements := k\<rparr>) = pg_rows db"
  by (simp add: pg_rows_def fun_eq_iff)

lemma find_snoc: "find P (xs @ [x]) = (case find P xs of None \<Rightarrow> (if P x then Some x else None) | Some y \<Rightarrow> Some y)"
  by (induction xs) auto

lemma pg_rows_add:
  assumes "t_name row \<notin> t_name ` set (tools_table db)"
  shows "pg_rows db (t_name row) = None"
    and "pg_rows (db\<lparr>tools_table := tools_table db @ [row]\<rparr>) = (pg_rows db)(t_name row \<mapsto> recordToTool (scan_tool row))"
proof -
  have n: "find (\<lambda>r. t_name r = t_name row) (tools_table db) = None" using assms unfolding find_None_iff by (metis imageI)
  then show "pg_rows db (t_name row) = None" by (simp add: pg_rows_def)
  show "pg_rows (db\<lparr>tools_table := tools_table db @ [row]\<rparr>) = (pg_rows db)(t_name row \<mapsto> recordToTool (scan_tool row))"
    using n by (auto simp: pg_rows_def fun_eq_iff find_snoc split: option.splits)
qed

lemma tool_name_row [simp]: "ToolName (recordToTool (scan_tool r)) = t_name r"
  by (simp add: recordToTool_def scan_tool_def)

lemma CreateTool_cases:
  assumes "CreateTool P t db = (r, db')"
  obtains (fails) e where "r = Inl e" and "tools_table db' = tools_table db"
    | (creates) row n where "r = Inr (scan_tool row)" and "db' = db\<lparr>tools_table := tools_table db @ [row], statements := n\<rparr>"
        "t_name row \<notin> t_name ` set (tools_table db)" "t_executor row = TExecutorType t" "TExecutorType t \<in> set executor_types"
  using assms
  by (auto simp: CreateTool_def statement_def insert_tool_def Let_def split: prod.splits sum.splits option.splits if_splits)

interpretation pg_tools: named_tools "pgToolStoreAdapter P sort_slice" pg_rows
proof
  fix d d' :: pgdb and r :: "tool list result"
  assume "ts_list (pgToolStoreAdapter P sort_slice) d = (r, d')"
  then show "pg_rows d' = pg_rows d"
    by (auto simp: pgToolStoreAdapter_def ListTools_def statement_def Let_def split: prod.splits sum.splits option.splits if_splits)
next
  fix n and d d' :: pgdb and r :: "tool result"
  assume "ts_get (pgToolStoreAdapter P sort_slice) n d = (r, d')"
  then show "pg_rows d' = pg_rows d \<and> (\<forall>t. r = Inr t \<longrightarrow> pg_rows d n = Some t)"
    by (auto simp: pgToolStoreAdapter_def GetTool_def statement_def Let_def pg_rows_def
        split: prod.splits sum.splits option.splits if_splits)
next
  fix t and d d' :: pgdb and r :: "tool result"
  assume c: "ts_create (pgToolStoreAdapter P sort_slice) t d = (r, d')"
  obtain r' where r': "CreateTool P (toolToRecord t) d = (r', d')" "r = (case r' of Inl e \<Rightarrow> Inl e | Inr x \<Rightarrow> Inr (recordToTool x))"
    using c by (auto simp: pgToolStoreAdapter_def split: prod.splits sum.splits)
  show "(\<forall>e. r = Inl e \<longrightarrow> pg_rows d' = pg_rows d)
      \<and> (\<forall>c. r = Inr c \<longrightarrow> pg_rows d (ToolName c) = None \<and> pg_rows d' = (pg_rows d)(ToolName c \<mapsto> c))"
    using r'(1)
  proof (cases rule: CreateTool_cases)
    case (fails e)
    then show ?thesis using r'(2) by (simp add: pg_rows_def fun_eq_iff)
  next
    case (creates row n)
    then show ?thesis using r'(2) pg_rows_add [OF creates(3)] by simp
  qed
qed

section \<open>Properties\<close>

datatype registry_op = Op_List | Op_Get string | Op_Register tool

fun reg_step :: "'d tool_store \<Rightarrow> registry_op \<Rightarrow> registry \<times> 'd \<Rightarrow> registry \<times> 'd" where
  "reg_step S Op_List s = (fst s, snd (reg_List S (snd s)))"
| "reg_step S (Op_Get n) s = snd (reg_Get S n s)"
| "reg_step S (Op_Register t) s = snd (reg_Register S t s)"

lemma pg_coherent_ops:
  "pg_tools.coherent s \<Longrightarrow> pg_tools.coherent (fold (reg_step (pgToolStoreAdapter P sort_slice)) ops s)"
proof (induction ops arbitrary: s)
  case (Cons op ops)
  have "pg_tools.coherent (reg_step (pgToolStoreAdapter P sort_slice) op s)"
  proof (cases op)
    case Op_List
    obtain r d' where "reg_List (pgToolStoreAdapter P sort_slice) (snd s) = (r, d')" by fastforce
    with pg_tools.coherent_List [OF _ this, of "fst s"] Cons.prems Op_List show ?thesis by simp
  next
    case (Op_Get n)
    obtain r s' where "reg_Get (pgToolStoreAdapter P sort_slice) n s = (r, s')" by (metis prod.exhaust)
    with pg_tools.coherent_Get [OF Cons.prems this] Op_Get show ?thesis by simp
  next
    case (Op_Register t)
    obtain r s' where "reg_Register (pgToolStoreAdapter P sort_slice) t s = (r, s')" by (metis prod.exhaust)
    with pg_tools.coherent_Register [OF Cons.prems this] Op_Register show ?thesis by simp
  qed
  then show ?case by (simp add: Cons.IH)
qed simp

text \<open>
  C30. The cache of the registry never answers differently from the database: after any operations, the
  tool that a lookup returns, from the cache or not, is the row the table holds under that name.
\<close>

theorem registry_answers_like_the_table:
  assumes "fold (reg_step (pgToolStoreAdapter P sort_slice)) ops (NewRegistry, db) = s"
    and "reg_Get (pgToolStoreAdapter P sort_slice) n s = (Inr t, (cache, db'))"
  shows "\<exists>row. find (\<lambda>r. t_name r = n) (tools_table db') = Some row \<and> t = recordToTool (scan_tool row)"
proof -
  have "pg_tools.coherent s"
    unfolding assms(1) [symmetric] by (rule pg_coherent_ops) (simp add: pg_tools.coherent_def NewRegistry_def)
  from pg_tools.coherent_Get [OF this assms(2)] have "pg_rows db' n = Some t" by simp
  then show ?thesis by (auto simp: pg_rows_def)
qed

text \<open>
  No plugin can be loaded: with an executable file in the plugin directory, loading ends with an error
  at the first such file, because the table of the schema does not admit the executor type plugin, and no
  tool is registered.
\<close>

theorem plugins_never_load:
  assumes "dir \<noteq> []" and "read_dir dir = Inr es"
    and "\<exists>e \<in> set es. \<not> IsDir e \<and> (\<exists>m. EntryMode e = Some m \<and> executable_mode m)"
  shows "\<exists>err cache' db'. LoadPlugins read_dir path_join (pgToolStoreAdapter P sort_slice) dir (cache, db) = (Some err, (cache', db'))
    \<and> cache' = cache \<and> tools_table db' = tools_table db"
proof -
  have "\<exists>err db'. load_entries path_join (pgToolStoreAdapter P sort_slice) dir es (cache, db) = (Some err, (cache, db'))
      \<and> tools_table db' = tools_table db"
    using assms(3)
  proof (induction es)
    case (Cons e es)
    show ?case
    proof (cases "\<not> IsDir e \<and> (\<exists>m. EntryMode e = Some m \<and> executable_mode m)")
      case True
      let ?t = "toolToRecord (plugin_tool path_join dir (EntryName e))"
      obtain r db' where c: "CreateTool P ?t db = (r, db')" by fastforce
      have "\<exists>x. r = Inl x \<and> tools_table db' = tools_table db"
        using c by (cases rule: CreateTool_cases) (auto simp: toolToRecord_def plugin_tool_def executor_types_def)
      with c True show ?thesis by (auto simp: reg_Register_def pgToolStoreAdapter_def)
    next
      case False
      with Cons show ?thesis by (auto split: option.splits)
    qed
  qed simp
  with assms(1,2) show ?thesis by (auto simp: LoadPlugins_def)
qed

section \<open>Concrete runs\<close>

definition calm_pg :: pg_env where
  "calm_pg = \<lparr>fault = (\<lambda>n. None), now_at = (\<lambda>n. int n), random_uuid = (\<lambda>n. dec_of_nat n), to_uuid = Some,
     text_ok = (\<lambda>t. True), to_jsonb = Some, ts_match = (\<lambda>c q. contains c q), ts_rank = (\<lambda>c q. 1)\<rparr>"

definition empty_tools :: pgdb where
  "empty_tools = \<lparr>relations = [''tools''], documents_table = [], chunks_table = [], tools_table = [], statements = 0\<rparr>"

definition echo_tool :: tool where
  "echo_tool = \<lparr>ToolID = [], ToolName = ''echo'', ToolDescription = [], InputSchema = None, ExecutorType = ''builtin'',
     EndpointURL = [], ToolSource = [], ToolEnabled = True, ToolCreatedAt = 0\<rparr>"

abbreviation in_order :: "(tool_row \<Rightarrow> tool_row \<Rightarrow> bool) \<Rightarrow> tool_row list \<Rightarrow> tool_row list" where
  "in_order \<equiv> (\<lambda>lt rs. rs)"

lemma registry_answers_like_the_table_witness:
  "\<exists>t cache db row. reg_Get (pgToolStoreAdapter calm_pg in_order) ''echo''
       (fold (reg_step (pgToolStoreAdapter calm_pg in_order)) [Op_Register echo_tool, Op_List] (NewRegistry, empty_tools))
       = (Inr t, (cache, db))
     \<and> find (\<lambda>r. t_name r = ''echo'') (tools_table db) = Some row \<and> t = recordToTool (scan_tool row)"
proof -
  let ?S = "pgToolStoreAdapter calm_pg in_order"
  let ?s = "fold (reg_step ?S) [Op_Register echo_tool, Op_List] (NewRegistry, empty_tools)"
  have "(case reg_Get ?S ''echo'' ?s of (Inr t, _) \<Rightarrow> True | _ \<Rightarrow> False) = True" by code_simp
  then obtain t cache db where g: "reg_Get ?S ''echo'' ?s = (Inr t, (cache, db))"
    by (auto split: prod.splits sum.splits)
  with registry_answers_like_the_table [OF refl g] show ?thesis by blast
qed

lemma plugins_never_load_witness:
  "\<exists>err db'. LoadPlugins (\<lambda>d. Inr [\<lparr>EntryName = ''hello'', IsDir = False, EntryMode = Some 493\<rparr>]) (\<lambda>d n. d @ ''/'' @ n)
      (pgToolStoreAdapter calm_pg in_order) ''plugins'' (NewRegistry, empty_tools) = (Some err, (NewRegistry, db'))
    \<and> tools_table db' = []"
  using plugins_never_load [of "''plugins''" "\<lambda>d. Inr [\<lparr>EntryName = ''hello'', IsDir = False, EntryMode = Some 493\<rparr>]"
      "[\<lparr>EntryName = ''hello'', IsDir = False, EntryMode = Some 493\<rparr>]" "\<lambda>d n. d @ ''/'' @ n" calm_pg in_order NewRegistry empty_tools]
  by (auto simp: executable_mode_def empty_tools_def)

end
