(* ===== verification/Dispatcher.thy ===== *)
theory Dispatcher
  imports Tool_Registry Web_Tools
begin

text \<open>
  Running tools: \<open>internal/tools/dispatcher.go\<close>, \<open>sandbox.go\<close>, \<open>plugin.go\<close> and the grammars of
  \<open>internal/grammar/grammar.go\<close>.

  The world \<open>'d\<close> is that of the tool store. Processes, the HTTP client, the file system, the wazero
  runtime, the clock, UUIDs and the operating system are parameters. A process gets its arguments, its
  standard input and a limit in seconds, and gives its output, its error output and its error. A raw
  JSON message is its text, the nil message the empty text.
\<close>

datatype wasm_exit = Wasm_Done | Wasm_Exit nat goerr | Wasm_Failed goerr

record 'd tool_env =
  t_store :: "'d tool_store"
  t_web :: "'d web_env"
  t_learns :: bool
  t_linux :: bool
  t_now :: "'d \<Rightarrow> int"
  t_uuid :: "'d \<Rightarrow> string \<times> 'd"
  t_exec :: "string list \<Rightarrow> string \<Rightarrow> int \<Rightarrow> 'd \<Rightarrow> (string \<times> string \<times> goerr option) \<times> 'd"
  t_post :: "string \<Rightarrow> string \<Rightarrow> 'd \<Rightarrow> (string \<times> goerr option) result \<times> 'd"
  t_mkdir :: "'d \<Rightarrow> goerr option \<times> 'd"
  t_read :: "string \<Rightarrow> 'd \<Rightarrow> string result \<times> 'd"
  t_wasi :: "'d \<Rightarrow> goerr option \<times> 'd"
  t_wasm :: "string \<Rightarrow> 'd \<Rightarrow> (string \<times> wasm_exit) \<times> 'd"

section \<open>Grammars\<close>

definition LoadGrammar :: "string \<Rightarrow> string \<Rightarrow> string \<Rightarrow> string result" where
  "LoadGrammar jsonGrammar bashGrammar name =
     (if name = ''json'' then Inr jsonGrammar
      else if name = ''bash'' then Inr bashGrammar
      else Inl (''unknown grammar: '' @ go_quote name))"

definition EnrichRequestWithGrammar :: "string \<Rightarrow> string \<Rightarrow> generate_request \<Rightarrow> generate_request" where
  "EnrichRequestWithGrammar jsonGrammar bashGrammar req =
     (if Grammar req \<noteq> [] then req
      else case LoadGrammar jsonGrammar bashGrammar ''json'' of
        Inl _ \<Rightarrow> req | Inr g \<Rightarrow> req\<lparr>Grammar := g\<rparr>)"

section \<open>The filter\<close>

definition ErrForbiddenCommand :: goerr where
  "ErrForbiddenCommand = ''forbidden command''"

definition blockedTokens :: "string list" where
  "blockedTokens = [''chmod'', ''sudo'', ''curl'', ''wget'', ''rm -rf'', ''eval'', ''base64'']"

definition preDispatchFilter :: "tool_call_request \<Rightarrow> goerr option" where
  "preDispatchFilter c =
     (case find (contains (to_lower (CallInput c))) blockedTokens of
        Some token \<Rightarrow> Some (''forbidden command '' @ go_quote token @ '': '' @ ErrForbiddenCommand)
      | None \<Rightarrow> None)"

section \<open>Results\<close>

definition elapsed :: "'d tool_env \<Rightarrow> int \<Rightarrow> 'd \<Rightarrow> int" where
  "elapsed E start d = (t_now E d - start) div 1000000"

definition with_output :: "'d tool_env \<Rightarrow> tool_call_request \<Rightarrow> int \<Rightarrow> string \<Rightarrow> 'd \<Rightarrow> tool_result" where
  "with_output E c start out d =
     \<lparr>ResCallID = CallID c, ResOutput = out, ResError = [], ResDurationMs = elapsed E start d\<rparr>"

definition with_error :: "'d tool_env \<Rightarrow> tool_call_request \<Rightarrow> int \<Rightarrow> string \<Rightarrow> 'd \<Rightarrow> tool_result" where
  "with_error E c start err d =
     \<lparr>ResCallID = CallID c, ResOutput = [], ResError = err, ResDurationMs = elapsed E start d\<rparr>"

section \<open>The sandbox\<close>

record sandbox_config =
  CfgMemLimitMB :: int
  CfgCPUShares :: int
  CfgTimeoutSec :: int

record sandbox =
  cgroupPrefix :: string
  memLimitMB :: int
  cpuShares :: int
  timeoutSecs :: int

definition NewSandbox :: "sandbox_config \<Rightarrow> sandbox" where
  "NewSandbox cfg = \<lparr>cgroupPrefix = ''caw_tool'',
     memLimitMB = (if CfgMemLimitMB cfg \<le> 0 then 256 else CfgMemLimitMB cfg),
     cpuShares = (if CfgCPUShares cfg \<le> 0 then 512 else CfgCPUShares cfg),
     timeoutSecs = (if CfgTimeoutSec cfg \<le> 0 then 30 else CfgTimeoutSec cfg)\<rparr>"

text \<open>
  \<open>json.Unmarshal\<close> into a string slice, errors ignored: a slice is the elements of its backing array and
  its length. An element that is no string keeps what the array holds there; an empty array and null start
  a new one.
\<close>

fun fill_strings :: "json list \<Rightarrow> string list \<Rightarrow> string list" where
  "fill_strings [] old = old"
| "fill_strings (v # vs) old =
     (case v of JStr s \<Rightarrow> s | _ \<Rightarrow> (case old of [] \<Rightarrow> [] | x # _ \<Rightarrow> x)) # fill_strings vs (tl old)"

definition decode_strings :: "json \<Rightarrow> string list \<times> nat \<Rightarrow> string list \<times> nat" where
  "decode_strings v = (\<lambda>(array, n). case v of
     JArr vs \<Rightarrow> if vs = [] then ([], 0) else (fill_strings vs array, length vs)
   | JNull \<Rightarrow> ([], 0)
   | _ \<Rightarrow> (array, n))"

definition input_args :: "string \<Rightarrow> string list" where
  "input_args input =
     (case json_parse input of
        Some (JObj ms) \<Rightarrow> (let (array, n) = fold decode_strings (jmatches ''args'' ms) ([], 0) in take n array)
      | _ \<Rightarrow> [])"

definition buildGVisorCommand :: "string list \<Rightarrow> string list" where
  "buildGVisorCommand args = (if args = [] then [''echo'', ''no-op''] else [''runsc'', ''do'', ''--''] @ args)"

definition runtime_mode :: "'d tool_env \<Rightarrow> string" where
  "runtime_mode E = w_getenv (t_web E) ''CODEEXEC_RUNTIME''"

definition buildCommand :: "'d tool_env \<Rightarrow> sandbox \<Rightarrow> tool_call_request \<Rightarrow> 'd \<Rightarrow> string list \<times> 'd" where
  "buildCommand E s c d =
     (let args = input_args (CallInput c)
      in if runtime_mode E = ''gvisor'' then (buildGVisorCommand args, d)
         else if t_linux E
         then (let (u, d1) = t_uuid E d
               in ([''cgexec'', ''-g'', ''memory,cpu:'' @ cgroupPrefix s @ ''_'' @ take 8 u] @ args, d1))
         else (if args = [] then [''echo'', ''no-op''] else args, d))"

definition wasm_path :: "string \<Rightarrow> string result" where
  "wasm_path input = result_bind (unmarshal_obj input) (str_field ''wasm_path'')"

definition runWasm :: "'d tool_env \<Rightarrow> tool_call_request \<Rightarrow> int \<Rightarrow> 'd \<Rightarrow> tool_result \<times> 'd" where
  "runWasm E c start d =
     (case wasm_path (CallInput c) of
        Inl _ \<Rightarrow> (with_error E c start ''wasm_path is required in call input'' d, d)
      | Inr path \<Rightarrow>
          if path = [] then (with_error E c start ''wasm_path is required in call input'' d, d)
          else if \<not> has_suffix path ''.wasm'' then (with_error E c start ''only .wasm binaries are supported'' d, d)
          else case t_mkdir E d of
            (Some e, d1) \<Rightarrow> (with_error E c start (''workspace setup failed: '' @ e) d1, d1)
          | (None, d1) \<Rightarrow>
              (case t_read E path d1 of
                 (Inl e, d2) \<Rightarrow> (with_error E c start e d2, d2)
               | (Inr wasmBytes, d2) \<Rightarrow>
                   (case t_wasi E d2 of
                      (Some e, d3) \<Rightarrow> (with_error E c start (''wasi instantiation failed: '' @ e) d3, d3)
                    | (None, d3) \<Rightarrow>
                        (case t_wasm E wasmBytes d3 of
                           ((stdout, x), d4) \<Rightarrow>
                             (case x of
                                Wasm_Done \<Rightarrow> (with_output E c start stdout d4, d4)
                              | Wasm_Exit code e \<Rightarrow>
                                  if code = 0 then (with_output E c start stdout d4, d4)
                                  else (with_error E c start e d4, d4)
                              | Wasm_Failed e \<Rightarrow> (with_error E c start e d4, d4))))))"

definition sandbox_Run :: "'d tool_env \<Rightarrow> sandbox \<Rightarrow> tool_call_request \<Rightarrow> 'd \<Rightarrow> tool_result \<times> 'd" where
  "sandbox_Run E s c d =
     (let start = t_now E d
      in if runtime_mode E = ''wasm'' then runWasm E c start d
         else (let (cmd, d1) = buildCommand E s c d; ((stdout, stderr, err), d2) = t_exec E cmd [] (timeoutSecs s) d1
               in case err of
                    Some e \<Rightarrow> (with_error E c start (if stderr = [] then e else e @ '': '' @ stderr) d2, d2)
                  | None \<Rightarrow> (with_output E c start stdout d2, d2)))"

section \<open>Plugins\<close>

definition plugin_request :: "string \<Rightarrow> (string \<times> json) list \<Rightarrow> string" where
  "plugin_request name params =
     json_print (JObj [(''tool_name'', JStr name), (''params'', canon (JObj params))])"

definition plugin_response :: "string \<Rightarrow> (string \<times> string) result" where
  "plugin_response out = result_bind (unmarshal_obj out) (\<lambda>ms. result_bind (str_field ''result'' ms) (\<lambda>r.
     result_bind (str_field ''error'' ms) (\<lambda>e. Inr (r, e))))"

definition plugin_Execute ::
  "'d tool_env \<Rightarrow> string \<Rightarrow> int \<Rightarrow> string \<Rightarrow> (string \<times> json) list \<Rightarrow> 'd \<Rightarrow> string result \<times> 'd" where
  "plugin_Execute E binary timeout name params d =
     (case t_exec E [binary] (plugin_request name params) (if timeout \<le> 0 then 5 else timeout) d of
        ((out, stderr, Some e), d1) \<Rightarrow> (Inl (''plugin exec '' @ go_quote binary @ '': '' @ e), d1)
      | ((out, stderr, None), d1) \<Rightarrow>
          (case plugin_response out of
             Inl e \<Rightarrow> (Inl (''plugin decode response from '' @ go_quote binary @ '': '' @ e), d1)
           | Inr (r, e) \<Rightarrow>
               if e \<noteq> [] then (Inl (''plugin '' @ go_quote binary @ '' returned error: '' @ e), d1) else (Inr r, d1)))"

text \<open>An input that is no object counts as no parameters.\<close>

definition plugin_params :: "string \<Rightarrow> (string \<times> json) list" where
  "plugin_params input = (case unmarshal_obj input of Inl _ \<Rightarrow> [] | Inr ms \<Rightarrow> ms)"

definition executePlugin :: "'d tool_env \<Rightarrow> tool \<Rightarrow> tool_call_request \<Rightarrow> 'd \<Rightarrow> tool_result \<times> 'd" where
  "executePlugin E t c d =
     (let start = t_now E d
      in case plugin_Execute E (EndpointURL t) 5 (ToolName t) (plugin_params (CallInput c)) d of
           (Inl e, d1) \<Rightarrow> (with_error E c start e d1, d1)
         | (Inr out, d1) \<Rightarrow> (with_output E c start out d1, d1))"

section \<open>The executors\<close>

definition executeHTTP :: "'d tool_env \<Rightarrow> tool \<Rightarrow> tool_call_request \<Rightarrow> 'd \<Rightarrow> tool_result result \<times> 'd" where
  "executeHTTP E t c d =
     (let start = t_now E d
      in case marshal_raw (CallInput c) of
           Inl e \<Rightarrow> (Inl (''marshal input: '' @ e), d)
         | Inr payload \<Rightarrow>
             if \<not> w_url_ok (t_web E) (EndpointURL t) then (Inl ''create request: invalid URL'', d)
             else case t_post E (EndpointURL t) payload d of
               (Inl e, d1) \<Rightarrow> (Inr (with_error E c start e d1), d1)
             | (Inr (body, Some e), d1) \<Rightarrow> (Inr (with_error E c start e d1), d1)
             | (Inr (body, None), d1) \<Rightarrow> (Inr (with_output E c start body d1), d1))"

definition search_input :: "string \<Rightarrow> (string \<times> int) result" where
  "search_input s = result_bind (unmarshal_obj s) (\<lambda>ms. result_bind (str_field ''query'' ms) (\<lambda>q.
     result_bind (int_field ''max_results'' ms) (\<lambda>n. Inr (q, n))))"

definition fetch_input :: "string \<Rightarrow> (string \<times> int) result" where
  "fetch_input s = result_bind (unmarshal_obj s) (\<lambda>ms. result_bind (str_field ''url'' ms) (\<lambda>u.
     result_bind (int_field ''max_bytes'' ms) (\<lambda>n. Inr (u, n))))"

definition results_json :: "web_result list \<Rightarrow> string" where
  "results_json rs = json_print (if rs = [] then JNull else JArr (map (\<lambda>r.
     JObj [(''title'', JStr (WTitle r)), (''url'', JStr (WURL r)), (''snippet'', JStr (WSnippet r))]) rs))"

definition executeWebSearch ::
  "'d tool_env \<Rightarrow> tool_call_request \<Rightarrow> int \<Rightarrow> ('d, tool_result \<times> learn_task option) prog" where
  "executeWebSearch E c start =
     (case search_input (CallInput c) of
        Inl e \<Rightarrow> grun (\<lambda>d. ((with_error E c start (''invalid input: '' @ e) d, None), d))
      | Inr (query, n) \<Rightarrow>
          if query = [] then grun (\<lambda>d. ((with_error E c start ''query is required'' d, None), d))
          else gbind (web_search (t_web E) (t_learns E) query n) (\<lambda>(r, task). grun (\<lambda>d. case r of
                 Inl e \<Rightarrow> ((with_error E c start e d, task), d)
               | Inr rs \<Rightarrow> ((with_output E c start (results_json rs) d, task), d))))"

definition executeWebFetch ::
  "'d tool_env \<Rightarrow> tool_call_request \<Rightarrow> int \<Rightarrow> 'd \<Rightarrow> (tool_result \<times> learn_task option) \<times> 'd" where
  "executeWebFetch E c start d =
     (case fetch_input (CallInput c) of
        Inl e \<Rightarrow> ((with_error E c start (''invalid input: '' @ e) d, None), d)
      | Inr (u, n) \<Rightarrow>
          if u = [] then ((with_error E c start ''url is required'' d, None), d)
          else case web_fetch (t_web E) (t_learns E) u n d of
            ((Inl e, task), d1) \<Rightarrow> ((with_error E c start e d1, task), d1)
          | ((Inr text, task), d1) \<Rightarrow> ((with_output E c start text d1, task), d1))"

definition executeBuiltin ::
  "'d tool_env \<Rightarrow> tool \<Rightarrow> tool_call_request \<Rightarrow> ('d, tool_result \<times> learn_task option) prog" where
  "executeBuiltin E t c = (\<lambda>d.
     let start = t_now E d
     in if ToolName t = ''web_search'' then executeWebSearch E c start d
        else if ToolName t = ''web_fetch'' then grun (executeWebFetch E c start) d
        else (Ret (with_output E c start (CallInput c) d, None), d))"

section \<open>The dispatcher\<close>

text \<open>The outcome of a call and what it started in the background.\<close>

type_synonym dispatched = "tool_result result \<times> learn_task option"

definition quietly :: "('d \<Rightarrow> tool_result \<times> 'd) \<Rightarrow> ('d, dispatched) prog" where
  "quietly f = gbind (grun f) (\<lambda>r. gret (Inr r, None))"

definition run_tool :: "'d tool_env \<Rightarrow> sandbox \<Rightarrow> tool \<Rightarrow> tool_call_request \<Rightarrow> ('d, dispatched) prog" where
  "run_tool E s t c =
     (if ExecutorType t = ''builtin'' then gbind (executeBuiltin E t c) (\<lambda>(r, task). gret (Inr r, task))
      else if ExecutorType t = ''subprocess'' then
        (case preDispatchFilter c of Some e \<Rightarrow> gret (Inl e, None) | None \<Rightarrow> quietly (sandbox_Run E s c))
      else if ExecutorType t = ''http'' then gbind (grun (executeHTTP E t c)) (\<lambda>r. gret (r, None))
      else if ExecutorType t = ''plugin'' then
        (case preDispatchFilter c of Some e \<Rightarrow> gret (Inl e, None) | None \<Rightarrow> quietly (executePlugin E t c))
      else gret (Inl (''unknown executor type: '' @ ExecutorType t), None))"

text \<open>A program over the world of the store, beside the cache of the registry.\<close>

definition on_store :: "('d, 'a) prog \<Rightarrow> (registry \<times> 'd, 'a) prog" where
  "on_store m = (\<lambda>(cache, d). case m d of (r, d1) \<Rightarrow> (r, cache, d1))"

definition Execute :: "'d tool_env \<Rightarrow> sandbox \<Rightarrow> tool_call_request \<Rightarrow> (registry \<times> 'd, dispatched) prog" where
  "Execute E s c =
     (if CallTool c = ''web_search'' then
        on_store (\<lambda>d. gbind (executeWebSearch E c (t_now E d)) (\<lambda>(r, task). gret (Inr r, task)) d)
      else if CallTool c = ''web_fetch'' then
        on_store (\<lambda>d. gbind (grun (executeWebFetch E c (t_now E d))) (\<lambda>(r, task). gret (Inr r, task)) d)
      else gbind (grun (reg_Get (t_store E) (CallTool c))) (\<lambda>g. case g of
        Inl e \<Rightarrow> gret (Inl (''tool not found: '' @ e), None)
      | Inr t \<Rightarrow> on_store (run_tool E s t c)))"

end
