(* ===== verification/MCP_Server.thy ===== *)
theory MCP_Server
  imports Dispatcher
begin

text \<open>
  The server of the model context protocol, \<open>internal/mcp/server.go\<close>, \<open>types.go\<close> and \<open>adapter.go\<close>, over the
  registry and the dispatcher, and its endpoint \<open>internal/gateway/mcp.go\<close>.

  A body is a text in both directions. The id and the parameters of a request keep their text.
\<close>

definition ProtocolVersion :: string where "ProtocolVersion = ''2024-11-05''"

definition ErrParse :: int where "ErrParse = - 32700"
definition ErrInvalidRequest :: int where "ErrInvalidRequest = - 32600"
definition ErrMethodNotFound :: int where "ErrMethodNotFound = - 32601"
definition ErrInvalidParams :: int where "ErrInvalidParams = - 32602"

section \<open>Envelopes\<close>

record rpc_request =
  RpcVersion :: string
  RpcID :: "string option"
  RpcMethod :: string
  RpcParams :: "string option"

definition parse_request :: "string \<Rightarrow> rpc_request result" where
  "parse_request body =
     result_bind (unmarshal_obj body) (\<lambda>ms. result_bind (str_field ''jsonrpc'' ms) (\<lambda>v.
       result_bind (str_field ''method'' ms) (\<lambda>m.
         Inr \<lparr>RpcVersion = v, RpcID = raw_text ''id'' body, RpcMethod = m, RpcParams = raw_text ''params'' body\<rparr>)))"

text \<open>A result that is nil is omitted; an id that cannot be marshalled leaves an empty body.\<close>

definition response_text :: "string option \<Rightarrow> (string \<times> json) list \<Rightarrow> string" where
  "response_text rpcid outcome =
     (case marshal_raw (case rpcid of None \<Rightarrow> [] | Some t \<Rightarrow> t) of
        Inl _ \<Rightarrow> []
      | Inr t \<Rightarrow> ''{'' @ join '','' ([json_quote ''jsonrpc'' @ '':'' @ json_quote ''2.0'', json_quote ''id'' @ '':'' @ t]
                 @ map (\<lambda>(k, v). json_quote k @ '':'' @ json_print v) outcome) @ ''}'')"

definition okResponse :: "string option \<Rightarrow> json option \<Rightarrow> string" where
  "okResponse rpcid res = response_text rpcid (case res of None \<Rightarrow> [] | Some v \<Rightarrow> [(''result'', v)])"

definition errResponse :: "string option \<Rightarrow> int \<Rightarrow> string \<Rightarrow> string" where
  "errResponse rpcid code message =
     response_text rpcid [(''error'', JObj [(''code'', JInt code), (''message'', JStr message)])]"

section \<open>Results\<close>

definition initialize_result :: json where
  "initialize_result = JObj [(''protocolVersion'', JStr ProtocolVersion),
     (''serverInfo'', JObj [(''name'', JStr ''caw''), (''version'', JStr ''1.0.0'')]),
     (''capabilities'', JObj [(''tools'', JObj [(''listChanged'', JBool False)])])]"

definition mcp_tool :: "string \<Rightarrow> string \<Rightarrow> json \<Rightarrow> json" where
  "mcp_tool name description schema =
     JObj [(''name'', JStr name), (''description'', JStr description), (''inputSchema'', schema)]"

definition builtinWebSearch :: json where
  "builtinWebSearch = mcp_tool ''web_search''
     ''Search the web for current information. Results are automatically ingested into the RAG knowledge base so future queries benefit from what was learned.''
     (JObj [(''properties'', JObj [
         (''max_results'', JObj [(''default'', JInt 5), (''description'', JStr ''Maximum number of results (default 5)''), (''type'', JStr ''integer'')]),
         (''query'', JObj [(''description'', JStr ''Search query''), (''type'', JStr ''string'')])]),
       (''required'', JArr [JStr ''query'']), (''type'', JStr ''object'')])"

definition builtinWebFetch :: json where
  "builtinWebFetch = mcp_tool ''web_fetch''
     ''Fetch and read the content of a URL as plain text. Content is automatically ingested into the RAG knowledge base for future retrieval.''
     (JObj [(''properties'', JObj [
         (''max_bytes'', JObj [(''description'', JStr ''Maximum bytes to read (default 32768)''), (''type'', JStr ''integer'')]),
         (''url'', JObj [(''description'', JStr ''URL to fetch''), (''type'', JStr ''string'')])]),
       (''required'', JArr [JStr ''url'']), (''type'', JStr ''object'')])"

text \<open>A schema that is absent, null or not JSON is replaced by the empty object schema.\<close>

definition listed_schema :: "string option \<Rightarrow> json" where
  "listed_schema s =
     (case (case s of None \<Rightarrow> None | Some t \<Rightarrow> json_parse t) of
        None \<Rightarrow> JObj [(''type'', JStr ''object'')]
      | Some v \<Rightarrow> if v = JNull then JObj [(''type'', JStr ''object'')] else canon v)"

definition listed_tool :: "tool \<Rightarrow> json" where
  "listed_tool t = mcp_tool (ToolName t) (ToolDescription t) (listed_schema (InputSchema t))"

definition handleToolsList :: "'d tool_env \<Rightarrow> string option \<Rightarrow> registry \<times> 'd \<Rightarrow> string \<times> (registry \<times> 'd)" where
  "handleToolsList E rpcid = (\<lambda>(cache, d).
     case reg_List (t_store E) d of
       (Inl e, d1) \<Rightarrow> (errResponse rpcid (- 32000) (''list tools: '' @ e), cache, d1)
     | (Inr ts, d1) \<Rightarrow>
         (okResponse rpcid (Some (JObj [(''tools'', JArr (map listed_tool ts @ [builtinWebSearch, builtinWebFetch]))])),
          cache, d1))"

definition call_result :: "string \<Rightarrow> bool \<Rightarrow> json" where
  "call_result t isError =
     JObj ([(''content'', JArr [JObj [(''type'', JStr ''text''), (''text'', JStr t)]])]
       @ (if isError then [(''isError'', JBool True)] else []))"

definition outcome_json :: "tool_result result \<Rightarrow> json" where
  "outcome_json r = (case r of
     Inl e \<Rightarrow> call_result (''error: '' @ e) True
   | Inr res \<Rightarrow> if ResError res \<noteq> [] then call_result (ResError res) True else call_result (ResOutput res) False)"

text \<open>The parameters of a call: the name and the text of the arguments.\<close>

definition call_params :: "string option \<Rightarrow> (string \<times> string) result" where
  "call_params params =
     (let p = (case params of None \<Rightarrow> [] | Some t \<Rightarrow> t) in
      result_bind (unmarshal_obj p) (\<lambda>ms. result_bind (str_field ''name'' ms) (\<lambda>n.
        Inr (n, case raw_text ''arguments'' p of None \<Rightarrow> ''{}'' | Some a \<Rightarrow> a))))"

definition handleToolsCall ::
  "'d tool_env \<Rightarrow> sandbox \<Rightarrow> rpc_request \<Rightarrow> (registry \<times> 'd, string \<times> learn_task option) prog" where
  "handleToolsCall E s req =
     (case call_params (RpcParams req) of
        Inl e \<Rightarrow> gret (errResponse (RpcID req) ErrInvalidParams (''invalid params: '' @ e), None)
      | Inr (name, args) \<Rightarrow>
          if name = [] then gret (errResponse (RpcID req) ErrInvalidParams ''name is required'', None)
          else gbind (Execute E s \<lparr>CallID = ''mcp-'' @ name, CallTool = name, CallInput = args\<rparr>) (\<lambda>(r, task).
                 gret (okResponse (RpcID req) (Some (outcome_json r)), task)))"

section \<open>The server\<close>

definition handle_method ::
  "'d tool_env \<Rightarrow> sandbox \<Rightarrow> rpc_request \<Rightarrow> (registry \<times> 'd, string \<times> learn_task option) prog" where
  "handle_method E s req =
     (let m = RpcMethod req; i = RpcID req in
      if m = ''initialize'' then gret (okResponse i (Some initialize_result), None)
      else if m = ''initialized'' then gret (okResponse i None, None)
      else if m = ''tools/list'' then gbind (grun (handleToolsList E i)) (\<lambda>t. gret (t, None))
      else if m = ''tools/call'' then handleToolsCall E s req
      else if m = ''ping'' then gret (okResponse i (Some (JObj [])), None)
      else gret (errResponse i ErrMethodNotFound (''method not found: '' @ m), None))"

definition mcp_Handle ::
  "'d tool_env \<Rightarrow> sandbox \<Rightarrow> string \<Rightarrow> (registry \<times> 'd, string \<times> learn_task option) prog" where
  "mcp_Handle E s body =
     (case parse_request body of
        Inl e \<Rightarrow> gret (errResponse None ErrParse (''parse error: '' @ e), None)
      | Inr req \<Rightarrow>
          if RpcVersion req \<noteq> ''2.0''
          then gret (errResponse (RpcID req) ErrInvalidRequest (''jsonrpc must be '' @ json_quote ''2.0''), None)
          else handle_method E s req)"

definition MCPHandler ::
  "'d tool_env \<Rightarrow> sandbox \<Rightarrow> string \<Rightarrow> (registry \<times> 'd, reply \<times> learn_task option) prog" where
  "MCPHandler E s body =
     gbind (mcp_Handle E s body) (\<lambda>(t, task).
       gret (\<lparr>ReplyStatus = 200, ReplyHeaders = [(''Content-Type'', ''application/json'')], ReplyBody = TextBody t\<rparr>, task))"

end
