(* ===== verification/Dispatcher_Props.thy ===== *)
theory Dispatcher_Props
  imports Dispatcher
begin

text \<open>
  What callers of the dispatcher get, and how much the filter of dangerous commands is worth.
\<close>

section \<open>Results\<close>

definition result_of :: "tool_call_request \<Rightarrow> tool_result \<Rightarrow> bool" where
  "result_of c r \<longleftrightarrow> ResCallID r = CallID c \<and> (ResOutput r = [] \<or> ResError r = [])"

lemma result_of_simps [simp]: "result_of c (with_output E c start out d)" "result_of c (with_error E c start err d)"
  by (simp_all add: result_of_def with_output_def with_error_def)

lemma result_of_runWasm: "result_of c (fst (runWasm E c start d))"
  by (simp add: runWasm_def split: sum.split option.split prod.split wasm_exit.split)

lemma result_of_sandbox: "result_of c (fst (sandbox_Run E s c d))"
  by (simp add: sandbox_Run_def result_of_runWasm Let_def split: option.split prod.split)

lemma result_of_plugin: "result_of c (fst (executePlugin E t c d))"
  by (simp add: executePlugin_def Let_def split: sum.split prod.split)

lemma result_of_http: "executeHTTP E t c d = (Inr r, d1) \<Longrightarrow> result_of c r"
  by (auto simp: executeHTTP_def Let_def split: sum.splits prod.splits option.splits if_splits)

text \<open>A tool of the web also says what it learns, and panics only if the search does.\<close>

definition web_outcome :: "'d tool_env \<Rightarrow> tool_call_request \<Rightarrow> (tool_result \<times> learn_task option) go \<Rightarrow> bool" where
  "web_outcome E c x \<longleftrightarrow> (case x of Panic _ \<Rightarrow> w_getenv (t_web E) ''SEARCH_PROVIDER'' = ''searxng''
     | Ret (r, task) \<Rightarrow> result_of c r \<and> (task = None \<or> t_learns E \<and> ResError r = []))"

lemma web_search_outcome:
  "case fst (web_search E learns q n w) of
     Panic _ \<Rightarrow> w_getenv E ''SEARCH_PROVIDER'' = ''searxng''
   | Ret (r, task) \<Rightarrow> task = None \<or> learns \<and> (\<exists>rs. r = Inr rs)"
proof -
  define m where "m = (if w_getenv E ''SEARCH_PROVIDER'' = ''brave'' then searchBrave E q (search_limit n)
      else if w_getenv E ''SEARCH_PROVIDER'' = ''searxng'' then searchSearXNG E q (search_limit n) else searchDDG E q (search_limit n))"
  have "\<exists>r. fst (m w) = Ret r" if "w_getenv E ''SEARCH_PROVIDER'' \<noteq> ''searxng''"
    using that by (auto simp: m_def searchBrave_def searchDDG_def Let_def)
  moreover obtain x w1 where "m w = (x, w1)" by fastforce
  ultimately show ?thesis
    unfolding web_search_def Let_def m_def [symmetric] gbind_def by (cases x) (auto split: sum.split)
qed

lemma executeWebSearch_outcome: "web_outcome E c (fst (executeWebSearch E c start d))"
proof (cases "search_input (CallInput c)")
  case (Inr p)
  obtain q n where p: "p = (q, n)" by fastforce
  obtain x d1 where w: "web_search (t_web E) (t_learns E) q n d = (x, d1)" by fastforce
  from web_search_outcome [where E = "t_web E" and learns = "t_learns E" and q = q and n = n and w = d] w show ?thesis
    by (cases x) (auto simp: executeWebSearch_def web_outcome_def Inr p gbind_def w with_output_def result_of_def
        with_error_def split: sum.split)
qed (simp add: executeWebSearch_def web_outcome_def)

lemma executeWebFetch_outcome: "web_outcome E c (Ret (fst (executeWebFetch E c start d)))"
  by (auto simp: executeWebFetch_def web_fetch_def web_outcome_def with_output_def with_error_def result_of_def Let_def
      split: sum.split prod.split option.split if_splits)

lemma executeBuiltin_outcome: "web_outcome E c (fst (executeBuiltin E t c d))"
  using executeWebSearch_outcome [of E c "t_now E d" d] executeWebFetch_outcome [of E c "t_now E d" d]
  by (simp add: executeBuiltin_def Let_def) (simp add: web_outcome_def)

definition dispatch_outcome :: "'d tool_env \<Rightarrow> tool_call_request \<Rightarrow> dispatched go \<Rightarrow> bool" where
  "dispatch_outcome E c x \<longleftrightarrow> (case x of Panic _ \<Rightarrow> w_getenv (t_web E) ''SEARCH_PROVIDER'' = ''searxng''
     | Ret (Inl e, task) \<Rightarrow> task = None
     | Ret (Inr r, task) \<Rightarrow> ResCallID r = CallID c \<and> (ResOutput r = [] \<or> ResError r = [])
         \<and> (task = None \<or> t_learns E \<and> ResError r = []))"

lemma web_dispatch:
  "web_outcome E c (fst (m d)) \<Longrightarrow> dispatch_outcome E c (fst (gbind m (\<lambda>(r, task). gret (Inr r, task)) d))"
  by (auto simp: web_outcome_def dispatch_outcome_def result_of_def gbind_def split: go.splits prod.splits)

lemma quietly_dispatch: "result_of c (fst (f d)) \<Longrightarrow> dispatch_outcome E c (fst (quietly f d))"
  by (cases "f d") (simp add: quietly_def gbind_def dispatch_outcome_def result_of_def grun_def)

lemma run_tool_outcome: "dispatch_outcome E c (fst (run_tool E s t c d))"
proof -
  have h: "dispatch_outcome E c (fst (gbind (grun (executeHTTP E t c)) (\<lambda>r. gret (r, None)) d))"
    using result_of_http [of E t c d]
    by (auto simp: gbind_def grun_def dispatch_outcome_def result_of_def split: prod.split sum.split)
  show ?thesis
    using web_dispatch [OF executeBuiltin_outcome] quietly_dispatch [OF result_of_sandbox]
      quietly_dispatch [OF result_of_plugin] h
    by (auto simp: run_tool_def dispatch_outcome_def [of _ _ "Ret (Inl _, None)"] split: option.split)
qed

lemma fst_on_store [simp]: "fst (on_store m (cache, d)) = fst (m d)"
  by (simp add: on_store_def split: prod.split)

lemma Execute_outcome: "dispatch_outcome E c (fst (Execute E s c (cache, d)))"
proof -
  have web: "dispatch_outcome E c (fst (gbind m (\<lambda>(r, task). gret (Inr r, task)) d))" if "web_outcome E c (fst (m d))" for m
    using that by (rule web_dispatch)
  have fetch: "web_outcome E c (fst (grun (executeWebFetch E c (t_now E d)) d))"
    using executeWebFetch_outcome by simp
  show ?thesis
  proof (cases "CallTool c = ''web_search'' \<or> CallTool c = ''web_fetch''")
    case True
    with web [of "executeWebSearch E c (t_now E d)"] web [of "grun (executeWebFetch E c (t_now E d))"] fetch
      executeWebSearch_outcome [of E c "t_now E d" d] show ?thesis by (auto simp: Execute_def)
  next
    case False
    obtain g cache1 d1 where "reg_Get (t_store E) (CallTool c) (cache, d) = (g, cache1, d1)" by (metis prod.exhaust)
    with False run_tool_outcome show ?thesis
      by (cases g) (simp_all add: Execute_def gbind_def, simp add: dispatch_outcome_def)
  qed
qed

text \<open>
  A call of a tool ends with an error or with a result that carries the id of the call and holds an
  output or an error text, never both; only a tool of the web that succeeded starts learning, and only when
  learning is on. It panics only with SearXNG as the search provider.
\<close>

theorem tool_results_carry_their_call:
  "case fst (Execute E s c (cache, d)) of
     Panic _ \<Rightarrow> w_getenv (t_web E) ''SEARCH_PROVIDER'' = ''searxng''
   | Ret (Inl e, task) \<Rightarrow> task = None
   | Ret (Inr r, task) \<Rightarrow> ResCallID r = CallID c \<and> (ResOutput r = [] \<or> ResError r = [])
       \<and> (task = None \<or> t_learns E \<and> ResError r = [])"
  using Execute_outcome [of E c s cache d] unfolding dispatch_outcome_def .

section \<open>The filter\<close>

text \<open>A string literal with every character escaped, and the arguments of a command in such literals.\<close>

definition u_escape :: "char \<Rightarrow> string" where
  "u_escape c = CHR 0x5C # CHR ''u'' # hex_pad 4 (of_char c)"

definition u_quote :: "string \<Rightarrow> string" where
  "u_quote s = CHR 0x22 # concat (map u_escape s) @ [CHR 0x22]"

definition u_args :: "string list \<Rightarrow> string" where
  "u_args args = ''{'' @ u_quote ''args'' @ '':['' @ join '','' (map u_quote args) @ '']}''"

definition hex_chars :: "char list" where
  "hex_chars = ''{}[]:,u0123456789abcdef'' @ [CHR 0x22, CHR 0x5C]"

definition hex_text :: "string \<Rightarrow> bool" where
  "hex_text s \<longleftrightarrow> set s \<subseteq> set hex_chars"

lemma json_str_u_quote:
  "ascii s \<Longrightarrow> json_str (concat (map u_escape s) @ CHR 0x22 # r) = Some (s, r)"
proof (induction s)
  case (Cons c s)
  then have "(of_char c :: nat) < 128" "ascii s" by (simp_all add: ascii_def)
  then show ?case
    using Cons.IH by (simp add: u_escape_def json_str_escape [OF escape_u [of c, simplified]] del: hex_pad.simps)
qed simp

lemma json_value_u_quote: "0 < n \<Longrightarrow> ascii s \<Longrightarrow> json_value n (u_quote s @ r) = Some (JStr s, r)"
  by (cases n) (simp_all add: u_quote_def json_str_u_quote)

lemma json_elems_u_quote:
  "args \<noteq> [] \<Longrightarrow> list_all ascii args \<Longrightarrow> length args < n \<Longrightarrow>
   json_elems n (join '','' (map u_quote args) @ CHR 0x5D # r) = Some (map JStr args, r)"
proof (induction args arbitrary: n)
  case (Cons a args)
  then obtain m where n: "n = Suc m" "0 < m" by (cases n) auto
  show ?case
  proof (cases "args = []")
    case True
    with Cons n show ?thesis by (simp add: json_value_u_quote)
  next
    case False
    with Cons n show ?thesis by (simp add: join_Cons json_value_u_quote)
  qed
qed simp

lemma length_join_u: "length args \<le> length (join '','' (map u_quote args))"
  by (induction args) (auto simp: join_Cons u_quote_def)

lemma json_parse_u_args:
  assumes "args \<noteq> []" and "list_all ascii args"
  shows "json_parse (u_args args) = Some (JObj [(''args'', JArr (map JStr args))])"
proof -
  let ?els = "join '','' (map u_quote args)"
  let ?key = "concat (map u_escape ''args'')"
  have "\<exists>e. ?els = CHR 0x22 # e"
    using assms(1) by (cases args) (simp_all add: join_Cons u_quote_def)
  then obtain e where e: "?els = CHR 0x22 # e" by blast
  define n where "n = json_fuel (u_args args)"
  have n: "length args + 3 < n"
    using length_join_u [of args] by (simp add: n_def json_fuel_def u_args_def)
  define m where "m = n - 3"
  from n have m: "n = Suc (Suc (Suc m))" by (simp add: m_def)
  with n have els: "json_elems m (?els @ CHR 0x5D # r) = Some (map JStr args, r)" for r
    using json_elems_u_quote [OF assms] by simp
  have arr: "json_value (Suc m) (CHR 0x5B # ?els @ CHR 0x5D # r) = Some (JArr (map JStr args), r)" for r
    using els [of r] by (simp add: e)
  have "json_members (Suc (Suc m)) (CHR 0x22 # ?key @ CHR 0x22 # CHR '':'' # CHR 0x5B # ?els @ [CHR 0x5D, CHR 0x7D])
      = Some ([(''args'', JArr (map JStr args))], [])"
    using arr [of "[CHR 0x7D]"] json_str_u_quote [of "''args''"] by (simp add: ascii_def del: list.map concat.simps json_value.simps)
  moreover have "u_args args = CHR 0x7B # CHR 0x22 # ?key @ CHR 0x22 # CHR '':'' # CHR 0x5B # ?els @ [CHR 0x5D, CHR 0x7D]"
    by (simp add: u_args_def u_quote_def del: list.map concat.simps)
  ultimately have "json_value n (u_args args) = Some (JObj [(''args'', JArr (map JStr args))], [])"
    unfolding m by (simp del: json_members.simps list.map concat.simps)
  then show ?thesis by (simp add: json_parse_def n_def skip_ws_def)
qed

text \<open>No token of the filter can be spelled with the characters of such a text.\<close>

lemma hex_chars_mem [simp]:
  "CHR 0x22 \<in> set hex_chars" "CHR 0x5C \<in> set hex_chars" "CHR ''u'' \<in> set hex_chars" "CHR ''{'' \<in> set hex_chars"
  "CHR ''}'' \<in> set hex_chars" "CHR ''['' \<in> set hex_chars" "CHR '']'' \<in> set hex_chars"
  "CHR '':'' \<in> set hex_chars" "CHR '','' \<in> set hex_chars"
  by (simp_all add: hex_chars_def)

lemma hex_char_text: "n < 16 \<Longrightarrow> hex_char n \<in> set hex_chars"
proof -
  assume "n < 16"
  then have "n \<in> set [0..<16]" by simp
  moreover have "\<forall>n \<in> set [0..<16]. hex_char n \<in> set hex_chars" by code_simp
  ultimately show ?thesis by blast
qed

lemma hex_text_simps [simp]:
  "hex_text []" "hex_text (c # s) \<longleftrightarrow> c \<in> set hex_chars \<and> hex_text s" "hex_text (s @ t) \<longleftrightarrow> hex_text s \<and> hex_text t"
  by (simp_all add: hex_text_def)

lemma hex_text_pad: "hex_text (hex_pad k n)"
  by (induction k arbitrary: n) (simp_all add: hex_char_text)

lemma hex_text_u_quote: "hex_text (u_quote s)"
proof -
  have "hex_text (u_escape c)" for c unfolding u_escape_def by (simp add: hex_text_pad del: hex_pad.simps)
  then have "hex_text (concat (map u_escape s))" by (induction s) simp_all
  then show ?thesis by (simp add: u_quote_def)
qed

lemma hex_text_u_args: "hex_text (u_args args)"
proof -
  have "hex_text (join '','' (map u_quote args))"
    by (induction args) (simp_all add: join_Cons hex_text_u_quote)
  then show ?thesis by (simp add: u_args_def hex_text_u_quote)
qed

lemma hex_text_lower: "hex_text s \<Longrightarrow> to_lower s = s"
proof -
  have "\<forall>c \<in> set hex_chars. lower_char c = c" by code_simp
  then show "hex_text s \<Longrightarrow> to_lower s = s"
    unfolding hex_text_def to_lower_def by (intro map_idI) blast
qed

lemma hex_text_passes: "hex_text (CallInput c) \<Longrightarrow> preDispatchFilter c = None"
proof -
  assume h: "hex_text (CallInput c)"
  have "\<forall>token \<in> set blockedTokens. \<not> hex_text token" by code_simp
  moreover have "hex_text token" if "contains (CallInput c) token" for token
    using that h by (auto simp: contains_iff)
  ultimately show ?thesis using h by (simp add: preDispatchFilter_def hex_text_lower find_None_iff split: option.split) blast
qed

lemma input_args_u_args:
  assumes "args \<noteq> []" and "list_all ascii args"
  shows "input_args (u_args args) = args"
proof -
  have "fill_strings (map JStr xs) [] = xs" for xs by (induction xs) simp_all
  then show ?thesis
    using assms(1) by (simp add: input_args_def json_parse_u_args [OF assms] jmatches_def decode_strings_def)
qed

text \<open>
  The filter of dangerous commands stops none. For any command of ASCII arguments there is an input
  with which the filter lets a subprocess tool run and from which the sandbox builds exactly that command
  behind its own wrapper, because the filter reads the text of the JSON and the sandbox its values.
\<close>

theorem filter_is_bypassed:
  assumes "args \<noteq> []" and "list_all ascii args" and "ExecutorType t = ''subprocess''"
  shows "\<exists>input. run_tool E s t (c\<lparr>CallInput := input\<rparr>) = quietly (sandbox_Run E s (c\<lparr>CallInput := input\<rparr>))
    \<and> (\<forall>d. \<exists>wrapper. fst (buildCommand E s (c\<lparr>CallInput := input\<rparr>) d) = wrapper @ args)"
proof (intro exI [of _ "u_args args"] conjI allI)
  let ?c = "c\<lparr>CallInput := u_args args\<rparr>"
  have "preDispatchFilter ?c = None" by (rule hex_text_passes) (simp add: hex_text_u_args)
  then show "run_tool E s t ?c = quietly (sandbox_Run E s ?c)" by (simp add: run_tool_def assms(3))
  fix d
  show "\<exists>wrapper. fst (buildCommand E s ?c d) = wrapper @ args"
    using assms(1) by (auto simp: buildCommand_def input_args_u_args [OF assms(1,2)] buildGVisorCommand_def Let_def split: prod.split)
qed

section \<open>A machine\<close>

definition quiet_web :: "pgdb web_env" where
  "quiet_web = \<lparr>w_getenv = (\<lambda>_. []), w_url_ok = (\<lambda>_. True), w_get = (\<lambda>u hs d. (Inl ''offline'', d))\<rparr>"

text \<open>Its processes print their command line.\<close>

definition echo_machine :: "pgdb tool_env" where
  "echo_machine = \<lparr>t_store = pgToolStoreAdapter calm_pg in_order, t_web = quiet_web, t_learns = False, t_linux = True,
     t_now = (\<lambda>d. 0), t_uuid = (\<lambda>d. (''0123456789'', d)), t_exec = (\<lambda>cmd input limit d. ((join '' '' cmd, [], None), d)),
     t_post = (\<lambda>u body d. (Inl ''offline'', d)), t_mkdir = (\<lambda>d. (None, d)), t_read = (\<lambda>path d. (Inl ''no such file'', d)),
     t_wasi = (\<lambda>d. (None, d)), t_wasm = (\<lambda>code d. (([], Wasm_Done), d))\<rparr>"

definition shell_tool :: tool where
  "shell_tool = echo_tool\<lparr>ToolName := ''sh'', ExecutorType := ''subprocess''\<rparr>"

abbreviation shell_call :: "string \<Rightarrow> tool_call_request" where
  "shell_call input \<equiv> \<lparr>CallID = ''1'', CallTool = ''sh'', CallInput = input\<rparr>"

abbreviation plain_sandbox :: sandbox where
  "plain_sandbox \<equiv> NewSandbox \<lparr>CfgMemLimitMB = 0, CfgCPUShares = 0, CfgTimeoutSec = 0\<rparr>"

lemma filter_is_bypassed_witness:
  "\<exists>input. run_tool echo_machine plain_sandbox shell_tool (shell_call input) = quietly (sandbox_Run echo_machine plain_sandbox (shell_call input))
     \<and> (\<exists>wrapper. fst (buildCommand echo_machine plain_sandbox (shell_call input) empty_tools) = wrapper @ [''rm'', ''-rf'', ''/''])"
  using filter_is_bypassed [of "[''rm'', ''-rf'', ''/'']" shell_tool echo_machine plain_sandbox "shell_call []"]
  by (force simp: ascii_def shell_tool_def)

end
