(* ===== verification/MCP_Props.thy ===== *)
theory MCP_Props
  imports MCP_Server Dispatcher_Props
begin

text \<open>
  What a client of the protocol server can rely on, and what it can do with tools it is not shown.
\<close>

section \<open>Replies\<close>

lemma response_text_json:
  assumes "wf_json i" and "list_all (\<lambda>(k, v). wf_json v) out"
  shows "json_parse (response_text (Some (json_print i)) out)
    = Some (JObj ([(''jsonrpc'', JStr ''2.0''), (''id'', i)] @ out))"
proof -
  have "response_text (Some (json_print i)) out = json_print (JObj ([(''jsonrpc'', JStr ''2.0''), (''id'', i)] @ out))"
    by (simp add: response_text_def marshal_raw_print [OF assms(1)])
  with json_parse_print [of "JObj ([(''jsonrpc'', JStr ''2.0''), (''id'', i)] @ out)"] assms show ?thesis
    by (simp del: json_print.simps)
qed

lemma wf_listed_tool: "wf_json (listed_tool t)"
  by (auto simp: listed_tool_def mcp_tool_def listed_schema_def intro: wf_json_canon json_parse_wf split: option.splits)

lemma wf_builtins: "wf_json builtinWebSearch" "wf_json builtinWebFetch" "wf_json initialize_result"
  by (simp_all add: builtinWebSearch_def builtinWebFetch_def mcp_tool_def initialize_result_def)

lemma wf_outcome_json: "wf_json (outcome_json r)"
  by (simp add: outcome_json_def call_result_def split: sum.split)

text \<open>The members that may follow the id in a reply to a method.\<close>

definition rpc_error :: "int \<Rightarrow> (string \<times> json) list \<Rightarrow> bool" where
  "rpc_error code out \<longleftrightarrow> (\<exists>m. out = [(''error'', JObj [(''code'', JInt code), (''message'', JStr m)])])"

definition rpc_outcome :: "string \<Rightarrow> (string \<times> json) list \<Rightarrow> bool" where
  "rpc_outcome m out \<longleftrightarrow>
     (if m = ''initialized'' then out = []
      else if m = ''initialize'' \<or> m = ''ping'' then \<exists>r. out = [(''result'', r)]
      else if m = ''tools/list'' then (\<exists>r. out = [(''result'', r)]) \<or> rpc_error (- 32000) out
      else if m = ''tools/call'' then (\<exists>r. out = [(''result'', r)]) \<or> rpc_error ErrInvalidParams out
      else rpc_error ErrMethodNotFound out)"

definition replies :: "json \<Rightarrow> string \<Rightarrow> string \<Rightarrow> bool" where
  "replies i m t \<longleftrightarrow> (\<exists>out. json_parse t = Some (JObj ([(''jsonrpc'', JStr ''2.0''), (''id'', i)] @ out)) \<and> rpc_outcome m out)"

lemma replies_ok:
  assumes "wf_json i" and "wf_json r" and "rpc_outcome m [(''result'', r)]"
  shows "replies i m (okResponse (Some (json_print i)) (Some r))"
  unfolding replies_def okResponse_def
  using response_text_json [OF assms(1), of "[(''result'', r)]"] assms(2,3) by auto

lemma replies_err:
  assumes "wf_json i" and "\<And>x. rpc_outcome m [(''error'', JObj [(''code'', JInt code), (''message'', JStr x)])]"
  shows "replies i m (errResponse (Some (json_print i)) code x)"
  unfolding replies_def errResponse_def
  using response_text_json [OF assms(1), of "[(''error'', JObj [(''code'', JInt code), (''message'', JStr x)])]"] assms(2) by auto

lemma replies_empty: "wf_json i \<Longrightarrow> replies i ''initialized'' (okResponse (Some (json_print i)) None)"
  using response_text_json [of i "[]"] by (auto simp: replies_def okResponse_def rpc_outcome_def)

lemma replies_list:
  assumes "wf_json i"
  shows "replies i ''tools/list'' (fst (handleToolsList E (Some (json_print i)) (cache, d)))"
proof -
  have "wf_json (JObj [(''tools'', JArr (map listed_tool ts @ [builtinWebSearch, builtinWebFetch]))])" for ts
    by (simp add: wf_builtins list_all_iff wf_listed_tool)
  then show ?thesis
    using assms by (auto simp: handleToolsList_def rpc_outcome_def rpc_error_def intro!: replies_ok replies_err
        split: prod.split sum.split simp del: wf_json.simps)
qed

lemma replies_call:
  assumes "wf_json i"
  shows "RpcID req = Some (json_print i) \<Longrightarrow> case fst (handleToolsCall E s req (cache, d)) of
      Panic _ \<Rightarrow> w_getenv (t_web E) ''SEARCH_PROVIDER'' = ''searxng'' | Ret (t, task) \<Rightarrow> replies i ''tools/call'' t"
proof -
  assume rid: "RpcID req = Some (json_print i)"
  have err: "replies i ''tools/call'' (errResponse (Some (json_print i)) ErrInvalidParams x)" for x
    by (rule replies_err [OF assms]) (simp add: rpc_outcome_def rpc_error_def)
  have ok: "replies i ''tools/call'' (okResponse (Some (json_print i)) (Some (outcome_json r)))" for r
    by (rule replies_ok [OF assms wf_outcome_json]) (simp add: rpc_outcome_def)
  show ?thesis
  proof (cases "\<exists>name args. call_params (RpcParams req) = Inr (name, args) \<and> name \<noteq> []")
    case True
    then obtain name args where n: "call_params (RpcParams req) = Inr (name, args)" "name \<noteq> []" by blast
    define c where "c = \<lparr>CallID = ''mcp-'' @ name, CallTool = name, CallInput = args\<rparr>"
    have h: "handleToolsCall E s req = gbind (Execute E s c) (\<lambda>(r, task). gret (okResponse (Some (json_print i)) (Some (outcome_json r)), task))"
      by (simp add: handleToolsCall_def n rid c_def)
    obtain x st where x: "Execute E s c (cache, d) = (x, st)" by (metis prod.exhaust)
    from Execute_outcome [of E c s cache d] show ?thesis
      by (cases x) (auto simp: h gbind_def x ok dispatch_outcome_def)
  next
    case False
    then show ?thesis by (auto simp: handleToolsCall_def rid err split: sum.split prod.split)
  qed
qed

text \<open>
  C33. Every request of JSON-RPC 2.0 gets a reply that is valid JSON, carries the version and the id of the
  request, and holds a result for the methods of the protocol, the error of its kind where the arguments or
  the registry are at fault, and \<open>method not found\<close> otherwise; only the notification \<open>initialized\<close> gets
  neither.
\<close>

theorem mcp_reply_answers_the_request:
  assumes "wf_json i" and "wf_json p"
    and "body = json_print (JObj [(''jsonrpc'', JStr ''2.0''), (''id'', i), (''method'', JStr m), (''params'', p)])"
  shows "case fst (mcp_Handle E s body (cache, d)) of
      Panic _ \<Rightarrow> m = ''tools/call'' \<and> w_getenv (t_web E) ''SEARCH_PROVIDER'' = ''searxng''
    | Ret (t, task) \<Rightarrow> \<exists>out. json_parse t = Some (JObj ([(''jsonrpc'', JStr ''2.0''), (''id'', i)] @ out)) \<and> rpc_outcome m out"
proof -
  let ?ms = "[(''jsonrpc'', JStr ''2.0''), (''id'', i), (''method'', JStr m), (''params'', p)]"
  let ?req = "\<lparr>RpcVersion = ''2.0'', RpcID = Some (json_print i), RpcMethod = m, RpcParams = Some (json_print p)\<rparr>"
  have wf: "list_all (\<lambda>(k, v). wf_json v) ?ms" using assms(1,2) by simp
  have "unmarshal_obj body = Inr ?ms"
    using json_parse_print [of "JObj ?ms"] wf unfolding assms(3)
    by (simp add: unmarshal_obj_def as_obj_def del: json_print.simps)
  moreover have "raw_text ''id'' body = Some (json_print i)" "raw_text ''params'' body = Some (json_print p)"
    unfolding assms(3) raw_text_print [OF wf] by (simp_all add: to_lower_def lower_char_def is_upper_def)
  ultimately have req: "parse_request body = Inr ?req"
    by (simp add: parse_request_def str_field_def jmatches_def as_str_def to_lower_def lower_char_def is_upper_def)
  have "case fst (handle_method E s ?req (cache, d)) of
      Panic _ \<Rightarrow> m = ''tools/call'' \<and> w_getenv (t_web E) ''SEARCH_PROVIDER'' = ''searxng'' | Ret (t, task) \<Rightarrow> replies i m t"
  proof (cases "m = ''tools/call''")
    case True
    show ?thesis
      unfolding True handle_method_def Let_def
      using replies_call [OF assms(1), of "?req\<lparr>RpcMethod := ''tools/call''\<rparr>" E s cache d]
      by (auto split: go.splits)
  next
    case False
    have ok: "replies i ''ping'' (okResponse (Some (json_print i)) (Some (JObj [])))"
      "replies i ''initialize'' (okResponse (Some (json_print i)) (Some initialize_result))"
      by (rule replies_ok [OF assms(1)]; simp add: rpc_outcome_def wf_builtins(3))+
    have err: "replies i m (errResponse (Some (json_print i)) ErrMethodNotFound x)"
      if "m \<notin> {''initialize'', ''initialized'', ''tools/list'', ''tools/call'', ''ping''}" for x
      by (rule replies_err [OF assms(1)]) (use that in \<open>simp add: rpc_outcome_def rpc_error_def\<close>)
    show ?thesis
      using False ok err replies_empty [OF assms(1)] replies_list [OF assms(1), of E cache d] wf_builtins(3)
      by (simp add: handle_method_def Let_def)
  qed
  then show ?thesis unfolding mcp_Handle_def req replies_def by simp
qed

lemma mcp_reply_answers_the_request_witness:
  "\<exists>t task out. fst (mcp_Handle echo_machine plain_sandbox (json_print (JObj [(''jsonrpc'', JStr ''2.0''), (''id'', JInt 7),
       (''method'', JStr ''tools/list''), (''params'', JObj [])])) ([], empty_tools)) = Ret (t, task)
     \<and> json_parse t = Some (JObj ([(''jsonrpc'', JStr ''2.0''), (''id'', JInt 7)] @ out)) \<and> rpc_outcome ''tools/list'' out"
proof -
  let ?body = "json_print (JObj [(''jsonrpc'', JStr ''2.0''), (''id'', JInt 7), (''method'', JStr ''tools/list''), (''params'', JObj [])])"
  obtain x st where x: "mcp_Handle echo_machine plain_sandbox ?body ([], empty_tools) = (x, st)" by (metis prod.exhaust)
  have "wf_json (JInt 7)" "wf_json (JObj [])" by simp_all
  from mcp_reply_answers_the_request [OF this refl, where E = echo_machine and s = plain_sandbox
      and m = "''tools/list''" and cache = "[]" and d = empty_tools]
  show ?thesis unfolding x by (cases x) auto
qed

section \<open>Tools that are not shown\<close>

lemma pg_list_names:
  assumes "ListTools P sort_slice db = (Inr rs, db')" and "\<And>lt rows. set (sort_slice lt rows) = set rows"
  shows "set rs = scan_tool ` set (tools_table db)"
  using assms by (auto simp: ListTools_def statement_def Let_def split: prod.splits sum.splits option.splits if_splits)

lemma pg_get_row:
  assumes "GetTool P n db = (Inr r, db')" and "find (\<lambda>r. t_name r = n) (tools_table db) = Some row"
  shows "r = scan_tool row"
  using assms by (auto simp: GetTool_def statement_def Let_def split: prod.splits sum.splits option.splits if_splits)

text \<open>
  Disabling a tool only hides it. A disabled tool of the table is not among those that are listed, but a
  call of it by its name, here of a builtin one, is answered with its output all the same: the lookup does
  not ask whether the tool is enabled.
\<close>

theorem disabled_tools_still_run:
  assumes "t_store E = pgToolStoreAdapter P sort_slice" and "\<And>lt rows. set (sort_slice lt rows) = set rows"
    and "distinct (map t_name (tools_table db))" and "find (\<lambda>r. t_name r = n) (tools_table db) = Some row"
    and "\<not> t_enabled row" and "t_executor row = ''builtin''" and "n \<notin> {''web_search'', ''web_fetch''}"
    and "reg_List (t_store E) db = (Inr ts, db1)" and "GetTool P n db = (Inr r, db2)"
  shows "n \<notin> ToolName ` set ts
    \<and> (\<exists>k. fst (Execute E s \<lparr>CallID = i, CallTool = n, CallInput = args\<rparr> (NewRegistry, db))
        = Ret (Inr \<lparr>ResCallID = i, ResOutput = args, ResError = [], ResDurationMs = k\<rparr>, None))"
proof
  have n: "n = t_name row" "row \<in> set (tools_table db)" using assms(4) by (auto simp: find_Some_iff)
  obtain rs where "ListTools P sort_slice db = (Inr rs, db1)" "ts = filter ToolEnabled (map recordToTool rs)"
    using assms(8) by (auto simp: reg_List_def assms(1) pgToolStoreAdapter_def split: prod.splits sum.splits)
  with pg_list_names [OF _ assms(2)] have ts: "ts = filter ToolEnabled (map recordToTool rs)" "set rs = scan_tool ` set (tools_table db)"
    by auto
  have "\<forall>row' \<in> set (tools_table db). t_enabled row' \<longrightarrow> t_name row' \<noteq> n"
    using n assms(3,5) by (auto simp: distinct_map dest: inj_onD)
  then show "n \<notin> ToolName ` set ts" by (auto simp: ts recordToTool_def scan_tool_def)
  have "r = scan_tool row" by (rule pg_get_row [OF assms(9,4)])
  then have g: "reg_Get (t_store E) n (NewRegistry, db) = (Inr (recordToTool (scan_tool row)), [(n, recordToTool (scan_tool row))], db2)"
    using assms(9) by (simp add: reg_Get_def NewRegistry_def assms(1) pgToolStoreAdapter_def)
  show "\<exists>k. fst (Execute E s \<lparr>CallID = i, CallTool = n, CallInput = args\<rparr> (NewRegistry, db))
      = Ret (Inr \<lparr>ResCallID = i, ResOutput = args, ResError = [], ResDurationMs = k\<rparr>, None)"
    using assms(6,7) unfolding n(1)
    by (simp add: Execute_def gbind_def g [unfolded n(1)] run_tool_def executeBuiltin_def with_output_def recordToTool_def scan_tool_def on_store_def Let_def)
qed

definition hidden_db :: pgdb where
  "hidden_db = empty_tools\<lparr>tools_table := [\<lparr>t_id = ''0'', t_name = ''old'', t_description = [], t_schema = ''{}'',
     t_executor = ''builtin'', t_endpoint = None, t_enabled = False, t_created = 0\<rparr>]\<rparr>"

lemma disabled_tools_still_run_witness:
  "\<exists>k. fst (Execute echo_machine plain_sandbox \<lparr>CallID = ''1'', CallTool = ''old'', CallInput = ''{}''\<rparr> (NewRegistry, hidden_db))
     = Ret (Inr \<lparr>ResCallID = ''1'', ResOutput = ''{}'', ResError = [], ResDurationMs = k\<rparr>, None)"
proof -
  let ?row = "hd (tools_table hidden_db)"
  have "(case reg_List (t_store echo_machine) hidden_db of (Inr _, _) \<Rightarrow> True | _ \<Rightarrow> False) = True" by code_simp
  then obtain ts db1 where l: "reg_List (t_store echo_machine) hidden_db = (Inr ts, db1)" by (auto split: prod.splits sum.splits)
  have "(case GetTool calm_pg ''old'' hidden_db of (Inr _, _) \<Rightarrow> True | _ \<Rightarrow> False) = True" by code_simp
  then obtain r db2 where g: "GetTool calm_pg ''old'' hidden_db = (Inr r, db2)" by (auto split: prod.splits sum.splits)
  have "t_store echo_machine = pgToolStoreAdapter calm_pg in_order" by (simp add: echo_machine_def)
  from disabled_tools_still_run [OF this _ _ _ _ _ _ l g, of ?row plain_sandbox "''1''" "''{}''"]
  show ?thesis by (simp add: hidden_db_def)
qed

end
