(* ===== verification/Watchdog.thy ===== *)
theory Watchdog
  imports "HOL-Library.Word"
begin

text \<open>
  The memory watchdog, \<open>internal/observability/watchdog.go\<close>: a goroutine that reads the heap size at every
  tick and calls back when it crosses a threshold. The events of the goroutine are the ticks with their
  readings, the stop, and the end of its context, in the order in which it selects them.
\<close>

record watchdog_config =
  memStats :: "nat \<Rightarrow> 64 word"
  wd_interval :: int

definition WithMemStatsFn :: "(nat \<Rightarrow> 64 word) \<Rightarrow> watchdog_config \<Rightarrow> watchdog_config" where
  "WithMemStatsFn fn c = c\<lparr>memStats := fn\<rparr>"

definition WithInterval :: "int \<Rightarrow> watchdog_config \<Rightarrow> watchdog_config" where
  "WithInterval d c = c\<lparr>wd_interval := d\<rparr>"

text \<open>The defaults, with the runtime's readings, and the options applied in order.\<close>

definition watchdog_settings :: "(nat \<Rightarrow> 64 word) \<Rightarrow> (watchdog_config \<Rightarrow> watchdog_config) list \<Rightarrow> watchdog_config" where
  "watchdog_settings readMemStats opts = fold (\<lambda>opt c. opt c) opts \<lparr>memStats = readMemStats, wd_interval = 5 * 1000000000\<rparr>"

datatype wd_event = Tick | Stopping | Context_Done

record watchdog =
  wd_running :: bool
  wd_fired :: bool
  wd_ticks :: nat
  wd_calls :: nat

definition watchdog_start :: watchdog where
  "watchdog_start = \<lparr>wd_running = True, wd_fired = False, wd_ticks = 0, wd_calls = 0\<rparr>"

text \<open>\<open>thresholdMB * 1024 * 1024\<close> in 64 bits.\<close>

definition over_threshold :: "64 word \<Rightarrow> 64 word \<Rightarrow> bool" where
  "over_threshold thresholdMB heapAlloc \<longleftrightarrow> thresholdMB * 1024 * 1024 < heapAlloc"

definition watchdog_tick :: "watchdog_config \<Rightarrow> 64 word \<Rightarrow> watchdog \<Rightarrow> watchdog" where
  "watchdog_tick c thresholdMB w =
     (let heapAlloc = memStats c (wd_ticks w); w1 = w\<lparr>wd_ticks := wd_ticks w + 1\<rparr>
      in if over_threshold thresholdMB heapAlloc
         then (if wd_fired w then w1 else w1\<lparr>wd_fired := True, wd_calls := wd_calls w + 1\<rparr>)
         else w1\<lparr>wd_fired := False\<rparr>)"

definition watchdog_step :: "watchdog_config \<Rightarrow> 64 word \<Rightarrow> wd_event \<Rightarrow> watchdog \<Rightarrow> watchdog" where
  "watchdog_step c thresholdMB e w =
     (if \<not> wd_running w then w
      else case e of Tick \<Rightarrow> watchdog_tick c thresholdMB w | _ \<Rightarrow> w\<lparr>wd_running := False\<rparr>)"

definition StartRAMWatchdog ::
  "(nat \<Rightarrow> 64 word) \<Rightarrow> 64 word \<Rightarrow> (watchdog_config \<Rightarrow> watchdog_config) list \<Rightarrow> wd_event list \<Rightarrow> watchdog" where
  "StartRAMWatchdog readMemStats thresholdMB opts events =
     fold (watchdog_step (watchdog_settings readMemStats opts) thresholdMB) events watchdog_start"

section \<open>Crossings\<close>

text \<open>How often a sequence of readings goes from below to above, beginning below.\<close>

fun crossings :: "bool \<Rightarrow> bool list \<Rightarrow> nat" where
  "crossings was [] = 0"
| "crossings was (b # bs) = (if b \<and> \<not> was then 1 else 0) + crossings b bs"

lemma crossings_snoc: "crossings a (bs @ [b]) = crossings a bs + (if b \<and> \<not> last (a # bs) then 1 else 0)"
  by (induction bs arbitrary: a) auto

definition readings_above :: "watchdog_config \<Rightarrow> 64 word \<Rightarrow> nat \<Rightarrow> bool list" where
  "readings_above c t n = map (\<lambda>i. unat t * 2 ^ 20 < unat (memStats c i)) [0..<n]"

lemma over_threshold_exact:
  assumes "unat t < 2 ^ 44"
  shows "over_threshold t h \<longleftrightarrow> unat t * 2 ^ 20 < unat h"
proof -
  have "unat (t * 1048576) = unat t * 1048576"
    using assms unat_mult_lem [of t 1048576] by simp
  then have "unat (t * 1024 * 1024) = unat t * 2 ^ 20" by (simp add: ac_simps)
  then show ?thesis by (simp add: over_threshold_def word_less_nat_alt)
qed

definition watchdog_inv :: "watchdog_config \<Rightarrow> 64 word \<Rightarrow> watchdog \<Rightarrow> bool" where
  "watchdog_inv c t w \<longleftrightarrow> wd_calls w = crossings False (readings_above c t (wd_ticks w))
     \<and> wd_fired w = last (False # readings_above c t (wd_ticks w))"

lemma watchdog_step_inv:
  assumes "unat t < 2 ^ 44" and "watchdog_inv c t w"
  shows "watchdog_inv c t (watchdog_step c t e w)"
proof -
  have "readings_above c t (Suc n) = readings_above c t n @ [over_threshold t (memStats c n)]" for n
    by (simp add: readings_above_def over_threshold_exact [OF assms(1)])
  with assms(2) show ?thesis
    by (auto simp: watchdog_inv_def watchdog_step_def watchdog_tick_def Let_def crossings_snoc split: wd_event.split)
qed

text \<open>
  C34. The watchdog is edge-triggered: after any events, it has called back exactly once for every time the
  readings crossed the threshold from below, at most once per tick it took before it was stopped. The
  threshold in bytes is exact up to 2^44 megabytes; from there on the product wraps around.
\<close>

theorem watchdog_fires_on_crossings:
  assumes "unat thresholdMB < 2 ^ 44"
  shows "wd_calls (StartRAMWatchdog readMemStats thresholdMB opts events)
      = crossings False (readings_above (watchdog_settings readMemStats opts) thresholdMB
          (wd_ticks (StartRAMWatchdog readMemStats thresholdMB opts events)))
    \<and> wd_ticks (StartRAMWatchdog readMemStats thresholdMB opts events)
      = length (takeWhile (\<lambda>e. e = Tick) events)"
proof
  let ?c = "watchdog_settings readMemStats opts"
  have "watchdog_inv ?c thresholdMB w \<Longrightarrow> watchdog_inv ?c thresholdMB (fold (watchdog_step ?c thresholdMB) events w)" for w
    by (induction events arbitrary: w) (simp_all add: watchdog_step_inv [OF assms])
  then show "wd_calls (StartRAMWatchdog readMemStats thresholdMB opts events)
      = crossings False (readings_above ?c thresholdMB (wd_ticks (StartRAMWatchdog readMemStats thresholdMB opts events)))"
    by (simp add: StartRAMWatchdog_def watchdog_inv_def watchdog_start_def readings_above_def)
  have stopped: "\<not> wd_running w \<Longrightarrow> fold (watchdog_step ?c thresholdMB) es w = w" for es w
    by (induction es) (simp_all add: watchdog_step_def)
  have "wd_running w \<Longrightarrow> wd_ticks (fold (watchdog_step ?c thresholdMB) events w) = wd_ticks w + length (takeWhile (\<lambda>e. e = Tick) events)" for w
  proof (induction events arbitrary: w)
    case (Cons e events)
    show ?case
    proof (cases e)
      case Tick
      have "wd_running (watchdog_tick ?c thresholdMB w)" "wd_ticks (watchdog_tick ?c thresholdMB w) = Suc (wd_ticks w)"
        using Cons.prems by (simp_all add: watchdog_tick_def Let_def)
      with Cons Tick show ?thesis by (simp add: watchdog_step_def)
    next
      case Stopping
      with Cons.prems stopped [of "w\<lparr>wd_running := False\<rparr>" events] show ?thesis
        by (simp add: watchdog_step_def [of _ _ Stopping])
    next
      case Context_Done
      with Cons.prems stopped [of "w\<lparr>wd_running := False\<rparr>" events] show ?thesis
        by (simp add: watchdog_step_def [of _ _ Context_Done])
    qed
  qed simp
  then show "wd_ticks (StartRAMWatchdog readMemStats thresholdMB opts events) = length (takeWhile (\<lambda>e. e = Tick) events)"
    by (simp add: StartRAMWatchdog_def watchdog_start_def)
qed

lemma watchdog_fires_on_crossings_witness:
  "wd_calls (StartRAMWatchdog (\<lambda>n. if n \<in> {1, 2, 4} then 3 * 2 ^ 20 else 0) 2 [] [Tick, Tick, Tick, Tick, Tick, Stopping, Tick]) = 2"
  by (subst watchdog_fires_on_crossings [THEN conjunct1])
    (simp_all add: watchdog_fires_on_crossings [THEN conjunct2] watchdog_settings_def readings_above_def upt_rec)

end
