(* ===== verification/Main_Program.thy ===== *)
theory Main_Program
  imports Gateway_Server Watchdog
begin

text \<open>
  The main program, \<open>cmd/wrapper/main.go\<close>: what it reads from the environment, the ways its start can
  fail, and the services it composes for the server. Its world is the adapter with its circuit breaker,
  the relational database, and everything else, which the clients of Redis, of HTTP and of the operating
  system reach; those clients are parameters, as everywhere.
\<close>

record 'o world =
  the_adapter :: adapter
  the_db :: pgdb
  the_rest :: 'o

definition on_adapter :: "(adapter \<times> 'o, 'a) prog \<Rightarrow> ('o world, 'a) prog" where
  "on_adapter m = (\<lambda>w. case m (the_adapter w, the_rest w) of
     (r, (a, x)) \<Rightarrow> (r, w\<lparr>the_adapter := a, the_rest := x\<rparr>))"

definition on_db :: "(pgdb \<Rightarrow> 'a \<times> pgdb) \<Rightarrow> 'o world \<Rightarrow> 'a \<times> 'o world" where
  "on_db m w = (case m (the_db w) of (r, d) \<Rightarrow> (r, w\<lparr>the_db := d\<rparr>))"

definition on_rest :: "('o \<Rightarrow> 'a \<times> 'o) \<Rightarrow> 'o world \<Rightarrow> 'a \<times> 'o world" where
  "on_rest m w = (case m (the_rest w) of (r, x) \<Rightarrow> (r, w\<lparr>the_rest := x\<rparr>))"

section \<open>The backend behind its interface\<close>

definition backend_Stream ::
  "backend_kind \<Rightarrow> 'o adapter_env \<Rightarrow> generate_request \<Rightarrow> (adapter \<times> 'o, generate_response list result) prog" where
  "backend_Stream k env =
     (case k of OllamaKind \<Rightarrow> ollama_Stream env | LlamaCppKind \<Rightarrow> llamacpp_Stream env
      | VLLMKind \<Rightarrow> vllm_Stream env | BitNetKind \<Rightarrow> bitnet_Stream env)"

definition backend_HealthCheck :: "backend_kind \<Rightarrow> 'o adapter_env \<Rightarrow> adapter \<Rightarrow> 'o \<Rightarrow> goerr option \<times> 'o" where
  "backend_HealthCheck k env =
     (case k of OllamaKind \<Rightarrow> ollama_HealthCheck env | LlamaCppKind \<Rightarrow> llamacpp_HealthCheck env
      | VLLMKind \<Rightarrow> vllm_HealthCheck env | BitNetKind \<Rightarrow> bitnet_HealthCheck env)"

section \<open>The services\<close>

text \<open>The tool store that the registry gets, on the database of the world.\<close>

definition store_in_world :: "pgdb tool_store \<Rightarrow> 'o world tool_store" where
  "store_in_world st = \<lparr>ts_list = on_db (ts_list st), ts_get = (\<lambda>name. on_db (ts_get st name)),
     ts_create = (\<lambda>t. on_db (ts_create st t))\<rparr>"

text \<open>
  What \<open>main\<close> hands to the server, on top of the clients \<open>X\<close> of what is outside: the selected backend, a
  session store and so a history, no embedding client, the dispatcher that learns, the sandbox with its
  limits, and the web augmenter over the search tool. There is one process environment.
\<close>

definition main_gateway ::
  "'o adapter_env \<Rightarrow> backend_kind \<Rightarrow> ('o world, 'e) gateway_env \<Rightarrow> ('o world, 'e) gateway_env" where
  "main_gateway env k G = G\<lparr>gw_generate := (\<lambda>req. on_adapter (backend_Generate k env req)),
     gw_stream := (\<lambda>req. on_adapter (backend_Stream k env req)), gw_embed := None, gw_history := True\<rparr>"

definition main_web :: "(string \<Rightarrow> string) \<Rightarrow> 'w web_env \<Rightarrow> 'w web_env" where
  "main_web getenv W = W\<lparr>w_getenv := getenv\<rparr>"

definition main_tools ::
  "(string \<Rightarrow> string) \<Rightarrow> pgdb tool_store \<Rightarrow> 'o world tool_env \<Rightarrow> 'o world tool_env" where
  "main_tools getenv st T = T\<lparr>t_store := store_in_world st, t_web := main_web getenv (t_web T), t_learns := True\<rparr>"

definition main_health :: "'o adapter_env \<Rightarrow> backend_kind \<Rightarrow> 'o world \<Rightarrow> goerr option \<times> 'o world" where
  "main_health env k = (\<lambda>w. on_rest (backend_HealthCheck k env (the_adapter w)) w)"

definition main_services ::
  "(string \<Rightarrow> string) \<Rightarrow> 'o adapter_env \<Rightarrow> pgdb tool_store \<Rightarrow> backend_kind \<Rightarrow> ('o world, 'e) services
   \<Rightarrow> ('o world, 'e) services" where
  "main_services getenv env st k X =
     RegisterWebAugmenter (toolsWebSearchAdapter (main_web getenv (t_web (s_tools X))) True)
       (X\<lparr>s_key := getenv ''CAW_API_KEY'', s_gateway := main_gateway env k (s_gateway X),
          s_agent := (s_agent X)\<lparr>ag_getenv := getenv\<rparr>, s_health := main_health env k,
          s_tools := main_tools getenv st (s_tools X), s_sandbox := main_sandbox\<rparr>)"

section \<open>Starting\<close>

record 'e started =
  run_kind :: backend_kind
  run_adapter :: adapter
  run_server :: "'e server_state"
  run_address :: string

text \<open>
  Up to the call of \<open>Listen\<close>: every failure ends the program with its message. \<open>pool_error\<close> is what the
  database driver says of the connection string, which it does not connect to yet.
\<close>

definition main_start ::
  "(string \<Rightarrow> string) \<Rightarrow> (string \<Rightarrow> goerr option) \<Rightarrow> pg_env \<Rightarrow> pgdb \<Rightarrow> 'e started result \<times> pgdb" where
  "main_start getenv pool_error P db =
     (case pool_error (dsn getenv) of
        Some e \<Rightarrow> (Inl (''pgxpool connect: '' @ e), db)
      | None \<Rightarrow>
        (case Bootstrap P db of
           (Some e, db1) \<Rightarrow> (Inl (''pg bootstrap: '' @ e), db1)
         | (None, db1) \<Rightarrow>
           (case NewBackend getenv of
              Inl e \<Rightarrow> (Inl (''backend init: '' @ e), db1)
            | Inr (k, a) \<Rightarrow> (Inr \<lparr>run_kind = k, run_adapter = a, run_server = NewServer getenv,
                                 run_address = listen_address getenv\<rparr>, db1))))"

text \<open>The memory watchdog beside it, with a threshold of 5120 MB and the default interval.\<close>

definition main_watchdog :: "(nat \<Rightarrow> 64 word) \<Rightarrow> wd_event list \<Rightarrow> watchdog" where
  "main_watchdog readMemStats = StartRAMWatchdog readMemStats 5120 []"

section \<open>Serving\<close>

text \<open>Requests one after the other, each with what its client does while it is streamed to; a panic ends the program.\<close>

fun serve_all ::
  "framework \<Rightarrow> ('w, 'e) services \<Rightarrow> ((nat \<Rightarrow> bool) \<times> http_call) list \<Rightarrow> ('e server_state \<times> 'w, reply list) prog" where
  "serve_all F S [] = gret []"
| "serve_all F S ((client, c) # cs) =
     gbind (serve_request F S client c) (\<lambda>r. gbind (serve_all F S cs) (\<lambda>rs. gret (r # rs)))"

definition main_serve ::
  "framework \<Rightarrow> (string \<Rightarrow> string) \<Rightarrow> 'o adapter_env \<Rightarrow> pgdb tool_store \<Rightarrow> ('o world, 'e) services
   \<Rightarrow> 'e started \<Rightarrow> pgdb \<Rightarrow> ((nat \<Rightarrow> bool) \<times> http_call) list \<Rightarrow> 'o \<Rightarrow> reply list go \<times> ('e server_state \<times> 'o world)" where
  "main_serve F getenv env st X m db calls x =
     serve_all F (main_services getenv env st (run_kind m) X) calls
       (run_server m, \<lparr>the_adapter = run_adapter m, the_db = db, the_rest = x\<rparr>)"

end
