(* ===== verification/Server_Props.thy ===== *)
theory Server_Props
  imports Gateway_Server
begin

text \<open>
  What the chain of middleware gives the endpoints of the server: nothing behind it happens without the
  key, and a key gets to the endpoints of the API at most 60 times per window.
\<close>

section \<open>Chains\<close>

text \<open>The documented behaviour of a group: a path that matches a route of the group lies under its prefix.\<close>

definition group_law :: "framework \<Rightarrow> bool" where
  "group_law F \<longleftrightarrow> (\<forall>p path. has_prefix p ''/v1/'' \<longrightarrow> path_param F p path \<noteq> None \<longrightarrow> under F ''/v1'' path)"

definition api_endpoints :: "endpoint set" where
  "api_endpoints = {To_Chat, To_Messages, To_Models, To_Model_Detail, To_Enqueue_Document, To_Document_Status,
     To_Delete_Session, To_List_Tools, To_Register_Tool}"

definition probe_handlers :: "framework \<Rightarrow> http_call \<Rightarrow> (handler \<times> string) list" where
  "probe_handlers F c = concat (map (handlers_of F c) (take 2 main_routes))"

definition api_handlers :: "framework \<Rightarrow> http_call \<Rightarrow> (handler \<times> string) list" where
  "api_handlers F c = concat (map (handlers_of F c) (take 9 (drop 3 main_routes)))"

lemmas main_routes_defs = main_routes_def RegisterMCPRoute_def RegisterToolRoutes_def server_routes_def

lemma chain_parts:
  "chain F c = probe_handlers F c @ (if under F ''/v1'' (CallPath c) then [(Auth, []), (Limiter, [])] else [])
     @ api_handlers F c @ handlers_of F c (Route ''POST'' ''/mcp'' [Auth, Serve To_MCP])"
  by (simp add: chain_def probe_handlers_def api_handlers_def main_routes_defs del: handlers_of.simps(1))

text \<open>Lists of endpoints only: the first one answers.\<close>

definition serving :: "endpoint set \<Rightarrow> (handler \<times> string) list \<Rightarrow> bool" where
  "serving A hs \<longleftrightarrow> (\<forall>(h, x) \<in> set hs. \<exists>e \<in> A. h = Serve e)"

lemma handlers_of_serving: "e \<in> A \<Longrightarrow> serving A (handlers_of F c (Route m p [Serve e]))"
  by (auto simp: serving_def split: option.splits)

lemma serving_append [simp]: "serving A (a @ b) \<longleftrightarrow> serving A a \<and> serving A b"
  by (auto simp: serving_def)

lemma serving_Nil [simp]: "serving A []"
  by (simp add: serving_def)

lemma probe_serving: "serving {To_Healthz, To_Readyz} (probe_handlers F c)"
  by (simp add: probe_handlers_def main_routes_defs handlers_of_serving del: handlers_of.simps)

lemma api_serving: "serving api_endpoints (api_handlers F c)"
  by (simp add: api_handlers_def main_routes_defs handlers_of_serving api_endpoints_def del: handlers_of.simps)

lemma api_under:
  assumes "group_law F" and "\<not> under F ''/v1'' (CallPath c)"
  shows "api_handlers F c = []"
proof -
  have "handlers_of F c (Route m p hs) = []" if "has_prefix p ''/v1/''" for m p hs
    using assms that by (auto simp: group_law_def split: option.splits)
  then show ?thesis
    by (simp add: api_handlers_def main_routes_defs del: handlers_of.simps)
qed

lemma pass_serving:
  assumes "serving A hs"
  shows "pass F k up now c key (hs @ rest) R
    = (case hs of [] \<Rightarrow> pass F k up now c key rest R | (h, x) # _ \<Rightarrow> (Inr (THE e. h = Serve e, x), R))
   \<and> (\<forall>h x hs'. hs = (h, x) # hs' \<longrightarrow> (THE e. h = Serve e) \<in> A)"
  using assms by (cases hs) (auto simp: serving_def)

lemma pass_mcp:
  "pass F k up now c key (handlers_of F c (Route ''POST'' ''/mcp'' [Auth, Serve To_MCP])) R
   = (if path_param F ''/mcp'' (CallPath c) \<noteq> None \<and> CallMethod c = ''POST''
      then case NewAuthMiddleware k (CallKey c) (CallAuthorization c) of
             Reject r \<Rightarrow> (Inl r, R) | Next t \<Rightarrow> (Inr (To_MCP, the (path_param F ''/mcp'' (CallPath c))), R)
      else (Inl (no_route F c), R))"
  by (auto simp: accepts_def split: option.splits decision.splits)

lemma probes_first:
  obtains e x where "e \<in> {To_Healthz, To_Readyz}" "route_request F k up now c R = (Inr (e, x), R)"
      "path_param F ''/healthz'' (CallPath c) \<noteq> None \<or> path_param F ''/readyz'' (CallPath c) \<noteq> None"
  | "probe_handlers F c = []"
proof (cases "probe_handlers F c")
  case (Cons p ps)
  obtain h x where p: "p = (h, x)" by (cases p)
  have "path_param F ''/healthz'' (CallPath c) \<noteq> None \<or> path_param F ''/readyz'' (CallPath c) \<noteq> None"
  proof (rule ccontr)
    assume "\<not> ?thesis"
    then have "probe_handlers F c = []" by (simp add: probe_handlers_def main_routes_defs)
    with Cons show False by simp
  qed
  moreover have "route_request F k up now c R = (Inr (THE e. h = Serve e, x), R) \<and> (THE e. h = Serve e) \<in> {To_Healthz, To_Readyz}"
    using pass_serving [OF probe_serving [of F c]] Cons p
    by (simp add: route_request_def chain_parts)
  ultimately show ?thesis using that(1) by blast
qed (rule that(2))

lemma auth_next: "NewAuthMiddleware k x a = Next t \<Longrightarrow> t = k \<and> k \<noteq> [] \<and> extractToken x a = k"
  by (auto simp: NewAuthMiddleware_def Let_def split: if_splits)

lemma auth_reject: "NewAuthMiddleware k x a = Reject r \<Longrightarrow> ReplyStatus r \<in> {401, 403}"
  by (auto simp: NewAuthMiddleware_def Let_def auth_error_def reply_json_def split: if_splits)

section \<open>Without the key\<close>

lemma route_without_key:
  assumes "group_law F" and "k = [] \<or> extractToken (CallKey c) (CallAuthorization c) \<noteq> k"
    and "probe_handlers F c = []"
  shows "\<exists>r. route_request F k up now c R = (Inl r, R) \<and> (ReplyStatus r \<in> {401, 403} \<or> r = no_route F c)"
proof -
  obtain r where a: "NewAuthMiddleware k (CallKey c) (CallAuthorization c) = Reject r"
    using auth_next assms(2) by (cases "NewAuthMiddleware k (CallKey c) (CallAuthorization c)") blast+
  show ?thesis
  proof (cases "under F ''/v1'' (CallPath c)")
    case True
    with a assms(3) auth_reject [OF a] show ?thesis by (auto simp: route_request_def chain_parts)
  next
    case False
    with a assms auth_reject [OF a] api_under [OF assms(1) False] show ?thesis
      by (auto simp: route_request_def chain_parts pass_mcp simp del: handlers_of.simps)
  qed
qed

text \<open>
  C36. A request that does not carry the configured key changes nothing, neither in the process nor outside,
  and is answered with 401 or 403 (or as a request no route answers), whatever its method, path and body;
  only the two probes answer it otherwise.
\<close>

theorem requests_need_the_key:
  assumes "group_law F"
    and "s_key S = [] \<or> extractToken (CallKey c) (CallAuthorization c) \<noteq> s_key S"
    and "path_param F ''/healthz'' (CallPath c) = None" and "path_param F ''/readyz'' (CallPath c) = None"
  shows "\<exists>r. serve_request F S client c (s, w) = (Ret r, (s, w)) \<and> (ReplyStatus r \<in> {401, 403} \<or> r = no_route F c)"
proof -
  have "probe_handlers F c = []" using assms(3,4) by (simp add: probe_handlers_def main_routes_defs)
  from route_without_key [OF assms(1,2) this, of "s_up S w" "gw_unix_now (s_gateway S) w" "sv_counters s"]
  obtain r where "route_request F (s_key S) (s_up S w) (gw_unix_now (s_gateway S) w) c (sv_counters s) = (Inl r, sv_counters s)"
    and "ReplyStatus r \<in> {401, 403} \<or> r = no_route F c" by blast
  then show ?thesis by (simp add: serve_request_def)
qed

section \<open>With the key\<close>

lemma route_counted:
  assumes "group_law F"
  shows "(snd (route_request F k up now c R) = R
      \<and> (\<forall>e x. fst (route_request F k up now c R) = Inr (e, x) \<longrightarrow> e \<notin> api_endpoints))
    \<or> (k \<noteq> [] \<and> snd (route_request F k up now c R) = snd (rate_limit up k now R)
      \<and> (\<forall>e x. fst (route_request F k up now c R) = Inr (e, x) \<longrightarrow> fst (rate_limit up k now R) = Next ()))"
proof (rule probes_first [where F = F and c = c and k = k and up = up and now = now and R = R])
  assume p: "probe_handlers F c = []"
  let ?a = "NewAuthMiddleware k (CallKey c) (CallAuthorization c)"
  let ?mcp = "handlers_of F c (Route ''POST'' ''/mcp'' [Auth, Serve To_MCP])"
  show ?thesis
  proof (cases "under F ''/v1'' (CallPath c)")
    case False
    with p api_under [OF assms False]
    have "route_request F k up now c R = pass F k up now c [] ?mcp R"
      by (simp add: route_request_def chain_parts del: handlers_of.simps)
    then show ?thesis unfolding pass_mcp by (auto simp: api_endpoints_def split: decision.splits if_splits)
  next
    case True
    show ?thesis
    proof (cases ?a)
      case (Reject r)
      with True p show ?thesis by (simp add: route_request_def chain_parts)
    next
      case (Next t)
      from auth_next [OF Next] have k: "t = k" "k \<noteq> []" by simp_all
      obtain d R1 where d: "rate_limit up k now R = (d, R1)" by (metis prod.exhaust)
      show ?thesis
      proof (cases d)
        case (Reject r)
        with True p Next k d show ?thesis by (simp add: route_request_def chain_parts)
      next
        case N: (Next u)
        have "snd (pass F k up now c k (api_handlers F c @ ?mcp) R1) = R1"
          using pass_serving [OF api_serving [of F c], where F = F and k = k and up = up and now = now and c = c and key = k and rest = ?mcp and R = R1]
          by (auto simp: pass_mcp split: list.splits prod.splits decision.splits simp del: handlers_of.simps)
        with True p Next k d N show ?thesis by (simp add: route_request_def chain_parts del: handlers_of.simps)
      qed
    qed
  qed
qed (auto simp: api_endpoints_def)

text \<open>Requests one after the other: the time of each and whether it reaches an endpoint of the API.\<close>

fun api_run :: "framework \<Rightarrow> string \<Rightarrow> (http_call \<times> bool \<times> int) list \<Rightarrow> counters \<Rightarrow> (int \<times> bool) list" where
  "api_run F k [] R = []"
| "api_run F k ((c, up, now) # qs) R =
     (let (r, R1) = route_request F k up now c R
      in (now, case r of Inl _ \<Rightarrow> False | Inr (e, x) \<Rightarrow> e \<in> api_endpoints) # api_run F k qs R1)"

definition api_calls :: "int \<Rightarrow> (int \<times> bool) list \<Rightarrow> nat" where
  "api_calls window calls = length (filter (\<lambda>(now, reached). reached \<and> now div WindowSeconds = window) calls)"

lemma rate_limit_down: "k \<noteq> [] \<Longrightarrow> rate_limit False k now R = (Reject rate_exceeded, R)"
  by (simp add: rate_limit_def)

lemma api_run_bounded:
  assumes "group_law F" and "0 \<le> i"
  shows "window_ok k i R n \<Longrightarrow> \<forall>(c, up, now) \<in> set qs. 0 \<le> now \<Longrightarrow> api_calls i (api_run F k qs R) \<le> RateLimitPerMin - n"
proof (induction qs arbitrary: R n)
  case (Cons q qs)
  obtain c up now where q: "q = (c, up, now)" by (cases q)
  obtain r R1 where r: "route_request F k up now c R = (r, R1)" by (metis prod.exhaust)
  let ?hit = "case r of Inl _ \<Rightarrow> False | Inr (e, x) \<Rightarrow> e \<in> api_endpoints"
  have step: "api_calls i (api_run F k (q # qs) R)
      = (if ?hit \<and> now div WindowSeconds = i then 1 else 0) + api_calls i (api_run F k qs R1)"
    using q r by (simp add: api_calls_def)
  have later: "\<forall>(c, up, now) \<in> set qs. 0 \<le> now" "0 \<le> now" using Cons.prems(2) q by auto
  from route_counted [OF assms(1), of k up now c R, unfolded r]
  consider (free) "R1 = R" "\<not> ?hit"
    | (counted) "k \<noteq> []" "R1 = snd (rate_limit up k now R)" "?hit \<longrightarrow> fst (rate_limit up k now R) = Next ()"
    by (auto split: sum.splits)
  then show ?case
  proof cases
    case free
    with step Cons.IH [OF Cons.prems(1) later(1)] show ?thesis by simp
  next
    case counted
    show ?thesis
    proof (cases "up \<and> now div WindowSeconds = i")
      case True
      with window_ok_step_same [OF Cons.prems(1) counted(1), of now] counted
      have "window_ok k i R1 (n + 1)" "?hit \<longrightarrow> n < RateLimitPerMin" by auto
      with Cons.IH [OF this(1) later(1)] step show ?thesis by (auto split: if_splits)
    next
      case False
      have "window_ok k i R1 n \<and> \<not> (?hit \<and> now div WindowSeconds = i)"
      proof (cases up)
        case True
        with False window_ok_step_other [OF Cons.prems(1) assms(2) later(2), of k] counted(2) show ?thesis by auto
      next
        case False
        with counted rate_limit_down [OF counted(1), of now R] Cons.prems(1) show ?thesis by auto
      qed
      with step Cons.IH [of R1 n] later(1) show ?thesis by auto
    qed
  qed
qed (simp add: api_calls_def)

text \<open>
  C37. In a window at most 60 requests reach an endpoint of the API, whatever the methods, paths, headers and
  bodies of the requests, and however often Redis is down in between.
\<close>

theorem api_calls_are_limited:
  assumes "group_law F" and "0 \<le> i" and "R (rate_key k i) = None" and "\<forall>(c, up, now) \<in> set qs. 0 \<le> now"
  shows "api_calls i (api_run F k qs R) \<le> 60"
  using api_run_bounded [OF assms(1,2), of k R 0 qs] assms(3,4)
  by (simp add: window_ok_def RateLimitPerMin_def)

section \<open>Samples\<close>

definition plain_paths :: framework where
  "plain_paths = \<lparr>path_param = (\<lambda>p path. if p = path then Some [] else None),
     under = (\<lambda>p path. has_prefix path (p @ ''/'')), no_route = (\<lambda>_. reply_json 404 JNull)\<rparr>"

definition list_models :: "string \<Rightarrow> http_call" where
  "list_models key = \<lparr>CallMethod = ''GET'', CallPath = ''/v1/models'', CallKey = key, CallAuthorization = [],
     CallModel = [], CallBody = []\<rparr>"

lemma plain_paths_law: "group_law plain_paths"
  by (simp add: group_law_def plain_paths_def)

lemma requests_need_the_key_witness:
  "\<forall>(S :: (unit, unit) services) client s. \<exists>r. serve_request plain_paths S client (list_models []) (s, ()) = (Ret r, (s, ()))
     \<and> (ReplyStatus r \<in> {401, 403} \<or> r = no_route plain_paths (list_models []))"
proof (intro allI)
  fix S :: "(unit, unit) services" and client s
  show "\<exists>r. serve_request plain_paths S client (list_models []) (s, ()) = (Ret r, (s, ()))
     \<and> (ReplyStatus r \<in> {401, 403} \<or> r = no_route plain_paths (list_models []))"
    by (rule requests_need_the_key [OF plain_paths_law]) (auto simp: list_models_def plain_paths_def extractToken_def)
qed

lemma api_calls_are_limited_witness:
  "api_calls 1 (api_run plain_paths ''key'' (replicate 70 (list_models ''key'', True, 65)) (\<lambda>_. None)) \<le> 60
   \<and> map snd (api_run plain_paths ''key'' [(list_models ''key'', True, 65)] (\<lambda>_. None)) = [True]"
  by (rule conjI [OF api_calls_are_limited [OF plain_paths_law]]) (simp_all, code_simp)

end
