(* ===== verification/Main_Props.thy ===== *)
theory Main_Props
  imports Main_Program Adapter_Props Gateway_Props Dispatcher_Props Server_Props
begin

text \<open>
  What the main program guarantees as a whole: once it has started on a backend that answers with a choice,
  it answers every request, whatever is sent to it and whatever the outside does, and every worker slot is
  given back. The contract between the services and the server is the locale \<open>running_gateway\<close>, which the
  services of the main program satisfy for three of its four backends.
\<close>

section \<open>Searching\<close>

text \<open>SearXNG, where it is the provider, has a base URL that makes a request.\<close>

definition search_configured :: "'w web_env \<Rightarrow> bool" where
  "search_configured E \<longleftrightarrow>
     w_getenv E ''SEARCH_PROVIDER'' \<noteq> ''searxng'' \<or> (\<forall>q. w_url_ok E (searxng_url E q))"

lemma safe_searchBrave: "safe (searchBrave E q n) (\<lambda>_. True)"
  unfolding searchBrave_def Let_def by (intro safe_intros TrueI)

lemma safe_searchDDG: "safe (searchDDG E q n) (\<lambda>_. True)"
  unfolding searchDDG_def by (intro safe_intros TrueI)

lemma safe_searchSearXNG: "w_url_ok E (searxng_url E q) \<Longrightarrow> safe (searchSearXNG E q n) (\<lambda>_. True)"
  unfolding searchSearXNG_def by (intro safe_intros TrueI) simp

lemma safe_web_search:
  assumes "search_configured E"
  shows "safe (web_search E learns q n) (\<lambda>_. True)"
proof -
  have s: "safe (searchSearXNG E q k) (\<lambda>_. True)" if "w_getenv E ''SEARCH_PROVIDER'' = ''searxng''" for k
    using assms that by (intro safe_searchSearXNG) (simp add: search_configured_def)
  show ?thesis
    unfolding web_search_def Let_def
    by (intro safe_gbind [where P = "\<lambda>_. True"] safe_if safe_sum safe_gret TrueI safe_searchBrave safe_searchDDG s)
qed

lemma safe_adapter_search: "search_configured E \<Longrightarrow> safe (toolsWebSearchAdapter E learns q n) (\<lambda>_. True)"
  unfolding toolsWebSearchAdapter_def
  by (intro safe_gbind [OF safe_web_search] safe_prod safe_gret TrueI)

section \<open>Tools\<close>

lemma safe_pairI: "(\<And>g w. \<exists>a s. m (g, w) = (Ret a, s) \<and> Q a) \<Longrightarrow> safe m Q"
  by (auto simp: safe_def)

lemma safe_at: "(\<And>w. safe (m w) Q) \<Longrightarrow> safe (\<lambda>w. m w w) Q"
  by (simp add: safe_def)

lemma safe_on_store:
  assumes "safe (m :: ('d, 'a) prog) Q"
  shows "safe (on_store m) Q"
proof (rule safe_pairI)
  fix cache :: registry and d :: 'd
  from assms obtain a d1 where "m d = (Ret a, d1)" "Q a" by (rule safeE)
  then show "\<exists>a s'. on_store m (cache, d) = (Ret a, s') \<and> Q a" by (simp add: on_store_def)
qed

lemma safe_quietly: "safe (quietly f) (\<lambda>_. True)"
  unfolding quietly_def by (intro safe_gbind [where P = "\<lambda>_. True"] safe_grun safe_gret TrueI)

lemma safe_executeWebSearch:
  "search_configured (t_web E) \<Longrightarrow> safe (executeWebSearch E c start) (\<lambda>_. True)"
  unfolding executeWebSearch_def
  by (intro safe_sum safe_prod safe_if safe_grun safe_gbind [OF safe_web_search] TrueI)

lemma safe_executeBuiltin:
  assumes "search_configured (t_web E)"
  shows "safe (executeBuiltin E t c) (\<lambda>_. True)"
proof (rule safeI)
  fix d
  obtain a d1 where "executeWebSearch E c (t_now E d) d = (Ret a, d1)"
    using safe_executeWebSearch [OF assms] by (rule safeE)
  then show "\<exists>a d'. executeBuiltin E t c d = (Ret a, d') \<and> True" by (simp add: executeBuiltin_def Let_def)
qed

lemma safe_run_tool: "search_configured (t_web E) \<Longrightarrow> safe (run_tool E s t c) (\<lambda>_. True)"
  unfolding run_tool_def
  by (intro safe_if safe_option safe_prod safe_gret safe_quietly safe_gbind [OF safe_executeBuiltin]
      safe_gbind [where P = "\<lambda>_. True", OF safe_grun] TrueI)

lemma safe_Execute:
  assumes "search_configured (t_web E)"
  shows "safe (Execute E s c) (\<lambda>_. True)"
proof -
  have search: "safe (on_store (\<lambda>d. gbind (executeWebSearch E c (t_now E d)) (\<lambda>(r, task). gret (Inr r, task)) d)) (\<lambda>_. True)"
    by (rule safe_on_store, rule safe_at)
      (intro safe_gbind [OF safe_executeWebSearch [OF assms]] safe_prod safe_gret TrueI)
  have fetch: "safe (on_store (\<lambda>d. gbind (grun (executeWebFetch E c (t_now E d))) (\<lambda>(r, task). gret (Inr r, task)) d)) (\<lambda>_. True)"
    by (rule safe_on_store, rule safe_at)
      (intro safe_gbind [where P = "\<lambda>_. True", OF safe_grun] safe_prod safe_gret TrueI)
  show ?thesis
    unfolding Execute_def
    by (intro safe_if safe_sum safe_gret safe_on_store search fetch safe_run_tool [OF assms]
        safe_gbind [where P = "\<lambda>_. True", OF safe_grun] TrueI)
qed

lemma safe_MCPHandler:
  assumes "search_configured (t_web E)"
  shows "safe (MCPHandler E s body) (\<lambda>_. True)"
  unfolding MCPHandler_def mcp_Handle_def handle_method_def handleToolsCall_def Let_def
  by (rule safe_gbind [where P = "\<lambda>_. True"])
    (intro safe_if safe_sum safe_prod safe_gret safe_gbind [OF safe_Execute [OF assms]]
      safe_gbind [where P = "\<lambda>_. True", OF safe_grun] TrueI)+

section \<open>Handlers\<close>

lemma safe_outside:
  assumes "safe (m :: ('w, 'a) prog) Q"
  shows "safe (outside m :: ('e gateway_state \<times> 'w, 'a) prog) Q"
proof (rule safe_pairI)
  fix g :: "'e gateway_state" and w :: 'w
  from assms obtain a w1 where "m w = (Ret a, w1)" "Q a" by (rule safeE)
  then show "\<exists>a s'. outside m (g, w) = (Ret a, s') \<and> Q a" by (simp add: outside_def)
qed

lemma safe_with_slot:
  assumes "safe (m :: ('e gateway_state \<times> 'w, reply) prog) Q" and "Q busy"
  shows "safe (with_slot busy m) Q"
proof (rule safe_pairI)
  fix g :: "'e gateway_state" and w :: 'w
  obtain ok p where a: "Acquire (gw_pool g) = (ok, p)" by fastforce
  obtain r g2 w2 where "m (g\<lparr>gw_pool := p\<rparr>, w) = (Ret r, (g2, w2))" "Q r"
    using assms(1) by (metis safeE prod.exhaust)
  with a assms(2) show "\<exists>r s'. with_slot busy m (g, w) = (Ret r, s') \<and> Q r"
    by (cases ok) (simp_all add: with_slot_def)
qed

lemma safe_stream_slot:
  assumes "safe (prepare :: ('e gateway_state \<times> 'w, 'a) prog) P" and "\<And>a. P a \<Longrightarrow> safe (writer a) Q" and "Q busy"
  shows "safe (with_stream_slot busy prepare writer) Q"
proof (rule safe_pairI)
  fix g :: "'e gateway_state" and w :: 'w
  obtain ok p where a: "Acquire (gw_pool g) = (ok, p)" by fastforce
  obtain x t where x: "prepare (g\<lparr>gw_pool := p\<rparr>, w) = (Ret x, t)" "P x"
    using assms(1) by (metis safeE)
  obtain r g2 w2 where "writer x t = (Ret r, (g2, w2))" "Q r"
    using assms(2) [OF x(2)] by (metis safeE prod.exhaust)
  with a x(1) assms(3) show "\<exists>r s'. with_stream_slot busy prepare writer (g, w) = (Ret r, s') \<and> Q r"
    by (cases ok) (simp_all add: with_stream_slot_def)
qed

lemma safe_on_gateway:
  assumes "safe (m :: ('e gateway_state \<times> 'w, 'a) prog) Q"
  shows "safe (on_gateway m) Q"
proof (rule safe_pairI)
  fix v :: "'e server_state" and w :: 'w
  obtain r g w1 where "m (sv_gateway v, w) = (Ret r, (g, w1))" "Q r"
    using assms by (metis safeE prod.exhaust)
  then show "\<exists>r s'. on_gateway m (v, w) = (Ret r, s') \<and> Q r" by (simp add: on_gateway_def)
qed

lemma safe_on_registry:
  assumes "safe (m :: (registry \<times> 'w, 'a) prog) Q"
  shows "safe (on_registry m :: ('e server_state \<times> 'w, 'a) prog) Q"
proof (rule safe_pairI)
  fix v :: "'e server_state" and w :: 'w
  obtain r g w1 where "m (sv_registry v, w) = (Ret r, (g, w1))" "Q r"
    using assms by (metis safeE prod.exhaust)
  then show "\<exists>r s'. on_registry m (v, w) = (Ret r, s') \<and> Q r" by (simp add: on_registry_def)
qed

lemma safe_on_world: "safe (on_world m) (\<lambda>_. True)"
  by (auto simp: safe_def on_world_def split: prod.splits)

lemma safe_on_adapter:
  assumes "safe m Q"
  shows "safe (on_adapter m) Q"
proof (rule safeI)
  fix w :: "'a world"
  obtain r a x where "m (the_adapter w, the_rest w) = (Ret r, (a, x))" "Q r"
    using assms by (metis safeE prod.exhaust)
  then show "\<exists>r w'. on_adapter m w = (Ret r, w') \<and> Q r" by (simp add: on_adapter_def)
qed

section \<open>The contract of the services\<close>

text \<open>
  What the server relies on: a backend that answers with a choice, a stream that returns, the search tool
  as the searcher, and no embedding client, so that the semantic cache is off.
\<close>

locale running_gateway =
  fixes S :: "('w, 'e) services"
  assumes backend: "inference_backend (gw_generate (s_gateway S))"
    and stream_returns: "safe (gw_stream (s_gateway S) req) (\<lambda>_. True)"
    and searcher: "\<exists>learns. gw_search (s_gateway S) = Some (toolsWebSearchAdapter (t_web (s_tools S)) learns)"
    and no_embeddings: "gw_embed (s_gateway S) = None"

sublocale running_gateway \<subseteq> inference_backend "gw_generate (s_gateway S)"
  by (rule backend)

context running_gateway
begin

lemma safe_LoadAndTrim: "safe (LoadAndTrim R unix_now (gw_generate (s_gateway S)) sid) (\<lambda>_. True)"
  unfolding LoadAndTrim_def Let_def
  by (intro safe_gbind [where P = "\<lambda>_. True", OF safe_grun] safe_sum safe_option safe_if safe_gret
      safe_gbind [OF generate_good] TrueI)

lemma safe_with_history: "safe (with_history (s_gateway S) req) (\<lambda>_. True)"
  unfolding with_history_def
  by (intro safe_if safe_gbind [OF safe_outside [OF safe_LoadAndTrim]] safe_sum safe_gret TrueI)

lemma safe_cache_lookup:
  "safe (cache_lookup (s_gateway S) ms) (\<lambda>p. p = (None, None))"
  by (auto simp: safe_def cache_lookup_def no_embeddings)

lemma safe_cache_store: "safe (cache_store None data) (\<lambda>_. True)"
  by (auto simp: safe_def cache_store_def)

lemma safe_gw_augment:
  assumes "search_configured (t_web (s_tools S))"
  shows "safe (gw_augment (s_gateway S) ms) (\<lambda>_. True)"
proof -
  obtain learns where g: "gw_search (s_gateway S) = Some (toolsWebSearchAdapter (t_web (s_tools S)) learns)"
    using searcher by blast
  have "safe (Augment (toolsWebSearchAdapter (t_web (s_tools S)) learns) ms) (\<lambda>_. True)"
    by (rule safe_Augment) (rule safe_adapter_search [OF assms])
  then show ?thesis
    unfolding gw_augment_def g option.case
    by (intro safe_gbind [OF safe_outside] safe_prod safe_gret TrueI)
qed

lemma safe_chat_generate:
  assumes "search_configured (t_web (s_tools S))"
  shows "safe (chat_generate (s_gateway S) req None) (\<lambda>_. True)"
  unfolding chat_generate_def Let_def
  by (intro safe_gbind [OF safe_with_history] safe_gbind [OF safe_gw_augment [OF assms]] safe_prod safe_sum safe_gret
      safe_gbind [OF safe_outside [OF generate_good]] safe_gbind [OF safe_cache_store]
      safe_gbind [where P = "\<lambda>_. True", OF safe_outside [OF safe_grun]] TrueI)

lemma safe_chatComplete:
  assumes "search_configured (t_web (s_tools S))"
  shows "safe (chatComplete (s_gateway S) req) (\<lambda>_. True)"
  unfolding chatComplete_def
  by (intro safe_with_slot safe_gbind [OF safe_cache_lookup] TrueI)
    (auto intro: safe_chat_generate [OF assms])

lemma safe_chatStream:
  assumes "search_configured (t_web (s_tools S))"
  shows "safe (chatStream (s_gateway S) client req) (\<lambda>_. True)"
  unfolding chatStream_def chat_writer_def Let_def
  by (rule safe_stream_slot [OF safe_gw_augment [OF assms]])
    (intro safe_prod safe_sum safe_gret safe_gbind [OF safe_outside [OF stream_returns]]
      safe_gbind [where P = "\<lambda>_. True", OF safe_outside [OF safe_grun]] TrueI)+

lemma safe_ChatHandler:
  assumes "search_configured (t_web (s_tools S))"
  shows "safe (ChatHandler (s_gateway S) client body) (\<lambda>_. True)"
  unfolding ChatHandler_def
  by (intro safe_sum safe_if safe_gret safe_chatStream [OF assms] safe_chatComplete [OF assms] TrueI)

lemma safe_run_agent: "safe (run_agent (s_gateway S) A model ms mt) (\<lambda>_. True)"
proof (rule safe_pairI)
  fix g :: "'e gateway_state" and w :: 'w
  obtain wd w1 where d: "agentWorkdir (s_gateway S) A w = (wd, w1)" by fastforce
  obtain r w2 where "RunAgentLoop (ag_exec A) (gw_generate (s_gateway S)) (ag_tempdir A) model (gw_ids g) ms mt wd w1 = (Ret r, w2)"
    using safe_RunAgentLoop by (rule safeE)
  then show "\<exists>r s. run_agent (s_gateway S) A model ms mt (g, w) = (Ret r, s) \<and> True"
    by (cases r) (simp add: run_agent_def d)
qed

lemma safe_msg_id: "safe (msg_id G) (\<lambda>_. True)"
  unfolding msg_id_def by (intro safe_outside safe_grun TrueI)

lemma safe_messagesAgent:
  assumes "search_configured (t_web (s_tools S))"
  shows "safe (messagesAgent (s_gateway S) A model ms mt) (\<lambda>_. True)"
  unfolding messagesAgent_def
  by (intro safe_with_slot safe_gbind [OF safe_gw_augment [OF assms]] safe_gbind [OF safe_run_agent] safe_prod
      safe_option safe_gbind [OF safe_msg_id] safe_gret TrueI)

lemma safe_messagesAgentStream:
  assumes "search_configured (t_web (s_tools S))"
  shows "safe (messagesAgentStream (s_gateway S) A model ms mt) (\<lambda>_. True)"
  unfolding messagesAgentStream_def
  by (rule safe_stream_slot [where P = "\<lambda>_. True"])
    (intro safe_gbind [OF safe_gw_augment [OF assms]] safe_gbind [OF safe_run_agent] safe_prod
      safe_gbind [OF safe_msg_id] safe_gret TrueI)+

lemma safe_messagesComplete:
  assumes "search_configured (t_web (s_tools S))"
  shows "safe (messagesComplete (s_gateway S) model ms mt hasTools) (\<lambda>_. True)"
  unfolding messagesComplete_def
  by (intro safe_with_slot safe_gbind [OF safe_gw_augment [OF assms]]
      safe_gbind [OF safe_outside [OF generate_good]] safe_prod safe_sum safe_gret TrueI)
    (auto simp: safe_def Let_def split: option.split prod.split)

lemma safe_messagesStream:
  assumes "search_configured (t_web (s_tools S))"
  shows "safe (messagesStream (s_gateway S) client model ms mt hasTools) (\<lambda>_. True)"
proof -
  have rest: "safe (\<lambda>(g, w). let full = f r; (tc, ids) = (if b r then parseToolCall full (gw_ids g) else (None, gw_ids g));
       stop = s tc in (Ret (h stop r), (g\<lparr>gw_ids := ids\<rparr>, w))) (\<lambda>_. True)"
    for f b s h and r :: "generate_response list result"
    by (auto simp: safe_def Let_def split: prod.split)
  show ?thesis
    unfolding messagesStream_def
    by (rule safe_stream_slot [OF safe_gw_augment [OF assms]])
      (intro safe_prod rest safe_gbind [OF safe_msg_id] safe_gbind [OF safe_outside [OF stream_returns]] TrueI)+
qed

lemma safe_MessagesHandler:
  assumes "search_configured (t_web (s_tools S))"
  shows "safe (MessagesHandler (s_gateway S) A client header body) (\<lambda>_. True)"
  unfolding MessagesHandler_def Let_def
  by (intro safe_sum safe_if safe_gret safe_messagesAgentStream safe_messagesAgent safe_messagesStream
      safe_messagesComplete assms TrueI)

lemma safe_serve_endpoint:
  assumes "search_configured (t_web (s_tools S))"
  shows "safe (serve_endpoint S client c e x) (\<lambda>_. True)"
proof (cases e)
  case To_Register_Tool
  then show ?thesis unfolding serve_endpoint_def by (simp add: safe_on_registry safe_grun)
next
  case To_MCP
  have "safe (on_registry (gbind (MCPHandler (s_tools S) (s_sandbox S) (CallBody c)) (\<lambda>(r, task). gret r))) (\<lambda>_. True)"
    by (intro safe_on_registry safe_gbind [OF safe_MCPHandler [OF assms]] safe_prod safe_gret TrueI)
  with To_MCP show ?thesis by (simp add: serve_endpoint_def)
qed (simp_all add: serve_endpoint_def safe_gret safe_on_world safe_on_gateway safe_ChatHandler [OF assms]
    safe_MessagesHandler [OF assms])

lemma safe_serve_request:
  assumes "search_configured (t_web (s_tools S))"
  shows "safe (serve_request F S client c) (\<lambda>_. True)"
proof (rule safe_pairI)
  fix s :: "'e server_state" and w :: 'w
  obtain r R where r: "route_request F (s_key S) (s_up S w) (gw_unix_now (s_gateway S) w) c (sv_counters s) = (r, R)" by fastforce
  show "\<exists>a t. serve_request F S client c (s, w) = (Ret a, t) \<and> True"
  proof (cases r)
    case (Inr ex)
    obtain a t where "serve_endpoint S client c (fst ex) (snd ex) (s\<lparr>sv_counters := R\<rparr>, w) = (Ret a, t)"
      using safe_serve_endpoint [OF assms] by (rule safeE)
    with Inr r show ?thesis by (cases ex) (simp add: serve_request_def)
  qed (simp add: serve_request_def r)
qed

lemma safe_serve_all:
  assumes "search_configured (t_web (s_tools S))"
  shows "safe (serve_all F S calls) (\<lambda>rs. length rs = length calls)"
proof (induction calls)
  case (Cons q calls)
  obtain client c where q: "q = (client, c)" by fastforce
  have "safe (gbind (serve_all F S calls) (\<lambda>rs. gret (r # rs))) (\<lambda>rs. length rs = length (q # calls))" for r
    by (rule safe_gbind [OF Cons.IH]) (simp add: safe_gret)
  then show ?case
    unfolding q serve_all.simps by (intro safe_gbind [OF safe_serve_request [OF assms]]) simp
qed (simp add: safe_gret)

end

section \<open>The services of the main program\<close>

lemma main_services_simps [simp]:
  "s_gateway (main_services getenv env st k X) = (main_gateway env k (s_gateway X))
     \<lparr>gw_search := Some (toolsWebSearchAdapter (main_web getenv (t_web (s_tools X))) True)\<rparr>"
  "t_web (s_tools (main_services getenv env st k X)) = main_web getenv (t_web (s_tools X))"
  by (simp_all add: main_services_def RegisterWebAugmenter_def main_tools_def)

lemma safe_backend_Stream: "safe (backend_Stream k env req) (\<lambda>_. True)"
proof (rule safe_pairI)
  fix a w
  show "\<exists>r s. backend_Stream k env req (a, w) = (Ret r, s) \<and> True"
    by (cases k) (simp_all add: backend_Stream_def ollama_Stream_def llamacpp_Stream_def vllm_Stream_def
        bitnet_Stream_def with_breaker_run)
qed

lemma running_main:
  assumes "\<And>req. safe (backend_Generate k env req) good_response"
  shows "running_gateway (main_services getenv env st k X)"
  using assms
  by unfold_locales (auto simp: main_gateway_def intro: safe_on_adapter safe_on_adapter [OF safe_backend_Stream])

interpretation main_ollama: running_gateway "main_services getenv env st OllamaKind X"
  for getenv st and env :: "'o adapter_env" and X :: "('o world, 'e) services"
  by (rule running_main) (simp add: backend_Generate_def ollama.generate_good)

interpretation main_llamacpp: running_gateway "main_services getenv env st LlamaCppKind X"
  for getenv st and env :: "'o adapter_env" and X :: "('o world, 'e) services"
  by (rule running_main) (simp add: backend_Generate_def llamacpp.generate_good)

interpretation main_bitnet: running_gateway "main_services getenv env st BitNetKind X"
  for getenv st and env :: "'o adapter_env" and X :: "('o world, 'e) services"
  by (rule running_main) (simp add: backend_Generate_def bitnet.generate_good)

lemma main_serves_all:
  assumes "k \<noteq> VLLMKind" and "search_configured (main_web getenv (t_web (s_tools X)))"
  shows "safe (serve_all F (main_services getenv env st k X) calls) (\<lambda>rs. length rs = length calls)"
  using assms main_ollama.safe_serve_all main_llamacpp.safe_serve_all main_bitnet.safe_serve_all by (cases k) simp_all

lemma NewBackend_kind:
  assumes "NewBackend getenv = Inr (k, a)" and "getenv ''INFERENCE_BACKEND'' \<noteq> ''vllm''"
  shows "k \<noteq> VLLMKind"
proof -
  define sel where "sel = getenv ''INFERENCE_BACKEND''"
  from assms have "sel \<noteq> ''vllm''" by (simp only: sel_def not_False_eq_True)
  with assms(1) show ?thesis
    unfolding NewBackend_def Let_def sel_def [symmetric]
    by (cases "sel = ''llamacpp''"; cases "sel = ''bitnet''") (auto split: sum.splits)
qed

lemma main_start_cases:
  assumes "main_start getenv pool_error P db = (Inr m, db1)"
  obtains k a where "NewBackend getenv = Inr (k, a)" and "run_kind m = k" and "run_adapter m = a"
    and "run_server m = NewServer getenv" and "Bootstrap P db = (None, db1)"
  using assms by (auto simp: main_start_def split: option.splits prod.splits sum.splits)

section \<open>Slots\<close>

lemma pool_of_update [simp]: "sv_gateway (s\<lparr>sv_counters := R\<rparr>) = sv_gateway s" "sv_gateway (s\<lparr>sv_registry := V\<rparr>) = sv_gateway s"
  by simp_all

text \<open>A program of the server that gives back the slots it takes whenever it returns.\<close>

definition balanced :: "('e server_state \<times> 'w, 'a) prog \<Rightarrow> bool" where
  "balanced m \<longleftrightarrow> (\<forall>s r s'. m s = (Ret r, s') \<longrightarrow> gw_pool (sv_gateway (fst s')) = gw_pool (sv_gateway (fst s)))"

lemma balanced_gret: "balanced (gret a)"
  by (simp add: balanced_def)

lemma balanced_gbind: "balanced m \<Longrightarrow> (\<And>a. balanced (f a)) \<Longrightarrow> balanced (gbind m f)"
  unfolding balanced_def gbind_Ret_iff by metis

lemma balanced_on_world: "balanced (on_world m)"
  by (auto simp: balanced_def on_world_def split: prod.splits)

lemma balanced_on_registry: "balanced (on_registry m)"
  by (auto simp: balanced_def on_registry_def split: prod.splits)

lemma balanced_on_gateway:
  assumes "\<And>s r s'. m s = (Ret r, s') \<Longrightarrow> gw_pool (fst s') = gw_pool (fst s)"
  shows "balanced (on_gateway m)"
  using assms by (fastforce simp: balanced_def on_gateway_def split: prod.splits)

lemma balanced_serve_endpoint: "balanced (serve_endpoint S client c e x)"
  by (cases e) (auto simp: serve_endpoint_def intro: balanced_gret balanced_on_world balanced_on_registry
      balanced_on_gateway chat_pool_balanced messages_pool_balanced)

lemma balanced_serve_request: "balanced (serve_request F S client c)"
  unfolding balanced_def
proof (intro allI impI)
  fix s r s' assume run: "serve_request F S client c s = (Ret r, s')"
  obtain v w where s: "s = (v, w)" by fastforce
  obtain q R where q: "route_request F (s_key S) (s_up S w) (gw_unix_now (s_gateway S) w) c (sv_counters v) = (q, R)"
    by fastforce
  show "gw_pool (sv_gateway (fst s')) = gw_pool (sv_gateway (fst s))"
  proof (cases q)
    case (Inl x)
    with run q s show ?thesis by (auto simp: serve_request_def)
  next
    case (Inr ex)
    with run q s have "serve_endpoint S client c (fst ex) (snd ex) (v\<lparr>sv_counters := R\<rparr>, w) = (Ret r, s')"
      by (cases ex) (simp add: serve_request_def)
    with balanced_serve_endpoint have "gw_pool (sv_gateway (fst s')) = gw_pool (sv_gateway (fst (v\<lparr>sv_counters := R\<rparr>, w)))"
      unfolding balanced_def by blast
    with s show ?thesis by simp
  qed
qed

lemma balanced_serve_all: "balanced (serve_all F S calls)"
proof (induction calls)
  case (Cons q calls)
  then show ?case
    by (cases q) (auto intro!: balanced_gbind balanced_serve_request balanced_gret)
qed (simp add: balanced_def)

section \<open>Properties\<close>

text \<open>
  C39. Requests served one after the other give every worker slot back, whatever the endpoints, the
  backend, the searcher and the clients that leave early do, as long as no handler panics.
\<close>

theorem server_gives_slots_back:
  assumes "serve_all F S calls (s, w) = (Ret rs, (s', w'))"
  shows "gw_pool (sv_gateway s') = gw_pool (sv_gateway s)"
  using balanced_serve_all [of F S calls] assms unfolding balanced_def by (metis fst_conv)


section \<open>Samples\<close>

text \<open>An environment that sets the key only, and a client that asks for the models and sends a chat message.\<close>

definition only_key :: "string \<Rightarrow> string" where
  "only_key name = (if name = ''CAW_API_KEY'' then ''k'' else [])"

definition chat_call :: http_call where
  "chat_call = \<lparr>CallMethod = ''POST'', CallPath = ''/v1/chat/completions'', CallKey = ''k'', CallAuthorization = [],
     CallModel = [], CallBody = ''{\"model\":\"m\",\"messages\":[{\"role\":\"user\",\"content\":\"hi\"}]}''\<rparr>"

definition two_calls :: "((nat \<Rightarrow> bool) \<times> http_call) list" where
  "two_calls = [(\<lambda>_. True, list_models ''k''), (\<lambda>_. False, chat_call)]"

definition sample_start :: "unit started result \<times> pgdb" where
  "sample_start = main_start only_key (\<lambda>_. None) calm_pg empty_db"

lemma sample_started: "\<exists>m db. sample_start = (Inr m, db) \<and> run_address m = '':8080''"
proof -
  have "(case sample_start of (Inr m, db) \<Rightarrow> run_address m = '':8080'' | _ \<Rightarrow> False) = True" by code_simp
  then show ?thesis by (auto split: prod.splits sum.splits)
qed

lemma sample_configured: "search_configured (main_web only_key W)"
  by (simp add: search_configured_def main_web_def only_key_def)


lemma server_gives_slots_back_witness:
  "\<forall>(env :: unit adapter_env) st (X :: (unit world, unit) services) s w. \<exists>rs s' w'. serve_all plain_paths (main_services only_key env st OllamaKind X) two_calls (s, w)
     = (Ret rs, (s', w')) \<and> gw_pool (sv_gateway s') = gw_pool (sv_gateway s)"
proof (intro allI)
  fix env :: "unit adapter_env" and st and X :: "(unit world, unit) services" and s w
  have "safe (serve_all plain_paths (main_services only_key env st OllamaKind X) two_calls)
      (\<lambda>rs. length rs = length two_calls)"
    by (rule main_serves_all) (simp_all add: sample_configured)
  then obtain rs t where "serve_all plain_paths (main_services only_key env st OllamaKind X) two_calls (s, w) = (Ret rs, t)"
    by (rule safeE)
  moreover obtain s' w' where "t = (s', w')" by fastforce
  ultimately have run: "serve_all plain_paths (main_services only_key env st OllamaKind X) two_calls (s, w)
     = (Ret rs, (s', w'))" by simp
  from server_gives_slots_back [OF run] run
  show "\<exists>rs s' w'. serve_all plain_paths (main_services only_key env st OllamaKind X) two_calls (s, w)
     = (Ret rs, (s', w')) \<and> gw_pool (sv_gateway s') = gw_pool (sv_gateway s)" by metis
qed

end
