(* ===== verification/ONNX_Client.thy ===== *)
theory ONNX_Client
  imports Embed_Client Go_Floats
begin

text \<open>
  The local client of embeddings, \<open>internal/embed/onnx_client.go\<close>, its stub and the factory that chooses a
  client, \<open>onnx_client_stub.go\<close> and \<open>factory.go\<close>. No ONNX library is called yet: a loaded model, like none
  at all, gives the deterministic vector of the text.

  SHA-256 (32 bytes), float arithmetic and the file system's answer about the model are parameters. A call
  reads the clock when it begins and when its inference is over.
\<close>

record onnx_client =
  modelPath :: string
  modelLoaded :: bool
  loadErr :: "goerr option"
  onnxBreaker :: ebreaker
  onnxCache :: embed_cache

definition NewONNXEmbedClient ::
  "(string \<Rightarrow> goerr option) \<Rightarrow> string \<Rightarrow> (ebreaker \<Rightarrow> ebreaker) list \<Rightarrow> onnx_client" where
  "NewONNXEmbedClient stat path opts =
     (let c = \<lparr>modelPath = path, modelLoaded = False, loadErr = None,
               onnxBreaker = embed_NewCircuitBreaker opts, onnxCache = NewLRUCache 1000 embedTTL\<rparr>
      in if path = [] then c
         else case stat path of
           Some e \<Rightarrow> c\<lparr>loadErr := Some (''onnx: model file not found: '' @ e)\<rparr>
         | None \<Rightarrow> c\<lparr>modelLoaded := True\<rparr>)"

definition onnxCacheKey :: "(string \<Rightarrow> string) \<Rightarrow> string \<Rightarrow> string" where
  "onnxCacheKey sum256 t = concat (map (\<lambda>c. hex_pad 2 (of_char c)) (sum256 t))"

text \<open>The component \<open>i\<close> before normalisation: the first two bytes of a digest, over 32768.\<close>

definition raw_component :: "'d floats \<Rightarrow> (string \<Rightarrow> string) \<Rightarrow> string list \<Rightarrow> nat \<Rightarrow> string" where
  "raw_component F sum256 ws i =
     (let h = sum256 (dec_of_nat i @ '':'' @ join ''|'' ws)
      in s_div F (s_of_int F (int (of_char (h ! 0)) * 256 + int (of_char (h ! 1)))) (s_of_int F 32768))"

definition deterministicEmbedding :: "'d floats \<Rightarrow> (string \<Rightarrow> string) \<Rightarrow> string \<Rightarrow> embedding" where
  "deterministicEmbedding F sum256 t =
     (let ws = (if Go_Strings.fields t = [] then [t] else Go_Strings.fields t);
          vec = map (raw_component F sum256 ws) [0..<384];
          norm = f_sqrt F (f_dot F vec vec)
      in if f_less F (f_zero F) norm then map (\<lambda>v. narrow F (f_div F (widen F v) norm)) vec else vec)"

definition runInference :: "'d floats \<Rightarrow> (string \<Rightarrow> string) \<Rightarrow> onnx_client \<Rightarrow> string \<Rightarrow> embedding result" where
  "runInference F sum256 c t =
     (case loadErr c of Some e \<Rightarrow> Inl e | None \<Rightarrow> Inr (deterministicEmbedding F sum256 t))"

definition onnx_Embed ::
  "'d floats \<Rightarrow> (string \<Rightarrow> string) \<Rightarrow> int \<Rightarrow> int \<Rightarrow> string \<Rightarrow> onnx_client \<Rightarrow> embedding result \<times> onnx_client" where
  "onnx_Embed F sum256 now later t c =
     (let key = onnxCacheKey sum256 t; (hit, cache) = embed_Get now key (onnxCache c); c1 = c\<lparr>onnxCache := cache\<rparr>
      in case hit of
        Some v \<Rightarrow> (Inr v, c1)
      | None \<Rightarrow>
          (case embed_Allow now (onnxBreaker c1) of
             (Some e, b) \<Rightarrow> (Inl e, c1\<lparr>onnxBreaker := b\<rparr>)
           | (None, b) \<Rightarrow>
               (case runInference F sum256 c1 t of
                  Inl e \<Rightarrow> (Inl e, c1\<lparr>onnxBreaker := embed_RecordFailure later b\<rparr>)
                | Inr v \<Rightarrow> (Inr v, c1\<lparr>onnxCache := embed_Set later key v (onnxCache c1),
                                    onnxBreaker := embed_RecordSuccess b\<rparr>))))"

definition onnx_HealthCheck :: "onnx_client \<Rightarrow> goerr option" where
  "onnx_HealthCheck c =
     (case loadErr c of Some e \<Rightarrow> Some e
      | None \<Rightarrow> if \<not> modelLoaded c then Some ''onnx: no model loaded (mock mode)'' else None)"

section \<open>The client of a build without cgo\<close>

definition stub_Embed :: "string \<Rightarrow> embedding result" where
  "stub_Embed t = Inl ''onnx: ONNX embedding requires CGO_ENABLED=1''"

definition stub_HealthCheck :: "goerr option" where
  "stub_HealthCheck = Some ''onnx: ONNX embedding requires CGO_ENABLED=1''"

section \<open>The factory\<close>

datatype embed_backend = HTTP_Backend embed_client | ONNX_Backend onnx_client

definition NewEmbedClientFromEnv ::
  "(string \<Rightarrow> string) \<Rightarrow> (string \<Rightarrow> goerr option) \<Rightarrow> (ebreaker \<Rightarrow> ebreaker) list \<Rightarrow> embed_backend" where
  "NewEmbedClientFromEnv getenv stat opts =
     (if getenv ''EMBED_BACKEND'' = ''onnx''
      then ONNX_Backend (NewONNXEmbedClient stat (getenv ''EMBED_MODEL_PATH'') opts)
      else HTTP_Backend (NewHTTPEmbedClient
             (if getenv ''EMBED_SERVICE_URL'' = [] then ''http://localhost:8080'' else getenv ''EMBED_SERVICE_URL'') opts))"

section \<open>Calls one after the other\<close>

fun onnx_run ::
  "'d floats \<Rightarrow> (string \<Rightarrow> string) \<Rightarrow> (int \<times> int \<times> string) list \<Rightarrow> onnx_client \<Rightarrow> embedding result list \<times> onnx_client" where
  "onnx_run F sum256 [] c = ([], c)"
| "onnx_run F sum256 ((now, later, t) # qs) c =
     (let (r, c1) = onnx_Embed F sum256 now later t c; (rs, c2) = onnx_run F sum256 qs c1 in (r # rs, c2))"

lemma deterministicEmbedding_length [simp]: "length (deterministicEmbedding F sum256 t) = 384"
  by (simp add: deterministicEmbedding_def Let_def)

text \<open>Every entry of the cache is the vector of the text with its key, among the texts \<open>T\<close>.\<close>

definition onnx_ok :: "'d floats \<Rightarrow> (string \<Rightarrow> string) \<Rightarrow> string set \<Rightarrow> onnx_client \<Rightarrow> bool" where
  "onnx_ok F sum256 T c \<longleftrightarrow>
     cache_ok 1000 embedTTL (onnxCache c) \<and> loadErr c = None \<and> estate (onnxBreaker c) = StateClosed
     \<and> (\<forall>(k, v, x) \<in> set (recent (onnxCache c)). \<forall>t \<in> T. onnxCacheKey sum256 t = k \<longrightarrow> v = deterministicEmbedding F sum256 t)"

lemma lru_get_subset: "set (snd (lru_get f k xs)) \<subseteq> set xs"
  by (auto simp: lru_get_def lru_del_def dest: map_of_SomeD split: option.splits if_splits)

lemma lru_get_hit: "fst (lru_get f k xs) = Some v \<Longrightarrow> (k, v) \<in> set xs"
  by (auto simp: lru_get_def dest: map_of_SomeD split: option.splits if_splits)

lemma lru_put_subset: "set (lru_put cap k v xs) \<subseteq> insert (k, v) (set xs)"
  by (auto simp: lru_put_def lru_del_def dest: in_set_butlastD)

lemma onnx_Embed_ok:
  assumes "onnx_ok F sum256 T c" and "t \<in> T" and inj: "inj_on (onnxCacheKey sum256) T"
  shows "fst (onnx_Embed F sum256 now later t c) = Inr (deterministicEmbedding F sum256 t)
    \<and> onnx_ok F sum256 T (snd (onnx_Embed F sum256 now later t c))"
proof -
  let ?k = "onnxCacheKey sum256 t" and ?d = "deterministicEmbedding F sum256 t"
  from assms(1) have ok: "cache_ok 1000 embedTTL (onnxCache c)" "loadErr c = None" "estate (onnxBreaker c) = StateClosed"
    and vals: "\<And>k v x u. (k, v, x) \<in> set (recent (onnxCache c)) \<Longrightarrow> u \<in> T \<Longrightarrow> onnxCacheKey sum256 u = k
      \<Longrightarrow> v = deterministicEmbedding F sum256 u"
    by (auto simp: onnx_ok_def)
  obtain h cache where g: "embed_Get now ?k (onnxCache c) = (h, cache)" by (metis prod.exhaust)
  note R = embed_Get_refines [OF ok(1), of now ?k, unfolded g, simplified]
  have sub: "set (recent cache) \<subseteq> set (recent (onnxCache c))"
    using R lru_get_subset by metis
  show ?thesis
  proof (cases h)
    case (Some v)
    with R have "map_option fst (fst (lru_get (\<lambda>e. now \<le> snd e) ?k (recent (onnxCache c)))) = Some v" by simp
    then obtain x where "fst (lru_get (\<lambda>e. now \<le> snd e) ?k (recent (onnxCache c))) = Some (v, x)" by auto
    from lru_get_hit [OF this] have "(?k, v, x) \<in> set (recent (onnxCache c))" .
    with vals [of ?k v x t] assms(2) have "v = ?d" by simp
    moreover have "onnx_ok F sum256 T (c\<lparr>onnxCache := cache\<rparr>)"
      using ok R sub vals by (fastforce simp: onnx_ok_def)
    ultimately show ?thesis using Some g by (simp add: onnx_Embed_def Let_def)
  next
    case None
    from R embed_Set_refines [of 1000 embedTTL cache later ?k ?d]
    have S: "cache_ok 1000 embedTTL (embed_Set later ?k ?d cache)"
      "recent (embed_Set later ?k ?d cache) = lru_put 1000 ?k (?d, later + embedTTL) (recent cache)" by simp_all
    have "set (recent (embed_Set later ?k ?d cache)) \<subseteq> insert (?k, ?d, later + embedTTL) (set (recent (onnxCache c)))"
      unfolding S(2) using sub lru_put_subset [of 1000 ?k "(?d, later + embedTTL)" "recent cache"] by blast
    moreover have "?d = deterministicEmbedding F sum256 u" if "u \<in> T" "onnxCacheKey sum256 u = ?k" for u
      using inj_onD [OF inj that(2)] that(1) assms(2) by simp
    ultimately have "onnx_ok F sum256 T (c\<lparr>onnxCache := embed_Set later ?k ?d cache, onnxBreaker := embed_RecordSuccess (onnxBreaker c)\<rparr>)"
      using ok R S vals by (fastforce simp: onnx_ok_def embed_RecordSuccess_def)
    then show ?thesis using None g ok by (simp add: onnx_Embed_def Let_def embed_Allow_def runInference_def)
  qed
qed

lemma onnx_run_ok:
  "onnx_ok F sum256 T c \<Longrightarrow> (\<lambda>(now, later, t). t) ` set qs \<subseteq> T \<Longrightarrow> inj_on (onnxCacheKey sum256) T \<Longrightarrow>
   fst (onnx_run F sum256 qs c) = map (\<lambda>(now, later, t). Inr (deterministicEmbedding F sum256 t)) qs"
proof (induction qs arbitrary: c)
  case (Cons q qs)
  obtain now later t where q: "q = (now, later, t)" by (cases q)
  with Cons.prems have "t \<in> T" by auto
  obtain r c1 where e: "onnx_Embed F sum256 now later t c = (r, c1)" by (metis prod.exhaust)
  with onnx_Embed_ok [OF Cons.prems(1) \<open>t \<in> T\<close> Cons.prems(3), of now later]
  have "r = Inr (deterministicEmbedding F sum256 t)" "onnx_ok F sum256 T c1" by simp_all
  with Cons.IH [of c1] Cons.prems(2,3) q e show ?case by (simp add: case_prod_unfold Let_def)
qed simp

lemma options_closed: "estate (embed_NewCircuitBreaker (map WithOpenDuration ds)) = StateClosed"
proof -
  have "estate (fold (\<lambda>opt cb. opt cb) (map WithOpenDuration ds) cb) = estate cb" for cb
    by (induction ds arbitrary: cb) (simp_all add: WithOpenDuration_def)
  then show ?thesis by (simp add: embed_NewCircuitBreaker_def)
qed

text \<open>
  C38. A client without a model, or with a model file that exists, answers every text with its deterministic
  vector of 384 components, whether the answer comes from the cache, expired or evicted before, or not: the
  cache and the breaker are not observable, as long as no two of the texts have the same digest.
\<close>

theorem onnx_answers_deterministically:
  assumes "path = [] \<or> stat path = None" and "inj_on (onnxCacheKey sum256) ((\<lambda>(now, later, t). t) ` set qs)"
  shows "fst (onnx_run F sum256 qs (NewONNXEmbedClient stat path (map WithOpenDuration ds)))
      = map (\<lambda>(now, later, t). Inr (deterministicEmbedding F sum256 t)) qs
    \<and> (\<forall>t. length (deterministicEmbedding F sum256 t) = 384)"
proof -
  have "onnx_ok F sum256 ((\<lambda>(now, later, t). t) ` set qs) (NewONNXEmbedClient stat path (map WithOpenDuration ds))"
    using assms(1) NewLRUCache_ok [of 1000 embedTTL] options_closed [of ds]
    by (auto simp: onnx_ok_def NewONNXEmbedClient_def Let_def)
  with onnx_run_ok [OF this subset_refl assms(2)] show ?thesis by simp
qed

definition toy_floats :: "int floats" where
  "toy_floats = \<lparr>widen = (\<lambda>s. int (length s)), narrow = dec_of_int, f_zero = 0, f_add = (+), f_mul = (*), f_div = (div),
     f_sqrt = (\<lambda>x. x), f_less = (<), f_eq = (=), s_of_int = dec_of_int, s_div = (\<lambda>a b. a), s_le = (=)\<rparr>"

lemma onnx_answers_deterministically_witness:
  "fst (onnx_run toy_floats (\<lambda>s. s @ ''ab'') [(0, 1, ''x''), (2, 3, ''y''), (4, 5, ''x'')]
      (NewONNXEmbedClient (\<lambda>_. None) ''model'' (map WithOpenDuration [1])))
   = [Inr (deterministicEmbedding toy_floats (\<lambda>s. s @ ''ab'') ''x''), Inr (deterministicEmbedding toy_floats (\<lambda>s. s @ ''ab'') ''y''),
      Inr (deterministicEmbedding toy_floats (\<lambda>s. s @ ''ab'') ''x'')]"
proof -
  have "onnxCacheKey (\<lambda>s. s @ ''ab'') ''x'' \<noteq> onnxCacheKey (\<lambda>s. s @ ''ab'') ''y''" by code_simp
  then show ?thesis
    by (subst onnx_answers_deterministically [THEN conjunct1]) (auto simp: inj_on_def)
qed

text \<open>
  Without the model file the first three texts get the error of the file; then the breaker is open, and
  until its duration is over every text gets the error of the breaker, whatever it is.
\<close>

lemma onnx_without_model:
  assumes "path \<noteq> []" and "stat path = Some e" and "t3 \<le> now" and "now < t3 + d"
  shows "fst (onnx_run F sum256 [(n1, t1, u1), (n2, t2, u2), (n3, t3, u3), (now, later, u)]
      (NewONNXEmbedClient stat path [WithOpenDuration d]))
    = [Inl (''onnx: model file not found: '' @ e), Inl (''onnx: model file not found: '' @ e),
       Inl (''onnx: model file not found: '' @ e), Inl ErrEmbedCircuitOpen]"
  using assms
  by (simp add: onnx_Embed_def NewONNXEmbedClient_def Let_def embed_NewCircuitBreaker_def WithOpenDuration_def
      ebreaker_defs runInference_def embed_Get_def NewLRUCache_def)

end
