(* ===== verification/Semaphore.thy ===== *)
theory Semaphore
  imports Prelude
begin

text \<open>
  The global resource semaphore, \<open>internal/adapter/semaphore.go\<close>, over the weighted semaphore of
  \<open>golang.org/x/sync\<close>. The library is a parameter: its three operations over a state \<open>'s\<close>. A call that
  blocks is a later event, so an acquisition here is the moment at which it returns.
\<close>

record 's weighted =
  sem_new :: "int \<Rightarrow> 's"
  sem_acquire :: "int \<Rightarrow> 's \<Rightarrow> goerr option \<times> 's"
  sem_try :: "int \<Rightarrow> 's \<Rightarrow> bool \<times> 's"
  sem_release :: "int \<Rightarrow> 's \<Rightarrow> 's"

definition maxWeight :: int where "maxWeight = 2"

definition NewGlobalResourceSemaphore :: "'s weighted \<Rightarrow> 's" where
  "NewGlobalResourceSemaphore L = sem_new L maxWeight"

definition AcquireLLM :: "'s weighted \<Rightarrow> 's \<Rightarrow> goerr option \<times> 's" where
  "AcquireLLM L = sem_acquire L 2"

definition ReleaseLLM :: "'s weighted \<Rightarrow> 's \<Rightarrow> 's" where
  "ReleaseLLM L = sem_release L 2"

definition AcquireEmbed :: "'s weighted \<Rightarrow> 's \<Rightarrow> goerr option \<times> 's" where
  "AcquireEmbed L = sem_acquire L 1"

definition ReleaseEmbed :: "'s weighted \<Rightarrow> 's \<Rightarrow> 's" where
  "ReleaseEmbed L = sem_release L 1"

definition TryAcquireLLM :: "'s weighted \<Rightarrow> 's \<Rightarrow> bool \<times> 's" where
  "TryAcquireLLM L = sem_try L 2"

section \<open>Clients\<close>

text \<open>
  The calls at work: how many hold the weight of a generation and how many that of an embedding. A client
  releases what it holds, and begins its work when its acquisition succeeds.
\<close>

inductive clients :: "'s weighted \<Rightarrow> 's \<Rightarrow> nat \<Rightarrow> nat \<Rightarrow> bool" for L where
  idle: "clients L (NewGlobalResourceSemaphore L) 0 0"
| llm: "clients L s g e \<Longrightarrow> AcquireLLM L s = (None, t) \<Longrightarrow> clients L t (Suc g) e"
| llm_gives_up: "clients L s g e \<Longrightarrow> AcquireLLM L s = (Some err, t) \<Longrightarrow> clients L t g e"
| llm_tries: "clients L s g e \<Longrightarrow> TryAcquireLLM L s = (ok, t) \<Longrightarrow> clients L t (if ok then Suc g else g) e"
| llm_ends: "clients L s (Suc g) e \<Longrightarrow> clients L (ReleaseLLM L s) g e"
| embed: "clients L s g e \<Longrightarrow> AcquireEmbed L s = (None, t) \<Longrightarrow> clients L t g (Suc e)"
| embed_gives_up: "clients L s g e \<Longrightarrow> AcquireEmbed L s = (Some err, t) \<Longrightarrow> clients L t g e"
| embed_ends: "clients L s g (Suc e) \<Longrightarrow> clients L (ReleaseEmbed L s) g e"

text \<open>
  The contract of the library, with the weight that is held and the size as a view of its state: an
  acquisition that succeeds fits into the size, one that fails takes nothing, and a release gives back.
\<close>

definition weighted_law :: "'s weighted \<Rightarrow> ('s \<Rightarrow> int) \<Rightarrow> ('s \<Rightarrow> int) \<Rightarrow> bool" where
  "weighted_law L held limit \<longleftrightarrow>
     (\<forall>n. held (sem_new L n) = 0 \<and> limit (sem_new L n) = n)
     \<and> (\<forall>n s t. sem_acquire L n s = (None, t) \<longrightarrow> held t = held s + n \<and> held t \<le> limit s \<and> limit t = limit s)
     \<and> (\<forall>n s err t. sem_acquire L n s = (Some err, t) \<longrightarrow> held t = held s \<and> limit t = limit s)
     \<and> (\<forall>n s t. sem_try L n s = (True, t) \<longrightarrow> held t = held s + n \<and> held t \<le> limit s \<and> limit t = limit s)
     \<and> (\<forall>n s t. sem_try L n s = (False, t) \<longrightarrow> held t = held s \<and> limit t = limit s)
     \<and> (\<forall>n s. n \<le> held s \<longrightarrow> held (sem_release L n s) = held s - n \<and> limit (sem_release L n s) = limit s)"

lemma clients_weight:
  assumes "weighted_law L held limit" and "clients L s g e"
  shows "held s = 2 * int g + int e \<and> limit s = 2 \<and> held s \<le> 2"
  using assms(2)
proof induction
  case idle
  then show ?case using assms(1) by (simp add: weighted_law_def NewGlobalResourceSemaphore_def maxWeight_def)
next
  case (llm_ends s g e)
  then show ?case using assms(1) by (simp add: weighted_law_def ReleaseLLM_def)
next
  case (embed_ends s g e)
  then show ?case using assms(1) by (simp add: weighted_law_def ReleaseEmbed_def)
next
  case (llm_tries s g e ok t)
  then show ?case using assms(1) by (cases ok) (fastforce simp: weighted_law_def TryAcquireLLM_def)+
qed (use assms(1) in \<open>fastforce simp: weighted_law_def AcquireLLM_def AcquireEmbed_def\<close>)+

text \<open>
  C35. Whatever the clients of the semaphore do, at most one generation is at work, and then no embedding;
  without one, at most two embeddings are.
\<close>

theorem generation_excludes_embeddings:
  assumes "weighted_law L held limit" and "clients L s g e"
  shows "(g, e) \<in> {(0, 0), (0, 1), (0, 2), (1, 0)}"
proof -
  have "2 * int g + int e \<le> 2" using clients_weight [OF assms] by simp
  then have "g \<le> 1" "e \<le> 2 - 2 * g" by linarith+
  then show ?thesis by (cases g; cases e) (auto simp: le_Suc_eq numeral_2_eq_2)
qed

definition counting_semaphore :: "(int \<times> int) weighted" where
  "counting_semaphore = \<lparr>sem_new = (\<lambda>n. (0, n)),
     sem_acquire = (\<lambda>n (h, m). if h + n \<le> m then (None, (h + n, m)) else (Some ''context canceled'', (h, m))),
     sem_try = (\<lambda>n (h, m). if h + n \<le> m then (True, (h + n, m)) else (False, (h, m))),
     sem_release = (\<lambda>n (h, m). (h - n, m))\<rparr>"

lemma counting_semaphore_law: "weighted_law counting_semaphore fst snd"
  by (auto simp: weighted_law_def counting_semaphore_def split: if_splits)

lemma generation_excludes_embeddings_witness:
  "clients counting_semaphore (2, 2) 0 2 \<and> (0 :: nat, 2 :: nat) \<in> {(0, 0), (0, 1), (0, 2), (1, 0)}"
proof -
  have a: "clients counting_semaphore (0, 2) 0 0"
    using clients.idle [of counting_semaphore]
    by (simp add: NewGlobalResourceSemaphore_def counting_semaphore_def maxWeight_def)
  have b: "clients counting_semaphore (1, 2) 0 1"
    using clients.embed [OF a, of "(1, 2)"] by (simp add: AcquireEmbed_def counting_semaphore_def)
  have c: "clients counting_semaphore (2, 2) 0 2"
    using clients.embed [OF b, of "(2, 2)"] by (simp add: AcquireEmbed_def counting_semaphore_def numeral_2_eq_2)
  show ?thesis using c generation_excludes_embeddings [OF counting_semaphore_law c] by blast
qed

end
