(* ===== verification/Migration.thy ===== *)
theory Migration
  imports Adapters
begin

text \<open>
  The migration of a collection between two servers of the vector store, \<open>scripts/migrate_qdrant.go\<close>.

  The HTTP client is a parameter, over an unknown world \<open>'w\<close>. A number that is decoded into an
  \<open>interface{}\<close> goes through \<open>float64\<close>: \<open>m_float\<close> maps a literal to the one Go prints for its value, and
  to nothing where the value is out of range. A fatal log entry is the error the program ends with.
\<close>

record 'w migration_env =
  m_http :: "http_request \<Rightarrow> 'w \<Rightarrow> http_response result \<times> 'w"
  m_float :: "string \<Rightarrow> string option"

definition http_get :: "'w migration_env \<Rightarrow> string \<Rightarrow> 'w \<Rightarrow> http_response result \<times> 'w" where
  "http_get E url = m_http E \<lparr>Method = ''GET'', Url = url, Headers = [], ReqBody = []\<rparr>"

definition http_post :: "'w migration_env \<Rightarrow> string \<Rightarrow> json \<Rightarrow> 'w \<Rightarrow> http_response result \<times> 'w" where
  "http_post E url payload =
     m_http E \<lparr>Method = ''POST'', Url = url, Headers = [(''Content-Type'', ''application/json'')],
               ReqBody = json_print payload\<rparr>"

definition bad_status :: "http_response \<Rightarrow> goerr" where
  "bad_status resp = ''status '' @ dec_of_int (Status resp) @ '': '' @ Body resp"

section \<open>The collection\<close>

record collection_metadata =
  PointsCount :: int
  VectorSize :: int

definition decode_metadata :: "string \<Rightarrow> collection_metadata result" where
  "decode_metadata body =
     result_bind (decode_obj body) (\<lambda>ms. result_bind (obj_field ''result'' ms) (\<lambda>r.
       result_bind (int_field ''points_count'' r) (\<lambda>n. result_bind (obj_field ''config'' r) (\<lambda>c.
         result_bind (obj_field ''params'' c) (\<lambda>p. result_bind (int_field ''size'' p) (\<lambda>s.
           Inr \<lparr>PointsCount = n, VectorSize = s\<rparr>))))))"

definition getCollectionMetadata ::
  "'w migration_env \<Rightarrow> string \<Rightarrow> string \<Rightarrow> 'w \<Rightarrow> collection_metadata result \<times> 'w" where
  "getCollectionMetadata E base name w =
     (case http_get E (base @ ''/collections/'' @ name) w of
        (Inl e, w1) \<Rightarrow> (Inl (''request failed: '' @ e), w1)
      | (Inr resp, w1) \<Rightarrow>
          if Status resp \<noteq> 200 then (Inl (bad_status resp), w1)
          else (case decode_metadata (Body resp) of
                  Inl e \<Rightarrow> (Inl (''decode failed: '' @ e), w1)
                | Inr m \<Rightarrow> (Inr m, w1)))"

definition createDistributedCollection ::
  "'w migration_env \<Rightarrow> string \<Rightarrow> string \<Rightarrow> collection_metadata \<Rightarrow> 'w \<Rightarrow> goerr option \<times> 'w" where
  "createDistributedCollection E base name sourceMeta w =
     (case http_post E (base @ ''/collections/'' @ name)
             (JObj [(''replication_factor'', JInt 2),
                    (''vectors'', JObj [(''distance'', JStr ''Cosine''), (''size'', JInt (VectorSize sourceMeta))]),
                    (''write_consistency_factor'', JInt 2)]) w of
        (Inl e, w1) \<Rightarrow> (Some (''request failed: '' @ e), w1)
      | (Inr resp, w1) \<Rightarrow>
          if Status resp \<noteq> 200 \<and> Status resp \<noteq> 201 then (Some (bad_status resp), w1) else (None, w1))"

section \<open>The points\<close>

text \<open>A value decoded into \<open>interface{}\<close>, in the form in which it is sent on.\<close>

fun through_floats :: "(string \<Rightarrow> string option) \<Rightarrow> json \<Rightarrow> json option" where
  "through_floats flt (JNum x) = map_option JNum (flt x)"
| "through_floats flt (JArr vs) = map_option JArr (those (map (through_floats flt) vs))"
| "through_floats flt (JObj ms) =
     map_option JObj (those (map (\<lambda>(k, v). map_option (Pair k) (through_floats flt v)) ms))"
| "through_floats flt v = Some v"

definition as_interface :: "(string \<Rightarrow> string option) \<Rightarrow> json \<Rightarrow> json result" where
  "as_interface flt v = (case through_floats flt v of None \<Rightarrow> Inl ErrJSONType | Some u \<Rightarrow> Inr (canon u))"

definition decode_page :: "(string \<Rightarrow> string option) \<Rightarrow> string \<Rightarrow> (json list \<times> string option) result" where
  "decode_page flt body =
     result_bind (decode_obj body) (\<lambda>ms. result_bind (obj_field ''result'' ms) (\<lambda>r.
       result_bind (list_field (as_interface flt) ''points'' r) (\<lambda>ps.
         result_bind (ptr_field as_str ''next_page_offset'' r) (\<lambda>n. Inr (ps, n)))))"

definition scroll_request :: "string \<Rightarrow> json" where
  "scroll_request offset =
     JObj ([(''limit'', JInt 100)] @ (if offset \<noteq> [] then [(''offset'', JStr offset)] else [])
           @ [(''with_payload'', JBool True), (''with_vector'', JBool True)])"

definition scroll_source ::
  "'w migration_env \<Rightarrow> string \<Rightarrow> string \<Rightarrow> string \<Rightarrow> 'w \<Rightarrow> (json list \<times> string option) result \<times> 'w" where
  "scroll_source E src name offset w =
     (case http_post E (src @ ''/collections/'' @ name @ ''/points/scroll'') (scroll_request offset) w of
        (Inl e, w1) \<Rightarrow> (Inl (''scroll request failed: '' @ e), w1)
      | (Inr resp, w1) \<Rightarrow>
          if Status resp \<noteq> 200 then (Inl (bad_status resp), w1)
          else (case decode_page (m_float E) (Body resp) of
                  Inl e \<Rightarrow> (Inl (''decode scroll response: '' @ e), w1)
                | Inr page \<Rightarrow> (Inr page, w1)))"

definition upsert_target :: "'w migration_env \<Rightarrow> string \<Rightarrow> string \<Rightarrow> json list \<Rightarrow> 'w \<Rightarrow> goerr option \<times> 'w" where
  "upsert_target E tgt name points w =
     (case http_post E (tgt @ ''/collections/'' @ name @ ''/points?wait=true'') (JObj [(''points'', JArr points)]) w of
        (Inl e, w1) \<Rightarrow> (Some (''upsert request failed: '' @ e), w1)
      | (Inr resp, w1) \<Rightarrow>
          if Status resp \<noteq> 200 then (Some (''upsert '' @ bad_status resp), w1) else (None, w1))"

partial_function (option) migrate_from ::
  "'w migration_env \<Rightarrow> string \<Rightarrow> string \<Rightarrow> string \<Rightarrow> string \<Rightarrow> 'w \<Rightarrow> (goerr option \<times> 'w) option" where
  "migrate_from E src tgt name offset w =
     (case scroll_source E src name offset w of
        (Inl e, w1) \<Rightarrow> Some (Some e, w1)
      | (Inr (points, next), w1) \<Rightarrow>
          if points = [] then Some (None, w1)
          else (case upsert_target E tgt name points w1 of
                  (Some e, w2) \<Rightarrow> Some (Some e, w2)
                | (None, w2) \<Rightarrow> (case next of None \<Rightarrow> Some (None, w2) | Some o2 \<Rightarrow> migrate_from E src tgt name o2 w2)))"

definition migratePoints :: "'w migration_env \<Rightarrow> string \<Rightarrow> string \<Rightarrow> string \<Rightarrow> 'w \<Rightarrow> (goerr option \<times> 'w) option" where
  "migratePoints E src tgt name w = migrate_from E src tgt name [] w"

text \<open>\<open>main\<close> with the values of its three flags.\<close>

definition migrate_main :: "'w migration_env \<Rightarrow> string \<Rightarrow> string \<Rightarrow> string \<Rightarrow> 'w \<Rightarrow> (goerr option \<times> 'w) option" where
  "migrate_main E src tgt name w =
     (if name = [] then Some (Some ''--collection flag is required'', w)
      else case getCollectionMetadata E src name w of
        (Inl e, w1) \<Rightarrow> Some (Some (''Failed to fetch source collection metadata: '' @ e), w1)
      | (Inr meta, w1) \<Rightarrow>
          (case createDistributedCollection E tgt name meta w1 of
             (Some e, w2) \<Rightarrow> Some (Some (''Failed to create target collection: '' @ e), w2)
           | (None, w2) \<Rightarrow>
               (case migratePoints E src tgt name w2 of
                  None \<Rightarrow> None
                | Some (Some e, w3) \<Rightarrow> Some (Some (''Failed to migrate points: '' @ e), w3)
                | Some (None, w3) \<Rightarrow> Some (None, w3))))"

section \<open>The target\<close>

text \<open>The requests a migration sends, beside the world of the client.\<close>

definition recorded :: "'w migration_env \<Rightarrow> ('w \<times> http_request list) migration_env" where
  "recorded E = \<lparr>m_http = (\<lambda>r (w, sent). let (a, w1) = m_http E r w in (a, (w1, sent @ [r]))), m_float = m_float E\<rparr>"

text \<open>
  The documented interface of the vector store creates a collection on PUT only, as the program's own
  client does (\<open>internal/memory/qdrant.go\<close>); a POST to the path of a collection is an error.
\<close>

definition creates_on_put :: "'w migration_env \<Rightarrow> string \<Rightarrow> bool" where
  "creates_on_put E base \<longleftrightarrow>
     (\<forall>name hs body w resp w1. m_http E \<lparr>Method = ''POST'', Url = base @ ''/collections/'' @ name, Headers = hs, ReqBody = body\<rparr> w
          = (Inr resp, w1) \<longrightarrow> name \<noteq> [] \<and> CHR ''/'' \<notin> set name \<longrightarrow> Status resp \<ge> 400)"

lemma recorded_http [simp]:
  "m_http (recorded E) r (w, sent) = (fst (m_http E r w), snd (m_http E r w), sent @ [r])"
  by (simp add: recorded_def split: prod.split)

text \<open>
  A migration never copies a point: the target collection is created with POST, where the vector store
  takes PUT. Whatever the source holds, the program ends with an error, and it has sent no request but one
  for the metadata and that one.
\<close>

theorem migration_never_copies:
  assumes "creates_on_put E tgt" and "CHR ''/'' \<notin> set name"
  shows "\<exists>e w1 sent1. migrate_main (recorded E) src tgt name (w, []) = Some (Some e, w1, sent1)
    \<and> map Method sent1 \<in> {[], [''GET''], [''GET'', ''POST'']}"
proof (cases "name = []")
  case True
  then show ?thesis by (simp add: migrate_main_def)
next
  case False
  have refused: "\<exists>e w2 r. createDistributedCollection (recorded E) tgt name m (w1, sent)
      = (Some e, w2, sent @ [r]) \<and> Method r = ''POST''" for m w1 sent
  proof -
    let ?p = "JObj [(''replication_factor'', JInt 2),
      (''vectors'', JObj [(''distance'', JStr ''Cosine''), (''size'', JInt (VectorSize m))]), (''write_consistency_factor'', JInt 2)]"
    let ?r = "\<lparr>Method = ''POST'', Url = tgt @ ''/collections/'' @ name,
      Headers = [(''Content-Type'', ''application/json'')], ReqBody = json_print ?p\<rparr>"
    obtain a w2 where a: "m_http E ?r w1 = (a, w2)" by (metis prod.exhaust)
    show ?thesis
    proof (cases a)
      case (Inr resp)
      with a assms False have "400 \<le> Status resp" unfolding creates_on_put_def by blast
      then have "Status resp \<noteq> 200 \<and> Status resp \<noteq> 201" by linarith
      with a Inr show ?thesis
        by (auto simp: createDistributedCollection_def http_post_def)
    qed (use a in \<open>auto simp: createDistributedCollection_def http_post_def\<close>)
  qed
  let ?g = "\<lparr>Method = ''GET'', Url = src @ ''/collections/'' @ name, Headers = [], ReqBody = []\<rparr>"
  obtain m w1 where m: "getCollectionMetadata (recorded E) src name (w, []) = (m, w1, [?g])"
    by (fastforce simp: getCollectionMetadata_def http_get_def split: sum.split prod.split)
  show ?thesis
  proof (cases m)
    case (Inl e)
    with m False show ?thesis by (simp add: migrate_main_def)
  next
    case (Inr meta)
    obtain e w2 r where "createDistributedCollection (recorded E) tgt name meta (w1, [?g]) = (Some e, w2, [?g] @ [r])"
      and "Method r = ''POST''"
      using refused [of meta w1 "[?g]"] by blast
    with m Inr False show ?thesis by (simp add: migrate_main_def)
  qed
qed

definition put_only_store :: "unit migration_env" where
  "put_only_store = \<lparr>m_http = (\<lambda>r w. (Inr (if Method r = ''GET''
       then \<lparr>Status = 200, Body = json_print (JObj [(''result'', JObj [(''points_count'', JInt 3)])])\<rparr>
       else \<lparr>Status = 404, Body = ''not found''\<rparr>), w)), m_float = Some\<rparr>"

lemma migration_never_copies_witness:
  "\<exists>e w1 sent1. migrate_main (recorded put_only_store) ''http://a'' ''http://b'' ''legal'' ((), []) = Some (Some e, w1, sent1)
    \<and> map Method sent1 \<in> {[], [''GET''], [''GET'', ''POST'']}"
  by (rule migration_never_copies) (simp_all add: creates_on_put_def put_only_store_def)

end
