(* ===== verification/Metrics.thy ===== *)
theory Metrics
  imports Prelude
begin

text \<open>
  \<open>internal/observability/metrics.go\<close>, \<open>middleware.go\<close> and \<open>tracing.go\<close>: the metrics of the process, their
  registration, the gauge of requests in flight, the histogram of Redis latencies, and the names of spans. The metrics library is a parameter:
  the operations of a gauge and of a histogram on the world, and the registration of one collector, which
  panics when the registry refuses it.
\<close>

section \<open>The metrics\<close>

datatype metric_kind = Gauge | GaugeFunc | Histogram "string list" | CounterVec "string list"

record metric =
  MetricName :: string
  MetricHelp :: string
  MetricKind :: metric_kind

definition RequestsInFlight :: metric where
  "RequestsInFlight = \<lparr>MetricName = ''caw_requests_in_flight'',
     MetricHelp = ''Current number of requests being processed by the worker pool.'', MetricKind = Gauge\<rparr>"

definition RedisLatency :: metric where
  "RedisLatency = \<lparr>MetricName = ''caw_redis_latency_seconds'', MetricHelp = ''Redis command latency in seconds.'',
     MetricKind = Histogram [''0.001'', ''0.005'', ''0.010'', ''0.025'', ''0.050'', ''0.100'']\<rparr>"

definition IngestDLQDepth :: metric where
  "IngestDLQDepth = \<lparr>MetricName = ''caw_ingest_dlq_depth'',
     MetricHelp = ''Current depth of the ingest dead-letter queue.'', MetricKind = Gauge\<rparr>"

definition RAGDegradedTotal :: metric where
  "RAGDegradedTotal = \<lparr>MetricName = ''caw_rag_degraded_total'',
     MetricHelp = ''Total requests served in RAG-degraded mode.'', MetricKind = CounterVec [''domain'']\<rparr>"

definition CritiquePassTotal :: metric where
  "CritiquePassTotal = \<lparr>MetricName = ''caw_critique_pass_total'',
     MetricHelp = ''Total self-critique passes applied.'', MetricKind = CounterVec [''trigger'']\<rparr>"

definition HeapAllocMB :: metric where
  "HeapAllocMB = \<lparr>MetricName = ''caw_heap_alloc_mb'',
     MetricHelp = ''Current Go heap allocation in megabytes.'', MetricKind = GaugeFunc\<rparr>"

fun MustRegister :: "(metric \<Rightarrow> 'r \<Rightarrow> goerr + 'r) \<Rightarrow> metric list \<Rightarrow> ('r, unit) prog" where
  "MustRegister register [] = gret ()"
| "MustRegister register (c # cs) = (\<lambda>r. case register c r of
     Inl e \<Rightarrow> (Panic e, r) | Inr r1 \<Rightarrow> MustRegister register cs r1)"

definition RegisterMetrics :: "(metric \<Rightarrow> 'r \<Rightarrow> goerr + 'r) \<Rightarrow> ('r, unit) prog" where
  "RegisterMetrics register = MustRegister register
     [RequestsInFlight, RedisLatency, IngestDLQDepth, RAGDegradedTotal, CritiquePassTotal, HeapAllocMB]"

section \<open>The middleware\<close>

text \<open>The deferred decrement runs when the rest of the chain returns and when it panics.\<close>

definition InFlightMiddlewareWith :: "('w \<Rightarrow> 'w) \<Rightarrow> ('w \<Rightarrow> 'w) \<Rightarrow> ('w, 'a) prog \<Rightarrow> ('w, 'a) prog" where
  "InFlightMiddlewareWith inc dec nxt = (\<lambda>w. case nxt (inc w) of (r, w1) \<Rightarrow> (r, dec w1))"

text \<open>An operation that panics is not observed.\<close>

definition ObserveRedisLatencyWith ::
  "('w \<Rightarrow> int) \<Rightarrow> (int \<Rightarrow> 'w \<Rightarrow> 'w) \<Rightarrow> ('w, goerr option) prog \<Rightarrow> ('w, goerr option) prog" where
  "ObserveRedisLatencyWith now observe op = (\<lambda>w.
     let start = now w
     in gbind op (\<lambda>err. grun (\<lambda>w1. (err, observe (now w1 - start) w1))) w)"

section \<open>Spans\<close>

definition TracerName :: string where "TracerName = ''caw''"

definition span_names :: "string list" where
  "span_names = [''caw.context-load'', ''caw.rag-retrieval'', ''caw.inference'', ''caw.critique'', ''caw.format-retry'']"

text \<open>The tracer of the name from the tracing library starts the span.\<close>

definition StartSpan :: "(string \<Rightarrow> 'ctx \<Rightarrow> string \<Rightarrow> 'ctx \<times> 'span) \<Rightarrow> 'ctx \<Rightarrow> string \<Rightarrow> 'ctx \<times> 'span" where
  "StartSpan start ctx name = start TracerName ctx name"

section \<open>Lemmas\<close>

text \<open>A registry that takes a name once.\<close>

definition name_registry :: "metric \<Rightarrow> string list \<Rightarrow> goerr + string list" where
  "name_registry c names = (if MetricName c \<in> set names then Inl ''duplicate metrics collector registration attempted''
     else Inr (MetricName c # names))"

lemmas metric_defs = RequestsInFlight_def RedisLatency_def IngestDLQDepth_def RAGDegradedTotal_def
  CritiquePassTotal_def HeapAllocMB_def

lemma metrics_register_once:
  "\<exists>names. RegisterMetrics name_registry [] = (Ret (), names) \<and> length names = 6
     \<and> (\<exists>m. RegisterMetrics name_registry names = (Panic m, names))"
  by (simp add: RegisterMetrics_def name_registry_def metric_defs)

text \<open>Whatever the handlers behind it do, the gauge is back where it was, also after a panic.\<close>

lemma in_flight_restored:
  assumes "\<And>w. read (inc w) = read w + (1 :: int)" and "\<And>w. read (dec w) = read w - 1"
    and "\<And>w. read (snd (nxt w)) = read w"
  shows "read (snd (InFlightMiddlewareWith inc dec nxt w)) = read w"
  using assms(1,2) assms(3) [of "inc w"] by (cases "nxt (inc w)") (simp add: InFlightMiddlewareWith_def)

lemma latency_keeps_outcome:
  "fst (ObserveRedisLatencyWith now observe op w) = fst (op w)"
  by (auto simp: ObserveRedisLatencyWith_def Let_def gbind_def split: prod.splits go.splits)

end
