(* ===== verification/Benchmark.thy ===== *)
theory Benchmark
  imports Chat Agent Security
begin

text \<open>
  The benchmark of the gateway, \<open>scripts/benchmark\<close>: the questions (\<open>questions.go\<close>), the harness with its
  two responders (\<open>benchmark.go\<close>) and the report (\<open>report.go\<close>). The HTTP client, the file system, the
  clock, the environment and the arithmetic of \<open>float64\<close> are parameters; times are their texts.
\<close>

section \<open>Questions\<close>

record mmlu_question =
  Question :: string
  AnswerChoices :: "(string \<times> string) list"
  Answer :: string

abbreviation mmlu :: "string \<Rightarrow> (string \<times> string) list \<Rightarrow> string \<Rightarrow> mmlu_question" where
  "mmlu q cs a \<equiv> \<lparr>Question = q, AnswerChoices = cs, Answer = a\<rparr>"

definition SampleMMLUQuestions :: "mmlu_question list" where
  "SampleMMLUQuestions = [
     mmlu (''What is the capital of France?'') [(''A'', ''London''), (''B'', ''Berlin''), (''C'', ''Paris''), (''D'', ''Madrid'')] ''C'',
     mmlu (''What is 2 + 2?'') [(''A'', ''3''), (''B'', ''5''), (''C'', ''6''), (''D'', ''4'')] ''D'',
     mmlu (''Which planet is closest to the Sun?'') [(''A'', ''Venus''), (''B'', ''Mars''), (''C'', ''Earth''), (''D'', ''Mercury'')] ''D'',
     mmlu (''What is the chemical symbol for water?'') [(''A'', ''O2''), (''B'', ''H2O''), (''C'', ''CO2''), (''D'', ''NaCl'')] ''B'',
     mmlu (''What is the square root of 144?'') [(''A'', ''10''), (''B'', ''14''), (''C'', ''12''), (''D'', ''11'')] ''C'',
     mmlu (''Which of the following is a prime number?'') [(''A'', ''9''), (''B'', ''15''), (''C'', ''21''), (''D'', ''17'')] ''D'',
     mmlu (''What is Newton'' @ [CHR 0x27] @ ''s second law of motion?'') [(''A'', ''F=mc'' @ [CHR 0xC2, CHR 0xB2]), (''B'', ''F=ma''), (''C'', ''E=mc'' @ [CHR 0xC2, CHR 0xB2]), (''D'', ''a=m/F'')] ''B'',
     mmlu (''What is the powerhouse of the cell?'') [(''A'', ''Nucleus''), (''B'', ''Ribosome''), (''C'', ''Mitochondria''), (''D'', ''Golgi apparatus'')] ''C'',
     mmlu (''In Python, which keyword is used to define a function?'') [(''A'', ''func''), (''B'', ''function''), (''C'', ''define''), (''D'', ''def'')] ''D'',
     mmlu (''What does CPU stand for?'') [(''A'', ''Central Processing Unit''), (''B'', ''Computer Personal Unit''), (''C'', ''Central Program Utility''), (''D'', ''Core Processing Unit'')] ''A'']"

definition SampleHumanEvalPrompts :: "(string \<times> string) list" where
  "SampleHumanEvalPrompts = [
     (''HE-001'', ''Write ONLY a Python function definition (no explanation, no markdown). Function name: sum_list. It takes a list of numbers and returns their sum.''),
     (''HE-002'', ''Write ONLY a Python function definition (no explanation, no markdown). Function name: is_prime. It takes an integer and returns True if prime, False otherwise.''),
     (''HE-003'', ''Write ONLY a Python function definition (no explanation, no markdown). Function name: reverse_string. It takes a string and returns it reversed.''),
     (''HE-004'', ''Write ONLY a Python function definition (no explanation, no markdown). Function name: fibonacci. It takes an integer n and returns the nth Fibonacci number.''),
     (''HE-005'', ''Write ONLY a Python function definition (no explanation, no markdown). Function name: count_vowels. It takes a string and returns the count of vowels.'')]"

section \<open>Responders\<close>

record bench_config =
  CfgEndpoint :: string
  CfgAPIKey :: string
  CfgDryRun :: bool
  CfgOutputPath :: string
  CfgModel :: string

record 'w bench_env =
  b_getenv :: "string \<Rightarrow> string"
  b_url_ok :: "string \<Rightarrow> bool"
  b_do :: "http_request \<Rightarrow> 'w \<Rightarrow> (http_response \<times> goerr option) result \<times> 'w"
  b_now :: "'w \<Rightarrow> string"
  b_time_ok :: "string \<Rightarrow> bool"
  b_mkdir :: "string \<Rightarrow> 'w \<Rightarrow> goerr option \<times> 'w"
  b_write :: "string \<Rightarrow> string \<Rightarrow> 'w \<Rightarrow> goerr option \<times> 'w"
  b_read :: "string \<Rightarrow> 'w \<Rightarrow> string result \<times> 'w"

definition mock_answer :: "string \<Rightarrow> string \<Rightarrow> string" where
  "mock_answer FixedResponse prompt =
     (if FixedResponse \<noteq> [] then FixedResponse
      else if contains prompt ''Python function'' then ''def solution():\<newline>    pass\<newline>''
      else case find (\<lambda>q. contains prompt (Question q)) SampleMMLUQuestions of
             Some q \<Rightarrow> Answer q | None \<Rightarrow> ''A'')"

definition bench_body :: "string \<Rightarrow> string \<Rightarrow> string" where
  "bench_body model prompt =
     json_print (JObj [(''model'', JStr model), (''messages'', JArr [json_of_message (msg ''user'' prompt)])])"

definition bench_headers :: "string \<Rightarrow> (string \<times> string) list" where
  "bench_headers apiKey = [(''Content-Type'', ''application/json'')]
     @ (if apiKey \<noteq> [] then [(''Authorization'', ''Bearer '' @ apiKey)] else [])"

definition bench_choice :: "json \<Rightarrow> string result" where
  "bench_choice v = result_bind (as_obj v) (\<lambda>ms. result_bind (obj_field ''message'' ms) (str_field ''content''))"

definition bench_answer :: "string \<Rightarrow> string result" where
  "bench_answer raw =
     (case result_bind (unmarshal_obj raw) (list_field bench_choice ''choices'') of
        Inl e \<Rightarrow> Inl (''unmarshal response: '' @ e)
      | Inr [] \<Rightarrow> Inl ''empty choices in response''
      | Inr (c # _) \<Rightarrow> Inr c)"

definition http_answer :: "'w bench_env \<Rightarrow> string \<Rightarrow> string \<Rightarrow> string \<Rightarrow> string \<Rightarrow> 'w \<Rightarrow> string result \<times> 'w" where
  "http_answer E endpoint apiKey model prompt w =
     (if \<not> b_url_ok E endpoint then (Inl ''build request: invalid URL'', w)
      else case b_do E \<lparr>Method = ''POST'', Url = endpoint, Headers = bench_headers apiKey, ReqBody = bench_body model prompt\<rparr> w of
        (Inl e, w1) \<Rightarrow> (Inl (''http call: '' @ e), w1)
      | (Inr (resp, Some e), w1) \<Rightarrow> (Inl (''read body: '' @ e), w1)
      | (Inr (resp, None), w1) \<Rightarrow>
          if Status resp \<noteq> 200 then (Inl (''endpoint returned '' @ dec_of_int (Status resp) @ '': '' @ Body resp), w1)
          else (bench_answer (Body resp), w1))"

section \<open>The harness\<close>

type_synonym 'w responder = "string \<Rightarrow> 'w \<Rightarrow> string result \<times> 'w"

record 'w harness =
  config :: bench_config
  responder :: "'w responder"

definition NewHarnessWithResponder :: "bench_config \<Rightarrow> 'w responder \<Rightarrow> 'w harness" where
  "NewHarnessWithResponder c r =
     (let c1 = (if CfgEndpoint c = [] then c\<lparr>CfgEndpoint := ''http://localhost:8080/v1/chat/completions''\<rparr> else c);
          c2 = (if CfgModel c1 = [] then c1\<lparr>CfgModel := ''gemma:2b''\<rparr> else c1)
      in \<lparr>config = c2, responder = r\<rparr>)"

definition NewHarness :: "'w bench_env \<Rightarrow> bench_config \<Rightarrow> 'w harness" where
  "NewHarness E c =
     (let c1 = (if CfgEndpoint c = [] then c\<lparr>CfgEndpoint := ''http://localhost:8080/v1/chat/completions''\<rparr> else c);
          c2 = (if CfgModel c1 = [] then c1\<lparr>CfgModel := ''gemma:2b''\<rparr> else c1);
          c3 = (if CfgAPIKey c2 = [] then c2\<lparr>CfgAPIKey := b_getenv E ''CAW_API_KEY''\<rparr> else c2)
      in \<lparr>config = c3, responder = (if CfgDryRun c3 then (\<lambda>prompt w. (Inr (mock_answer [] prompt), w))
            else http_answer E (CfgEndpoint c3) (CfgAPIKey c3) (CfgModel c3))\<rparr>)"

definition buildMMLUPrompt :: "mmlu_question \<Rightarrow> string" where
  "buildMMLUPrompt q =
     ''Answer the following multiple-choice question with only the letter of the correct answer (A, B, C, or D).\<newline>\<newline>''
     @ ''Question: '' @ Question q @ ''\<newline>''
     @ concat (map (\<lambda>k. case map_of (AnswerChoices q) k of Some v \<Rightarrow> k @ '') '' @ v @ ''\<newline>'' | None \<Rightarrow> [])
         [''A'', ''B'', ''C'', ''D''])
     @ ''\<newline>Answer:''"

definition letter_in_range :: "char \<Rightarrow> bool" where
  "letter_in_range c \<longleftrightarrow> c = CHR ''A'' \<or> c = CHR ''B'' \<or> c = CHR ''C'' \<or> c = CHR ''D''"

definition answer_letter_re :: re where
  "answer_letter_re = rseq [RBound, RCap 1 (RSet letter_in_range), RBound]"

text \<open>The last resort looks at the first byte; one outside ASCII, read as a rune, is above every letter.\<close>

definition extractAnswerLetter :: "string \<Rightarrow> string" where
  "extractAnswerLetter response =
     (let t = trim_space response
      in case re_find answer_letter_re t of
           Some g \<Rightarrow> g 1
         | None \<Rightarrow> (case t of [] \<Rightarrow> [] | c # _ \<Rightarrow> if letter_in_range (upper_char c) then [upper_char c] else []))"

definition def_name_re :: "re list" where
  "def_name_re = [rlit ''def'', rplus (RSet rspace), rplus (RSet rword), RStar True (RSet rspace), rlit ''('']"

definition python_def_re :: re where
  "python_def_re = RAlt (rseq ([RBol, RStar True (RSet rspace)] @ def_name_re))
     (rseq ([RSet (\<lambda>c. \<not> is_lower c)] @ def_name_re))"

definition ContainsPythonFunctionDef :: "string \<Rightarrow> bool" where
  "ContainsPythonFunctionDef s = re_test python_def_re s"

text \<open>The loops over the questions: the number of correct answers so far, or the first error.\<close>

fun mmlu_loop :: "'w responder \<Rightarrow> mmlu_question list \<Rightarrow> nat \<Rightarrow> 'w \<Rightarrow> nat result \<times> 'w" where
  "mmlu_loop get [] correct w = (Inr correct, w)"
| "mmlu_loop get (q # qs) correct w =
     (case get (buildMMLUPrompt q) w of
        (Inl e, w1) \<Rightarrow> (Inl (''question '' @ go_quote (Question q) @ '': '' @ e), w1)
      | (Inr response, w1) \<Rightarrow>
          mmlu_loop get qs (if extractAnswerLetter response = Answer q then correct + 1 else correct) w1)"

fun humaneval_loop :: "'w responder \<Rightarrow> (string \<times> string) list \<Rightarrow> nat \<Rightarrow> 'w \<Rightarrow> nat result \<times> 'w" where
  "humaneval_loop get [] correct w = (Inr correct, w)"
| "humaneval_loop get ((i, prompt) # ps) correct w =
     (case get prompt w of
        (Inl e, w1) \<Rightarrow> (Inl (''prompt '' @ i @ '': '' @ e), w1)
      | (Inr response, w1) \<Rightarrow>
          humaneval_loop get ps (if ContainsPythonFunctionDef response then correct + 1 else correct) w1)"

section \<open>Scores\<close>

definition GPT35MMLUBaseline :: int where "GPT35MMLUBaseline = 70"
definition GPT35HumanEvalBaseline :: int where "GPT35HumanEvalBaseline = 48"
definition GemmaMMLUBaseline :: int where "GemmaMMLUBaseline = 35"
definition GemmaHumanEvalBaseline :: int where "GemmaHumanEvalBaseline = 12"

record 'd arith =
  d_int :: "int \<Rightarrow> 'd"
  d_add :: "'d \<Rightarrow> 'd \<Rightarrow> 'd"
  d_sub :: "'d \<Rightarrow> 'd \<Rightarrow> 'd"
  d_mul :: "'d \<Rightarrow> 'd \<Rightarrow> 'd"
  d_div :: "'d \<Rightarrow> 'd \<Rightarrow> 'd"
  d_eq :: "'d \<Rightarrow> 'd \<Rightarrow> bool"
  d_text :: "'d \<Rightarrow> string"
  d_read :: "string \<Rightarrow> 'd result"

record 'd score_result =
  Score :: 'd
  Correct :: int
  Total :: int
  Baseline :: 'd
  GemmaBaseline :: 'd

record 'd benchmark_result =
  MMLU :: "'d score_result"
  HumanEval :: "'d score_result"
  GapClosed :: 'd
  RunAt :: string

definition GapClosedPct :: "'d arith \<Rightarrow> 'd \<Rightarrow> 'd \<Rightarrow> 'd \<Rightarrow> 'd" where
  "GapClosedPct A cawScore gemmaBaseline gpt35Baseline =
     (let denom = d_sub A gpt35Baseline gemmaBaseline
      in if d_eq A denom (d_int A 0) then d_int A 0
         else d_mul A (d_div A (d_sub A cawScore gemmaBaseline) denom) (d_int A 100))"

definition OverallGapClosed :: "'d arith \<Rightarrow> 'd benchmark_result \<Rightarrow> 'd" where
  "OverallGapClosed A r =
     (let mmluGap = GapClosedPct A (Score (MMLU r)) (GemmaBaseline (MMLU r)) (Baseline (MMLU r));
          heGap = GapClosedPct A (Score (HumanEval r)) (GemmaBaseline (HumanEval r)) (Baseline (HumanEval r))
      in d_div A (d_add A mmluGap heGap) (d_int A 2))"

definition score_of :: "'d arith \<Rightarrow> int \<Rightarrow> int \<Rightarrow> int \<Rightarrow> nat \<Rightarrow> 'd score_result" where
  "score_of A gpt35 gemma n correct =
     \<lparr>Score = d_mul A (d_div A (d_int A (int correct)) (d_int A n)) (d_int A 100),
      Correct = int correct, Total = n, Baseline = d_int A gpt35, GemmaBaseline = d_int A gemma\<rparr>"

definition runMMQU :: "'d arith \<Rightarrow> 'w harness \<Rightarrow> 'w \<Rightarrow> 'd score_result result \<times> 'w" where
  "runMMQU A h w = (case mmlu_loop (responder h) SampleMMLUQuestions 0 w of
     (Inl e, w1) \<Rightarrow> (Inl e, w1)
   | (Inr n, w1) \<Rightarrow> (Inr (score_of A GPT35MMLUBaseline GemmaMMLUBaseline (int (length SampleMMLUQuestions)) n), w1))"

definition runHumanEval :: "'d arith \<Rightarrow> 'w harness \<Rightarrow> 'w \<Rightarrow> 'd score_result result \<times> 'w" where
  "runHumanEval A h w = (case humaneval_loop (responder h) SampleHumanEvalPrompts 0 w of
     (Inl e, w1) \<Rightarrow> (Inl e, w1)
   | (Inr n, w1) \<Rightarrow> (Inr (score_of A GPT35HumanEvalBaseline GemmaHumanEvalBaseline (int (length SampleHumanEvalPrompts)) n), w1))"

definition harness_Run :: "'w bench_env \<Rightarrow> 'd arith \<Rightarrow> 'w harness \<Rightarrow> 'w \<Rightarrow> 'd benchmark_result result \<times> 'w" where
  "harness_Run E A h w =
     (case runMMQU A h w of
        (Inl e, w1) \<Rightarrow> (Inl (''mmlu run: '' @ e), w1)
      | (Inr m, w1) \<Rightarrow>
        (case runHumanEval A h w1 of
           (Inl e, w2) \<Rightarrow> (Inl (''humaneval run: '' @ e), w2)
         | (Inr he, w2) \<Rightarrow>
           (let r = \<lparr>MMLU = m, HumanEval = he, GapClosed = d_int A 0, RunAt = b_now E w2\<rparr>
            in (Inr (r\<lparr>GapClosed := OverallGapClosed A r\<rparr>), w2))))"

section \<open>The report\<close>

text \<open>\<open>json.MarshalIndent\<close> with two spaces; an empty array or object stays on its line.\<close>

definition indent :: "nat \<Rightarrow> string" where
  "indent n = CHR 0x0A # concat (replicate n ''  '')"

fun json_indent :: "nat \<Rightarrow> json \<Rightarrow> string" where
  "json_indent n (JArr vs) =
     (if vs = [] then ''[]''
      else CHR 0x5B # join '','' (map (\<lambda>v. indent (n + 1) @ json_indent (n + 1) v) vs) @ indent n @ [CHR 0x5D])"
| "json_indent n (JObj ms) =
     (if ms = [] then [CHR 0x7B, CHR 0x7D]
      else CHR 0x7B # join '','' (map (\<lambda>(k, v). indent (n + 1) @ json_quote k @ '': '' @ json_indent (n + 1) v) ms)
        @ indent n @ [CHR 0x7D])"
| "json_indent n v = json_print v"

definition score_json :: "'d arith \<Rightarrow> 'd score_result \<Rightarrow> json" where
  "score_json A r = JObj [(''score'', JNum (d_text A (Score r))), (''correct'', JInt (Correct r)), (''total'', JInt (Total r)),
     (''gpt35_baseline'', JNum (d_text A (Baseline r))), (''gemma_baseline'', JNum (d_text A (GemmaBaseline r)))]"

definition report_json :: "'d arith \<Rightarrow> 'd benchmark_result \<Rightarrow> json" where
  "report_json A r = JObj [(''mmlu'', score_json A (MMLU r)), (''humaneval'', score_json A (HumanEval r)),
     (''gap_closed_pct'', JNum (d_text A (GapClosed r))), (''run_at'', JStr (RunAt r))]"

text \<open>\<open>filepath.Dir\<close>.\<close>

definition dir_name :: "string \<Rightarrow> string" where
  "dir_name p = clean_path (rev (dropWhile (\<lambda>c. c \<noteq> CHR ''/'') (rev p)))"

definition WriteReport :: "'w bench_env \<Rightarrow> 'd arith \<Rightarrow> 'd benchmark_result \<Rightarrow> string \<Rightarrow> 'w \<Rightarrow> goerr option \<times> 'w" where
  "WriteReport E A result outputPath w =
     (case b_mkdir E (dir_name outputPath) w of
        (Some e, w1) \<Rightarrow> (Some (''create output dir: '' @ e), w1)
      | (None, w1) \<Rightarrow>
        (case b_write E outputPath (json_indent 0 (report_json A result)) w1 of
           (Some e, w2) \<Rightarrow> (Some (''write report: '' @ e), w2)
         | (None, w2) \<Rightarrow> (None, w2)))"

definition float_field :: "'d arith \<Rightarrow> string \<Rightarrow> (string \<times> json) list \<Rightarrow> 'd result" where
  "float_field A k ms = result_bind (num_field k ms) (d_read A)"

definition as_score :: "'d arith \<Rightarrow> (string \<times> json) list \<Rightarrow> 'd score_result result" where
  "as_score A ms =
     result_bind (float_field A ''score'' ms) (\<lambda>s. result_bind (int_field ''correct'' ms) (\<lambda>c.
     result_bind (int_field ''total'' ms) (\<lambda>t. result_bind (float_field A ''gpt35_baseline'' ms) (\<lambda>b.
     result_bind (float_field A ''gemma_baseline'' ms) (\<lambda>g.
       Inr \<lparr>Score = s, Correct = c, Total = t, Baseline = b, GemmaBaseline = g\<rparr>)))))"

definition as_time_text :: "(string \<Rightarrow> bool) \<Rightarrow> json \<Rightarrow> string result" where
  "as_time_text ok v = result_bind (as_str v) (\<lambda>t. if ok t then Inr t else Inl ''cannot parse time'')"

definition parse_report :: "'w bench_env \<Rightarrow> 'd arith \<Rightarrow> string \<Rightarrow> 'd benchmark_result result" where
  "parse_report E A data =
     result_bind (unmarshal_obj data) (\<lambda>ms.
     result_bind (result_bind (obj_field ''mmlu'' ms) (as_score A)) (\<lambda>m.
     result_bind (result_bind (obj_field ''humaneval'' ms) (as_score A)) (\<lambda>h.
     result_bind (float_field A ''gap_closed_pct'' ms) (\<lambda>g.
     result_bind (jfold (as_time_text (b_time_ok E)) ''0001-01-01T00:00:00Z'' (jmatches ''run_at'' ms)) (\<lambda>t.
       Inr \<lparr>MMLU = m, HumanEval = h, GapClosed = g, RunAt = t\<rparr>)))))"

definition ReadReport :: "'w bench_env \<Rightarrow> 'd arith \<Rightarrow> string \<Rightarrow> 'w \<Rightarrow> 'd benchmark_result result \<times> 'w" where
  "ReadReport E A path w =
     (case b_read E path w of
        (Inl e, w1) \<Rightarrow> (Inl (''read report: '' @ e), w1)
      | (Inr data, w1) \<Rightarrow>
          ((case parse_report E A data of Inl e \<Rightarrow> Inl (''unmarshal report: '' @ e) | Inr r \<Rightarrow> Inr r), w1))"

definition RunAndWrite :: "'w bench_env \<Rightarrow> 'd arith \<Rightarrow> 'w harness \<Rightarrow> 'w \<Rightarrow> 'd benchmark_result result \<times> 'w" where
  "RunAndWrite E A h w =
     (case harness_Run E A h w of
        (Inl e, w1) \<Rightarrow> (Inl e, w1)
      | (Inr r, w1) \<Rightarrow>
        (case WriteReport E A r
            (if CfgOutputPath (config h) = [] then ''scripts/benchmark/benchmark_results.json'' else CfgOutputPath (config h)) w1 of
           (Some e, w2) \<Rightarrow> (Inl e, w2)
         | (None, w2) \<Rightarrow> (Inr r, w2)))"

section \<open>Scores are within bounds\<close>

lemma mmlu_loop_bounds:
  "mmlu_loop get qs n w = (Inr m, w') \<Longrightarrow> n \<le> m \<and> m \<le> n + length qs"
  by (induction qs arbitrary: n w) (auto split: prod.splits sum.splits if_splits, (fastforce dest: Suc_leD)+)

lemma humaneval_loop_bounds:
  "humaneval_loop get ps n w = (Inr m, w') \<Longrightarrow> n \<le> m \<and> m \<le> n + length ps"
  by (induction get ps n w rule: humaneval_loop.induct) (auto split: prod.splits sum.splits if_splits)

text \<open>The dry run answers every question right.\<close>

lemma dry_run_is_perfect:
  "fst (mmlu_loop (\<lambda>prompt w. (Inr (mock_answer [] prompt), w)) SampleMMLUQuestions 0 ()) = Inr 10"
  "fst (humaneval_loop (\<lambda>prompt w. (Inr (mock_answer [] prompt), w)) SampleHumanEvalPrompts 0 ()) = Inr 5"
  by code_simp+

section \<open>Talking to the gateway\<close>

lemmas bench_decode = str_field_def list_field_def bool_field_def num_field_def int_field_def obj_field_def
  jmatches_def to_lower_def lower_char_def is_upper_def as_str_def as_obj_def as_list_def

lemma parse_printed: "wf_json (JObj ms) \<Longrightarrow> unmarshal_obj (json_print (JObj ms)) = Inr ms"
  by (simp add: unmarshal_obj_def json_parse_print as_obj_def del: json_print.simps wf_json.simps)

lemma bench_body_parses:
  "parse_chat (bench_body model prompt) = Inr \<lparr>ChatModel = model, ChatMessages = [msg ''user'' prompt],
     ChatStream = False, ChatTemperature = ''0'', ChatMaxTokens = 0, ChatSessionID = []\<rparr>"
proof -
  have "unmarshal_obj (bench_body model prompt)
      = Inr [(''model'', JStr model), (''messages'', JArr [json_of_message (msg ''user'' prompt)])]"
    unfolding bench_body_def by (rule parse_printed) (simp add: json_of_message_def)
  then show ?thesis
    by (simp add: parse_chat_def json_of_message_def as_message_def bench_decode)
qed

lemma bench_choice_json:
  "bench_choice (JObj [(''index'', i), (''message'', json_of_message m), (''finish_reason'', f)]) = Inr (Content m)"
  by (simp add: bench_choice_def json_of_message_def bench_decode)

lemma bench_choices: "traverse bench_choice (map (\<lambda>c. JObj [(''index'', JInt (Index c)),
     (''message'', json_of_message (Message c)), (''finish_reason'', JStr (FinishReason c))]) cs)
   = Inr (map (\<lambda>c. Content (Message c)) cs)"
  by (induction cs) (simp_all add: bench_choice_json)

lemma bench_answer_reads:
  "bench_answer (json_print (toChatResponse now resp)) =
     (case Choices resp of [] \<Rightarrow> Inl ''empty choices in response'' | c # _ \<Rightarrow> Inr (Content (Message c)))"
proof -
  let ?cs = "JArr (map (\<lambda>c. JObj [(''index'', JInt (Index c)), (''message'', json_of_message (Message c)),
      (''finish_reason'', JStr (FinishReason c))]) (Choices resp))"
  have "unmarshal_obj (json_print (toChatResponse now resp)) = Inr [(''id'', JStr (RespID resp)),
      (''object'', JStr ''chat.completion''), (''created'', JInt now), (''model'', JStr (RespModel resp)), (''choices'', ?cs)]"
    unfolding toChatResponse_def by (rule parse_printed) (auto simp: json_of_message_def list_all_iff)
  moreover have "list_field bench_choice ''choices'' [(''id'', JStr (RespID resp)),
      (''object'', JStr ''chat.completion''), (''created'', JInt now), (''model'', JStr (RespModel resp)), (''choices'', ?cs)]
    = Inr (map (\<lambda>c. Content (Message c)) (Choices resp))"
    by (simp add: list_field_def jmatches_def to_lower_def lower_char_def is_upper_def as_list_def bench_choices)
  ultimately show ?thesis by (simp add: bench_answer_def split: list.split)
qed

section \<open>Properties\<close>


definition plain_gateway :: "(unit, unit) gateway_env" where
  "plain_gateway = \<lparr>gw_generate = mock_Generate None, gw_stream = mock_Stream None, gw_embed = None,
     gw_similar = (\<lambda>_ _. False),
     gw_redis = \<lparr>pipelined = (\<lambda>_ w. (None, w)), lrange = (\<lambda>_ _ _ w. (Inr [], w)), del = (\<lambda>_ w. (None, w)),
       setnx = (\<lambda>_ _ _ w. (Inr False, w)), exists = (\<lambda>_ w. (Inr 0, w))\<rparr>,
     gw_history = True, gw_search = None, gw_unix_now = (\<lambda>_. 0), gw_nano_now = (\<lambda>_. 0)\<rparr>"


end
