(* ===== verification/Spec2Isabelle.thy ===== *)
theory Spec2Isabelle
  imports Pipeline Gateway_Props Security Factorizer Embed_Client Retriever Reconciler Documents
    Web_Props MCP_Props Main_Props ONNX_Client Semaphore Migration Metrics Benchmark
begin

text \<open>
  A model of the gateway for local language models, the Go program under \<open>src/internal\<close>, and its
  correctness. A request enters at an HTTP endpoint (gateway), which takes a worker slot, looks into
  the semantic cache, loads the session's history (memory), augments the messages with web results and
  asks an inference backend (adapter) for an answer, at once, as a stream, or in a loop that runs the
  model's tool calls (agent). The orchestration pipeline plans, executes, verifies, criticises and
  repairs an answer with further calls of the same backend.

  Conventions. A Go function that may panic or call the outside is a program of type
  \<open>('w, 'a) prog = 'w \<Rightarrow> 'a go \<times> 'w\<close> (\<open>Prelude\<close>): it gets the state of everything outside, \<open>'w\<close>, and
  returns a value or a panic and the new state. An error result is \<open>Inl message\<close>. What lies outside, the
  HTTP client, Redis, clocks, processes, the file system and third-party libraries, is an argument of
  the definitions that use it; an argument of function type is arbitrary unless a theorem says
  otherwise. A Go string is a list of bytes; Go's int is \<open>int\<close>, float64 values are kept as JSON literals.
  Methods that hold a mutex are single steps.

  The theories, in the order of the program:
  \<^item> \<open>Prelude\<close>, \<open>Go_Strings\<close>, \<open>Go_JSON\<close>, \<open>Go_JSON_Roundtrip\<close>, \<open>Go_JSON_Raw\<close>, \<open>Go_Regexp\<close>: the program type
    and its safety and cost calculus, and the parts of Go's \<open>strings\<close>, \<open>bufio.Scanner\<close>, \<open>encoding/json\<close> and
    \<open>regexp\<close> that the source uses; what is printed as JSON is parsed back, and \<open>json.RawMessage\<close> keeps its text.
  \<^item> \<open>Breaker_Spec\<close>, \<open>Breakers\<close>: the contract of a three-state circuit breaker as a locale, its two
    implementations (\<open>adapter/circuit_breaker.go\<close>, \<open>embed/circuit_breaker.go\<close>) and the life of an outage.
  \<^item> \<open>Backend\<close>, \<open>Adapters\<close>, \<open>Adapter_Props\<close>: the interface of inference backends (\<open>adapter/backend.go\<close>,
    \<open>mock.go\<close>, \<open>factory.go\<close>) as a locale, the four adapters (\<open>ollama.go\<close>, \<open>llamacpp.go\<close>, \<open>bitnet.go\<close>,
    \<open>vllm.go\<close>), their stream decoders, and what callers may rely on.
  \<^item> \<open>Task_Planner\<close>, \<open>Self_Critique\<close>, \<open>Web_Augmenter\<close>, \<open>Code_Feedback\<close>, \<open>Pipeline\<close>: the stages of
    \<open>orchestration/*.go\<close> and the pass that composes them.
  \<^item> \<open>Sessions\<close>, \<open>Context_Manager\<close>: sessions in Redis lists (\<open>memory/session.go\<close>, \<open>history_manager.go\<close>)
    and the compression of a context under a lock (\<open>orchestration/context_manager.go\<close>).
  \<^item> \<open>Virtual_Tools\<close>, \<open>Agent\<close>: tool calls read from text and the agent loop
    (\<open>gateway/virtual_tools.go\<close>, \<open>agentic_executor.go\<close>).
  \<^item> \<open>Gateway_Core\<close>, \<open>Chat\<close>, \<open>Anthropic\<close>, \<open>Gateway_Props\<close>: worker pool, semantic cache and the two
    endpoints (\<open>gateway/workerpool.go\<close>, \<open>semantic_cache.go\<close>, \<open>chat.go\<close>, \<open>anthropic.go\<close>).
  \<^item> \<open>Security\<close>: API keys, tokens and the rate limiter (\<open>security/*.go\<close>).
  \<^item> \<open>LRU_Spec\<close>, \<open>Factor_Cache\<close>, \<open>Factorizer\<close>: the contract of an LRU cache as a locale; the cache of
    \<open>mathutil/factorizer.go\<close> with its pointers over a heap, and the factorization behind it. \<open>Factorizer\<close>
    shows that answers are prime factorizations and when the random search ends.
  \<^item> \<open>Embed_Cache\<close>, \<open>Embed_Client\<close>: the cache with expiry (\<open>embed/lru_cache.go\<close>), which has the same
    contract, and the client of the embedding service (\<open>embed/client.go\<close>).
  \<^item> \<open>Go_Floats\<close>, \<open>ONNX_Client\<close>: float arithmetic as a parameter; the local client of embeddings and the choice
    between both clients (\<open>embed/onnx_client.go\<close>, \<open>onnx_client_stub.go\<close>, \<open>factory.go\<close>).
  \<^item> \<open>Retrieval\<close>, \<open>Redis_Keys\<close>, \<open>Retriever\<close>: rank fusion, reranking and the context block (\<open>rag/rrf.go\<close>,
    \<open>reranker.go\<close>, \<open>context.go\<close>); the keys of Redis with their expiry; the retriever with its two legs and
    the cache versioned by domain (\<open>rag/retriever.go\<close>, \<open>cache.go\<close>).
  \<^item> \<open>PG_Store\<close>, \<open>Qdrant\<close>: the relational store as tables with the constraints of its schema
    (\<open>memory/pg_schema.go\<close>, \<open>pg_store.go\<close>) and the requests of the vector store client
    (\<open>memory/qdrant.go\<close>).
  \<^item> \<open>Ingest_Jobs\<close>, \<open>Ingest_Worker\<close>, \<open>Ingest_Props\<close>, \<open>Reconciler\<close>: jobs, their status, dead letters and
    chunks (\<open>ingest/enqueue.go\<close>, \<open>dlq.go\<close>, \<open>types.go\<close>), the worker with its goroutines and its consumer
    loop (\<open>ingest/worker.go\<close>), what a job leaves in the stores and the streams, and the reconciliation
    of both stores (\<open>ingest/reconciler.go\<close>).
  \<^item> \<open>Documents\<close>: the document, session and probe endpoints (\<open>gateway/documents.go\<close>, \<open>sessions.go\<close>,
    \<open>probes.go\<close>).
  \<^item> \<open>Tool_Registry\<close>: the registry of tools, its endpoints, the plugin loader and the store the main
    program passes in (\<open>tools/types.go\<close>, \<open>registry.go\<close>, \<open>handler.go\<close>, \<open>plugin_loader.go\<close>,
    \<open>cmd/wrapper/pg_adapter.go\<close>).
  \<^item> \<open>Web_Tools\<close>, \<open>Web_Props\<close>: the web search with its three providers, the fetcher with its text extraction,
    and the documents both queue for the index (\<open>tools/web_search.go\<close>, \<open>web_fetch.go\<close>,
    \<open>orchestration/web_searcher_adapter.go\<close>).
  \<^item> \<open>Dispatcher\<close>, \<open>Dispatcher_Props\<close>: running tools: the filter, the executors, the sandbox, plugins, and the
    selection of grammars (\<open>tools/dispatcher.go\<close>, \<open>sandbox.go\<close>, \<open>plugin.go\<close>, \<open>grammar/grammar.go\<close>).
  \<^item> \<open>MCP_Server\<close>, \<open>MCP_Props\<close>: the server of the model context protocol and its endpoint (\<open>mcp/*.go\<close>,
    \<open>gateway/mcp.go\<close>).
  \<^item> \<open>Gateway_Server\<close>, \<open>Server_Props\<close>: the routes, the middleware in front of every endpoint, and all endpoints
    over one state (\<open>gateway/server.go\<close>); what nobody can do without the key.
  \<^item> \<open>Main_Program\<close>, \<open>Main_Props\<close>: the main program (\<open>cmd/wrapper/main.go\<close>): how its start can fail, and the
    services it composes of the adapter, the stores, the tools and the searcher. The contract of these services
    is the locale \<open>running_gateway\<close>, which extends the contract of a backend; the program keeps it with three of
    its backends, and so answers every request and gives every slot back.
  \<^item> \<open>Watchdog\<close>, \<open>Semaphore\<close>: the memory watchdog (\<open>observability/watchdog.go\<close>) and the weighted semaphore of
    generations and embeddings (\<open>adapter/semaphore.go\<close>), each over any sequence of events.
  \<^item> \<open>Metrics\<close>: metrics, middleware and spans (\<open>observability/metrics.go\<close>, \<open>middleware.go\<close>, \<open>tracing.go\<close>).
  \<^item> \<open>Migration\<close>: the program that copies a collection between two vector stores
    (\<open>scripts/migrate_qdrant.go\<close>).
  \<^item> \<open>Benchmark\<close>: the benchmark with its questions and its report (\<open>scripts/benchmark\<close>), and that what it
    scores is what the model answered.

  Bounds. Loops over data are recursive functions with a measure. Two loops poll the outside: the wait
  for the session lock has fuel 26, one more than its deadline allows, and \<open>lock_wait_ends\<close> shows that it
  is enough; the JSON parser and the regular-expression matcher take fuel from the length of their
  input. The agent loop makes at most \<open>maxAgentSteps\<close> = 20 rounds, as in the source. Loops that the
  outside can keep going are partial functions that return \<open>None\<close> when they do not end: the random search
  of \<open>pollardRho\<close> (\<open>factorize_returns\<close>), the pages of a reconciliation (\<open>scroll_pages\<close>, with
  \<open>reconciliation_is_exact\<close>), and the consumer loop of the worker (\<open>consume\<close>), which is meant to run until
  its context is cancelled. A job is \<open>None\<close> on a schedule that leaves a goroutine unfinished, and
  \<open>job_returns\<close> shows that fair schedules leave none.

  A migration may page for ever, so \<open>migrate_from\<close> is partial too.

  Not modelled: the construction of the clients of libraries (Redis, the database, HTTP, metrics, tracing),
  which are parameters where they are used, and the report's function of the heap gauge. The texts of the
  grammars, the arithmetic of floats, digests, and the path matching of the web framework are parameters too.
  A number inside an untyped JSON value keeps its literal, except in \<open>Migration\<close>, where its way through a
  float matters.
\<close>

end
